(* ===== verification/Prelude.thy ===== *)
theory Prelude
  imports Main "HOL-Library.Word"
begin

text \<open>
  Shared vocabulary of the Universal-Updater development: the machine types of the
  Nintendo DS ARM9 target (where \<open>size_t\<close> and \<open>u32\<close> are 32 bits wide), the
  list operations that model the C library's memory primitives (\<open>memcpy\<close>,
  \<open>realloc\<close>), and the arithmetic facts on 32-bit words that the buffer proofs
  share. Nothing here models a function of the repository.
\<close>

named_theorems word32_simps "facts that move 32-bit size arithmetic to nat"
named_theorems splice_simps "facts on the list model of memcpy"

type_synonym byte = "8 word"
type_synonym size_t = "32 word"
type_synonym u32 = "32 word"
type_synonym u16 = "16 word"

subsection \<open>Memory blocks as lists\<close>

text \<open>
  A heap block of \<open>n\<close> bytes is a list of length \<open>n\<close>. Writing \<open>ys\<close> at offset
  \<open>i\<close> (what \<open>memcpy(blk + i, ys, length ys)\<close> does inside the block) replaces the
  bytes \<open>i .. i + length ys - 1\<close>.
\<close>

definition splice :: "'a list \<Rightarrow> nat \<Rightarrow> 'a list \<Rightarrow> 'a list" where
  "splice xs i ys = take i xs @ ys @ drop (i + length ys) xs"

text \<open>Growing a block keeps its prefix; the new tail has unspecified contents (here 0).\<close>

definition resize_block :: "byte list \<Rightarrow> nat \<Rightarrow> byte list" where
  "resize_block b n = take n b @ replicate (n - length b) 0"

lemma length_splice [splice_simps]:
  "i + length ys \<le> length xs \<Longrightarrow> length (splice xs i ys) = length xs"
  by (simp add: splice_def)

lemma take_splice [splice_simps]:
  "i \<le> length xs \<Longrightarrow> take (i + length ys) (splice xs i ys) = take i xs @ ys"
  by (simp add: splice_def)

lemma take_splice_take [splice_simps]:
  "i \<le> length xs \<Longrightarrow> n \<le> length ys \<Longrightarrow> take (i + n) (splice xs i (take n ys)) = take i xs @ take n ys"
  by (simp add: splice_def min_def)

lemma length_resize_block [simp]: "length (resize_block b n) = n"
  by (simp add: resize_block_def)

lemma take_resize_block [simp]:
  "k \<le> length b \<Longrightarrow> k \<le> n \<Longrightarrow> take k (resize_block b n) = take k b"
  by (simp add: resize_block_def min_def)

subsection \<open>32-bit sizes\<close>

lemma unat_size_add [word32_simps]:
  "unat (a :: size_t) + unat b < 2 ^ 32 \<Longrightarrow> unat (a + b) = unat a + unat b"
  by (simp add: unat_word_ariths)

lemma unat_double [word32_simps]:
  "unat (w :: size_t) < 2 ^ 31 \<Longrightarrow> unat (push_bit 1 w) = 2 * unat w"
  by (simp add: push_bit_eq_mult unat_word_ariths)

lemma double_top_bit [simp]: "push_bit 1 (2 ^ 31 :: size_t) = 0"
  by simp

lemma size_le_iff [word32_simps]: "(a :: size_t) \<le> b \<longleftrightarrow> unat a \<le> unat b"
  by (rule word_le_nat_alt)

lemma size_less_iff [word32_simps]: "(a :: size_t) < b \<longleftrightarrow> unat a < unat b"
  by (rule word_less_nat_alt)

lemma unat_size_of_nat [word32_simps]:
  "n < 2 ^ 32 \<Longrightarrow> unat (of_nat n :: size_t) = n"
  by (simp add: unat_of_nat)

lemma unat_size_bound: "unat (w :: size_t) < 2 ^ 32"
  using unsigned_less [of w] by simp

end
