(* ===== verification/Downloading.thy ===== *)
theory Downloading
  imports Prelude
begin

text \<open>
  The HTTP downloader of \<^verbatim>\<open>src/source/actions/Downloading.cpp\<close>: the three static
  globals \<open>ResultBuf\<close>, \<open>Result_Size\<close>, \<open>Result_Written\<close> as a record, the curl write
  callback \<open>handle_data\<close> with its capacity-doubling loop, \<open>setupContext\<close>, and
  \<open>downloadToFile\<close>. The curl library (\<open>curl_easy_perform\<close>) and the C allocator are
  environments: curl delivers the body as a list of chunks and stops at the first chunk the
  callback does not fully accept; the allocator answers each request by an oracle.
\<close>

section \<open>State and environment\<close>

text \<open>
  \<open>ResultBuf\<close> is a nullable pointer: \<open>None\<close> is \<open>nullptr\<close>, \<open>Some blk\<close> the heap
  block it points to, whose length is the number of bytes really allocated.
\<close>

record dl_state =
  ResultBuf :: "byte list option"
  Result_Size :: size_t
  Result_Written :: size_t

text \<open>The initialisers of the globals, and the reset done after every transfer.\<close>

definition dl_reset :: dl_state where
  "dl_reset = \<lparr>ResultBuf = None, Result_Size = 0, Result_Written = 0\<rparr>"

text \<open>
  The allocator: \<open>heap n\<close> says whether a request for \<open>n\<close> bytes succeeds.
  \<open>realloc(NULL, n)\<close> behaves as \<open>malloc(n)\<close>; a failed \<open>realloc\<close> leaves the old
  block untouched.
\<close>

type_synonym heap = "nat \<Rightarrow> bool"

definition malloc :: "heap \<Rightarrow> nat \<Rightarrow> byte list option" where
  "malloc h n = (if h n then Some (replicate n 0) else None)"

definition realloc :: "heap \<Rightarrow> byte list option \<Rightarrow> nat \<Rightarrow> byte list option" where
  "realloc h p n =
     (if h n then Some (case p of None \<Rightarrow> replicate n 0 | Some b \<Rightarrow> resize_block b n)
      else None)"

text \<open>
  Undefined behaviour of the callback is an error value: \<open>memcpy\<close> outside the block, or
  reading more bytes than the chunk holds.
\<close>

datatype mem_fault = Buffer_Overflow | Source_Overread

definition memcpy_block :: "byte list \<Rightarrow> nat \<Rightarrow> byte list \<Rightarrow> nat \<Rightarrow> mem_fault + byte list" where
  "memcpy_block blk off src n =
     (if length src < n then Inl Source_Overread
      else if length blk < off + n then Inl Buffer_Overflow
      else Inr (splice blk off (take n src)))"

section \<open>The write callback\<close>

text \<open>
  \<^verbatim>\<open>while (Result_Written + Bsz > Result_Size) { Result_Size <<= 1; need_realloc = true; }\<close>
  with 32-bit \<open>size_t\<close>: the addition and the shift wrap. The loop is a partial function:
  \<open>None\<close> is a loop that never ends.
\<close>

partial_function (option) grow_size :: "size_t \<Rightarrow> size_t \<Rightarrow> bool \<Rightarrow> (size_t \<times> bool) option" where
  "grow_size need sz need_realloc =
     (if sz < need then grow_size need (push_bit 1 sz) True else Some (sz, need_realloc))"

text \<open>
  The tail of the callback after the loop: the \<open>!ResultBuf\<close> guard, then \<open>memcpy\<close> at
  offset \<open>Result_Written\<close> and the return of \<open>Bsz\<close>.
\<close>

definition write_chunk :: "byte list \<Rightarrow> size_t \<Rightarrow> dl_state \<Rightarrow> mem_fault + (size_t \<times> dl_state)" where
  "write_chunk Ptr Bsz s =
     (case ResultBuf s of
        None \<Rightarrow> Inr (0, s)
      | Some blk \<Rightarrow>
          (case memcpy_block blk (unat (Result_Written s)) Ptr (unat Bsz) of
             Inl f \<Rightarrow> Inl f
           | Inr blk' \<Rightarrow> Inr (Bsz, s\<lparr>ResultBuf := Some blk',
                                     Result_Written := Result_Written s + Bsz\<rparr>)))"

text \<open>The lazy first allocation: \<open>if (Result_Size == 0 || !ResultBuf)\<close>.\<close>

definition dl_prepare :: "heap \<Rightarrow> dl_state \<Rightarrow> dl_state" where
  "dl_prepare h s =
     (if Result_Size s = 0 \<or> ResultBuf s = None
      then s\<lparr>Result_Size := 0x1000, ResultBuf := malloc h 0x1000\<rparr> else s)"

definition handle_data ::
  "heap \<Rightarrow> byte list \<Rightarrow> size_t \<Rightarrow> size_t \<Rightarrow> dl_state \<Rightarrow> (mem_fault + (size_t \<times> dl_state)) option" where
  "handle_data h Ptr Size NMemb s0 =
     (let Bsz = Size * NMemb;
          s1 = dl_prepare h s0
      in case grow_size (Result_Written s1 + Bsz) (Result_Size s1) False of
           None \<Rightarrow> None
         | Some (sz, need_realloc) \<Rightarrow>
             (let s2 = s1\<lparr>Result_Size := sz\<rparr> in
              if need_realloc then
                (case realloc h (ResultBuf s2) (unat sz) of
                   None \<Rightarrow> Some (Inr (0, s2))
                 | Some NewBuf \<Rightarrow> Some (write_chunk Ptr Bsz (s2\<lparr>ResultBuf := Some NewBuf\<rparr>)))
              else Some (write_chunk Ptr Bsz s2)))"

section \<open>The transfer: curl and downloadToFile\<close>

text \<open>
  \<open>curl_easy_perform\<close> hands the body to the write callback chunk by chunk, with
  \<open>Size = 1\<close> and \<open>NMemb\<close> the chunk length, and aborts with \<open>CURLE_WRITE_ERROR\<close>
  as soon as the callback returns less than it was given. This is libcurl's documented
  contract, modelled here because the library is not part of the repository.
\<close>

datatype CURLcode = CURLE_OK | CURLE_WRITE_ERROR | CURLE_RECV_ERROR

fun curl_write_all :: "heap \<Rightarrow> byte list list \<Rightarrow> dl_state \<Rightarrow> (mem_fault + (CURLcode \<times> dl_state)) option" where
  "curl_write_all h [] s = Some (Inr (CURLE_OK, s))"
| "curl_write_all h (c # cs) s =
     (case handle_data h c 1 (of_nat (length c)) s of
        None \<Rightarrow> None
      | Some (Inl f) \<Rightarrow> Some (Inl f)
      | Some (Inr (r, s')) \<Rightarrow>
          if r \<noteq> of_nat (length c) then Some (Inr (CURLE_WRITE_ERROR, s'))
          else curl_write_all h cs s')"

text \<open>
  What the server and the network deliver for a URL: the body chunks that arrive, and
  whether the transfer then completes (a DNS, TLS or HTTP failure is \<open>False\<close>).
\<close>

record response =
  body_chunks :: "byte list list"
  transfer_ok :: bool

text \<open>The options \<open>setupContext\<close> sets on the handle.\<close>

record curl_opts =
  opt_buffersize :: int
  opt_url :: string
  opt_noprogress :: bool
  opt_useragent :: string
  opt_followlocation :: bool
  opt_maxredirs :: int
  opt_http2tls :: bool
  opt_ssl_verifypeer :: bool
  opt_verbose :: bool

definition USER_AGENT :: string where
  "USER_AGENT = ''Universal-Updater-v4.0.0''"

definition setupContext :: "string \<Rightarrow> curl_opts \<times> int" where
  "setupContext url =
     (\<lparr>opt_buffersize = 102400, opt_url = url, opt_noprogress = True,
       opt_useragent = USER_AGENT, opt_followlocation = True, opt_maxredirs = 50,
       opt_http2tls = True, opt_ssl_verifypeer = False, opt_verbose = True\<rparr>, 0)"

definition curl_easy_perform ::
  "heap \<Rightarrow> (string \<Rightarrow> response) \<Rightarrow> curl_opts \<Rightarrow> dl_state \<Rightarrow> (mem_fault + (CURLcode \<times> dl_state)) option" where
  "curl_easy_perform h web opts s =
     (let r = web (opt_url opts) in
      case curl_write_all h (body_chunks r) s of
        Some (Inr (CURLE_OK, s')) \<Rightarrow>
          Some (Inr (if transfer_ok r then CURLE_OK else CURLE_RECV_ERROR, s'))
      | res \<Rightarrow> res)"

text \<open>
  The file system maps paths to contents; \<open>dl_can_open\<close> says whether
  \<open>fopen(Path, "wb")\<close> succeeds.
\<close>

type_synonym files = "string \<Rightarrow> byte list option"

record dl_env =
  dl_heap :: heap
  dl_web :: "string \<Rightarrow> response"
  dl_can_open :: "string \<Rightarrow> bool"

text \<open>\<open>free(ResultBuf); ResultBuf = NULL; Result_Size = 0; Result_Written = 0;\<close>\<close>

definition dl_release :: "dl_state \<Rightarrow> dl_state" where
  "dl_release s = s\<lparr>ResultBuf := None, Result_Size := 0, Result_Written := 0\<rparr>"

text \<open>
  The bytes \<open>fwrite(ResultBuf, 1, Result_Written, In)\<close> writes: the first
  \<open>Result_Written\<close> bytes of the block (none when the pointer is null).
\<close>

definition dl_contents :: "dl_state \<Rightarrow> byte list" where
  "dl_contents s = (case ResultBuf s of None \<Rightarrow> [] | Some blk \<Rightarrow> take (unat (Result_Written s)) blk)"

text \<open>
  \<open>printf("==%s==\n", (char*)ResultBuf)\<close> before the \<open>fwrite\<close>: \<open>%s\<close> reads the block
  up to its first zero byte. A null pointer, or a block with no zero byte, makes the read
  undefined; only the first \<open>Result_Written\<close> bytes of the block are data, the rest is
  whatever \<open>malloc\<close>/\<open>realloc\<close> left there.
\<close>

datatype print_fault = Null_String | Unterminated_String

definition print_result_buf :: "dl_state \<Rightarrow> print_fault + byte list" where
  "print_result_buf s =
     (case ResultBuf s of
        None \<Rightarrow> Inl Null_String
      | Some blk \<Rightarrow> if 0 \<in> set blk then Inr (takeWhile (\<lambda>b. b \<noteq> 0) blk) else Inl Unterminated_String)"

definition downloadToFile ::
  "dl_env \<Rightarrow> string \<Rightarrow> string \<Rightarrow> dl_state \<times> files \<Rightarrow> (mem_fault + (int \<times> dl_state \<times> files)) option" where
  "downloadToFile env URL Path st =
     (let (s, fs) = st; (opts, Ret) = setupContext URL in
      if Ret \<noteq> 0 then Some (Inr (Ret, dl_release s, fs))
      else
        (case curl_easy_perform (dl_heap env) (dl_web env) opts s of
           None \<Rightarrow> None
         | Some (Inl f) \<Rightarrow> Some (Inl f)
         | Some (Inr (CRes, s')) \<Rightarrow>
             if CRes \<noteq> CURLE_OK then Some (Inr (-1, dl_release s', fs))
             else Some (Inr (0, dl_release s',
                             if dl_can_open env Path then fs(Path \<mapsto> dl_contents s') else fs))))"

section \<open>Specification of the buffer\<close>

text \<open>
  The capacity the spec promises: starting from \<open>c\<close>, double until at least \<open>n\<close>
  bytes fit. On unbounded naturals this always terminates.
\<close>

function cap_from :: "nat \<Rightarrow> nat \<Rightarrow> nat" where
  "cap_from n c = (if n \<le> c \<or> c = 0 then c else cap_from n (2 * c))"
  by pat_completeness auto
termination
  by (relation "measure (\<lambda>(n, c). n - c)") auto

text \<open>Sizes that are 0 or a power of two representable in 32 bits.\<close>

definition pow2_or_zero :: "nat \<Rightarrow> bool" where
  "pow2_or_zero n \<longleftrightarrow> n = 0 \<or> n \<in> set (map (\<lambda>j. 2 ^ j) [0..<32])"

text \<open>
  The buffer invariant: a null buffer has nothing written (its size is 0, or 0x1000 after a
  failed \<open>malloc\<close>); an allocated block is exactly \<open>Result_Size\<close> bytes long, a
  power of two of at least 4096, that is \<open>4096 * 2 ^ k\<close>, and holds the
  \<open>Result_Written\<close> bytes.
\<close>

definition dl_inv :: "dl_state \<Rightarrow> bool" where
  "dl_inv s \<longleftrightarrow>
     (case ResultBuf s of
        None \<Rightarrow> Result_Written s = 0 \<and> (Result_Size s = 0 \<or> Result_Size s = 0x1000)
      | Some blk \<Rightarrow> length blk = unat (Result_Size s) \<and> Result_Written s \<le> Result_Size s
                   \<and> 4096 \<le> unat (Result_Size s) \<and> pow2_or_zero (unat (Result_Size s)))"

abbreviation unbounded_heap :: heap where
  "unbounded_heap \<equiv> \<lambda>_. True"

declare cap_from.simps [simp del]

text \<open>A sample environment for the witnesses: one body chunk, a chosen allocator and destination.\<close>

definition demo_env :: "bool \<Rightarrow> heap \<Rightarrow> bool \<Rightarrow> dl_env" where
  "demo_env ok h w = \<lparr>dl_heap = h, dl_web = (\<lambda>_. \<lparr>body_chunks = [[1, 2, 3]], transfer_ok = ok\<rparr>),
                      dl_can_open = (\<lambda>_. w)\<rparr>"

section \<open>The capacity-doubling loop\<close>

lemma cap_from_ge: "0 < c \<Longrightarrow> n \<le> cap_from n c"
  by (induction n c rule: cap_from.induct) (subst cap_from.simps, auto)

lemma cap_from_stop: "n \<le> c \<Longrightarrow> cap_from n c = c"
  by (simp add: cap_from.simps)

lemma cap_from_step: "c < n \<Longrightarrow> 0 < c \<Longrightarrow> cap_from n c = cap_from n (2 * c)"
  by (simp add: cap_from.simps [of n c])

lemma cap_from_pow: "\<exists>k. cap_from n c = c * 2 ^ k"
proof (induction n c rule: cap_from.induct)
  case (1 n c)
  show ?case
  proof (cases "n \<le> c \<or> c = 0")
    case True
    then show ?thesis by (auto simp: cap_from.simps [of n c] intro: exI [of _ 0])
  next
    case False
    with "1.IH" obtain k where "cap_from n (2 * c) = 2 * c * 2 ^ k" by blast
    with False show ?thesis by (auto simp: cap_from.simps [of n c] intro!: exI [of _ "Suc k"])
  qed
qed

lemma cap_from_least: "c < n \<Longrightarrow> cap_from n c div 2 < n"
proof (induction n c rule: cap_from.induct)
  case (1 n c)
  show ?case
  proof (cases "n \<le> 2 * c")
    case True
    with "1.prems" show ?thesis by (auto simp: cap_from.simps [of n c] cap_from_stop)
  next
    case False
    with "1.prems" "1.IH" show ?thesis by (auto simp: cap_from.simps [of n c])
  qed
qed

lemma cap_from_mono: "0 < c \<Longrightarrow> n \<le> m \<Longrightarrow> cap_from m (cap_from n c) = cap_from m c"
proof (induction n c rule: cap_from.induct)
  case (1 n c)
  show ?case
  proof (cases "n \<le> c")
    case True
    then show ?thesis by (simp add: cap_from_stop)
  next
    case False
    with "1.prems" have "cap_from n c = cap_from n (2 * c)" "cap_from m c = cap_from m (2 * c)"
      by (auto intro: cap_from_step)
    with False "1.prems" "1.IH" show ?thesis by simp
  qed
qed

lemma cap_from_bound: "0 < c \<Longrightarrow> c < 2 ^ 32 \<Longrightarrow> n \<le> 2 ^ 31 \<Longrightarrow> cap_from n c < 2 ^ 32"
proof (cases "n \<le> c")
  case False
  assume "n \<le> 2 ^ 31"
  with False have "cap_from n c div 2 < 2 ^ 31" using cap_from_least [of c n] by simp
  then show ?thesis by simp
qed (simp add: cap_from_stop)

lemma grow_size_cap:
  "0 < unat sz \<Longrightarrow> unat need \<le> 2 ^ 31 \<Longrightarrow>
   grow_size need sz nr = Some (of_nat (cap_from (unat need) (unat sz)), nr \<or> sz < need)"
proof (induction "unat need - unat sz" arbitrary: sz nr rule: less_induct)
  case less
  show ?case
  proof (cases "sz < need")
    case False
    then show ?thesis
      by (simp add: grow_size.simps [of need sz] cap_from_stop word32_simps)
  next
    case True
    with less.prems have lt: "unat sz < unat need" "unat sz < 2 ^ 31"
      by (simp_all add: word32_simps)
    from lt(2) have d: "unat (push_bit 1 sz) = 2 * unat sz" by (rule unat_double)
    with lt less.prems have "unat need - unat (push_bit 1 sz) < unat need - unat sz" by simp
    with less.hyps [OF this] d less.prems
    have "grow_size need (push_bit 1 sz) True = Some (of_nat (cap_from (unat need) (2 * unat sz)), True)"
      by simp
    with True lt less.prems show ?thesis
      by (simp add: grow_size.simps [of need sz] cap_from_step)
  qed
qed

lemma pow2_or_zero_iff: "pow2_or_zero n \<longleftrightarrow> n = 0 \<or> (\<exists>j\<le>31. n = 2 ^ j)"
  unfolding pow2_or_zero_def by (auto simp: less_Suc_eq_le)

lemma unat_push_bit_1: "unat (push_bit 1 (w :: size_t)) = (2 * unat w) mod 2 ^ 32"
  by (simp add: push_bit_eq_mult unat_word_ariths mult.commute)

lemma pow2_or_zero_double:
  assumes "pow2_or_zero n" shows "pow2_or_zero ((2 * n) mod 2 ^ 32)"
proof -
  consider "n = 0" | j where "j < 31" "n = 2 ^ j" | "n = 2 ^ 31"
    using assms unfolding pow2_or_zero_iff by (metis le_neq_implies_less)
  then show ?thesis
  proof cases
    case (2 j)
    then have "(2::nat) ^ Suc j < 2 ^ 32" by (intro power_strict_increasing) simp_all
    with 2 show ?thesis unfolding pow2_or_zero_iff
      by (metis Suc_leI mod_less power_Suc)
  qed (simp_all add: pow2_or_zero_iff)
qed

lemma pow2_or_zero_le: "pow2_or_zero n \<Longrightarrow> n \<le> 2 ^ 31"
proof -
  have "j \<le> 31 \<Longrightarrow> (2::nat) ^ j \<le> 2 ^ 31" for j by (rule power_increasing) simp_all
  then show "pow2_or_zero n \<Longrightarrow> n \<le> 2 ^ 31" unfolding pow2_or_zero_iff by auto
qed

lemma pow2_or_zero_push: "pow2_or_zero (unat w) \<Longrightarrow> pow2_or_zero (unat (push_bit 1 (w :: size_t)))"
  unfolding unat_push_bit_1 by (rule pow2_or_zero_double)

lemma grow_size_partial:
  assumes "grow_size need sz nr = Some res"
  shows "need \<le> fst res \<and> sz \<le> fst res \<and> (snd res \<longleftrightarrow> nr \<or> sz < need)
         \<and> (pow2_or_zero (unat sz) \<longrightarrow> pow2_or_zero (unat (fst res)))"
proof (rule grow_size.raw_induct
    [where P = "\<lambda>need sz nr res. need \<le> fst res \<and> sz \<le> fst res \<and> (snd res \<longleftrightarrow> nr \<or> sz < need)
                  \<and> (pow2_or_zero (unat sz) \<longrightarrow> pow2_or_zero (unat (fst res)))",
     OF _ assms])
  fix f and need sz :: size_t and nr :: bool and res :: "size_t \<times> bool"
  assume IH: "\<And>need sz nr res. f need sz nr = Some res \<Longrightarrow>
      need \<le> fst res \<and> sz \<le> fst res \<and> (snd res \<longleftrightarrow> nr \<or> sz < need)
      \<and> (pow2_or_zero (unat sz) \<longrightarrow> pow2_or_zero (unat (fst res)))"
    and eq: "(if sz < need then f need (push_bit 1 sz) True else Some (sz, nr)) = Some res"
  show "need \<le> fst res \<and> sz \<le> fst res \<and> (snd res \<longleftrightarrow> nr \<or> sz < need)
      \<and> (pow2_or_zero (unat sz) \<longrightarrow> pow2_or_zero (unat (fst res)))"
  proof (cases "sz < need")
    case True
    with eq have "f need (push_bit 1 sz) True = Some res" by simp
    from IH [OF this] pow2_or_zero_push [of sz] True show ?thesis by auto
  next
    case False
    with eq show ?thesis by auto
  qed
qed

lemma grow_size_diverges:
  assumes "unat sz = 2 ^ j" "j \<le> 31" "2 ^ 31 < unat need"
  shows "grow_size need sz nr = None"
proof (rule ccontr)
  assume "grow_size need sz nr \<noteq> None"
  then obtain res where r: "grow_size need sz nr = Some res" by blast
  from assms(1,2) have "pow2_or_zero (unat sz)" unfolding pow2_or_zero_iff by blast
  with grow_size_partial [OF r] have "need \<le> fst res" "unat (fst res) \<le> 2 ^ 31"
    using pow2_or_zero_le by blast+
  with assms(3) show False by (simp add: word_le_nat_alt)
qed


lemma pow2_or_zero_4096 [simp]: "pow2_or_zero 4096"
  unfolding pow2_or_zero_iff by (rule disjI2, rule exI [of _ 12]) simp

lemma dl_prepare_inv:
  assumes "dl_inv s"
  shows "dl_inv (dl_prepare h s) \<and> 4096 \<le> unat (Result_Size (dl_prepare h s))
         \<and> pow2_or_zero (unat (Result_Size (dl_prepare h s)))
         \<and> Result_Written (dl_prepare h s) = Result_Written s
         \<and> dl_contents (dl_prepare h s) = dl_contents s
         \<and> unat (Result_Size (dl_prepare h s)) = max 4096 (unat (Result_Size s))"
  using assms
  by (auto simp: dl_prepare_def dl_inv_def dl_contents_def malloc_def split: option.splits)

lemma dl_prepare_unbounded:
  "dl_inv s \<Longrightarrow> \<exists>blk. ResultBuf (dl_prepare unbounded_heap s) = Some blk"
  by (auto simp: dl_prepare_def dl_inv_def malloc_def split: option.splits)

lemma write_chunk_Some:
  assumes "ResultBuf t = Some blk" "write_chunk Ptr B t = Inr (r, t')"
  shows "r = B \<and> unat (Result_Written t) + unat B \<le> length blk \<and> unat B \<le> length Ptr
         \<and> t' = t\<lparr>ResultBuf := Some (splice blk (unat (Result_Written t)) (take (unat B) Ptr)),
                  Result_Written := Result_Written t + B\<rparr>"
  using assms by (auto simp: write_chunk_def memcpy_block_def split: if_splits)

lemma write_chunk_ok:
  assumes "ResultBuf t = Some blk" "unat (Result_Written t) + unat B \<le> length blk" "unat B \<le> length Ptr"
  shows "write_chunk Ptr B t =
           Inr (B, t\<lparr>ResultBuf := Some (splice blk (unat (Result_Written t)) (take (unat B) Ptr)),
                     Result_Written := Result_Written t + B\<rparr>)"
  using assms by (simp add: write_chunk_def memcpy_block_def)

lemma write_chunk_inv:
  assumes "ResultBuf t = Some blk" "length blk = unat (Result_Size t)"
    "4096 \<le> unat (Result_Size t)" "pow2_or_zero (unat (Result_Size t))"
    "write_chunk Ptr B t = Inr (r, t')"
  shows "dl_inv t'"
proof -
  from write_chunk_Some [OF assms(1,5)]
  have fit: "unat (Result_Written t) + unat B \<le> unat (Result_Size t)"
    and t': "t' = t\<lparr>ResultBuf := Some (splice blk (unat (Result_Written t)) (take (unat B) Ptr)),
                     Result_Written := Result_Written t + B\<rparr>"
    and len: "unat B \<le> length Ptr"
    using assms(2) by auto
  have "unat (Result_Written t + B) = unat (Result_Written t) + unat B"
    using fit unat_size_bound [of "Result_Size t"] by (simp add: unat_size_add)
  with fit len assms(2-4) show ?thesis
    by (simp add: t' dl_inv_def length_splice word_le_nat_alt)
qed

lemma grow_size_stays: "\<not> sz < need \<Longrightarrow> grow_size need sz nr = Some (sz, nr)"
  by (simp add: grow_size.simps)

lemma handle_data_inv:
  assumes inv: "dl_inv s"
    and hd: "handle_data h Ptr Size NMemb s = Some (Inr (r, s'))"
    and acc: "r = Size * NMemb"
  shows "dl_inv s'"
proof -
  define s1 where "s1 = dl_prepare h s"
  define B where "B = Size * NMemb"
  note p = dl_prepare_inv [OF inv, of h, folded s1_def]
  from hd obtain sz nr where g: "grow_size (Result_Written s1 + B) (Result_Size s1) False = Some (sz, nr)"
    by (auto simp: handle_data_def Let_def s1_def B_def split: option.splits)
  note gp = grow_size_partial [OF g]
  have w_le: "Result_Written s1 \<le> Result_Size s1"
    using p by (auto simp: dl_inv_def split: option.splits)
  show ?thesis
  proof (cases nr)
    case True
    then have grows: "Result_Size s1 < Result_Written s1 + B" using gp by simp
    show ?thesis
    proof (cases "realloc h (ResultBuf s1) (unat sz)")
      case None
      with hd g True have "r = 0" by (simp add: handle_data_def Let_def s1_def B_def)
      with acc have "B = 0" by (simp add: B_def)
      with grows w_le show ?thesis by simp
    next
      case (Some nb)
      with hd g True have wc: "write_chunk Ptr B (s1\<lparr>Result_Size := sz, ResultBuf := Some nb\<rparr>) = Inr (r, s')"
        by (simp add: handle_data_def Let_def s1_def B_def)
      from Some have "length nb = unat sz"
        by (auto simp: realloc_def split: if_splits option.splits)
      moreover from gp p have "4096 \<le> unat sz" "pow2_or_zero (unat sz)"
        by (auto simp: word_le_nat_alt)
      ultimately show ?thesis using write_chunk_inv [OF _ _ _ _ wc] by simp
    qed
  next
    case False
    with gp have "\<not> Result_Size s1 < Result_Written s1 + B" by simp
    with g grow_size_stays have sz: "sz = Result_Size s1" by simp
    with hd g False have wc: "write_chunk Ptr B s1 = Inr (r, s')"
      by (simp add: handle_data_def Let_def s1_def B_def)
    show ?thesis
    proof (cases "ResultBuf s1")
      case None
      with wc have "s' = s1" by (simp add: write_chunk_def)
      with p show ?thesis by simp
    next
      case (Some blk)
      with p have "length blk = unat (Result_Size s1)" by (simp add: dl_inv_def)
      with Some p wc show ?thesis using write_chunk_inv by blast
    qed
  qed
qed

lemma handle_data_appends:
  assumes inv: "dl_inv s"
    and room: "unat (Result_Written s) + unat (Size * NMemb) \<le> 2 ^ 31"
    and src: "unat (Size * NMemb) \<le> length Ptr"
  shows "\<exists>s'. handle_data unbounded_heap Ptr Size NMemb s = Some (Inr (Size * NMemb, s'))
           \<and> dl_inv s'
           \<and> dl_contents s' = dl_contents s @ take (unat (Size * NMemb)) Ptr
           \<and> Result_Written s' = Result_Written s + Size * NMemb
           \<and> unat (Result_Size s') =
               cap_from (unat (Result_Written s) + unat (Size * NMemb)) (max 4096 (unat (Result_Size s)))"
proof -
  define s1 where "s1 = dl_prepare unbounded_heap s"
  define B where "B = Size * NMemb"
  define W where "W = Result_Written s"
  define c where "c = cap_from (unat W + unat B) (unat (Result_Size s1))"
  note p = dl_prepare_inv [OF inv, of unbounded_heap, folded s1_def]
  obtain blk where blk: "ResultBuf s1 = Some blk"
    using dl_prepare_unbounded [OF inv] s1_def by blast
  with p have lenblk: "length blk = unat (Result_Size s1)" and wle: "unat W \<le> length blk"
    and cont: "take (unat W) blk = dl_contents s"
    by (auto simp: dl_inv_def dl_contents_def W_def word_le_nat_alt)
  have w1: "Result_Written s1 = W" using p by (simp add: W_def)
  have srcB: "unat B \<le> length Ptr" using src by (simp add: B_def)
  have needv: "unat (W + B) = unat W + unat B"
    using room by (simp add: unat_size_add W_def B_def)
  have c_ge: "unat W + unat B \<le> c" and c_lt: "c < 2 ^ 32"
    using p room cap_from_ge [of "unat (Result_Size s1)"] cap_from_bound [of "unat (Result_Size s1)"]
      unat_size_bound [of "Result_Size s1"]
    by (auto simp: c_def W_def B_def)
  have g: "grow_size (W + B) (Result_Size s1) False = Some (of_nat c, Result_Size s1 < W + B)"
    using grow_size_cap [of "Result_Size s1" "W + B" False] p room needv
    by (simp add: c_def W_def B_def)
  have uc: "unat (of_nat c :: size_t) = c" using c_lt by (rule unat_size_of_nat)
  have cval: "c = cap_from (unat W + unat B) (max 4096 (unat (Result_Size s)))"
    using p by (simp add: c_def)
  show ?thesis
  proof (cases "Result_Size s1 < W + B")
    case True
    define nb where "nb = resize_block blk c"
    have wc: "write_chunk Ptr B (s1\<lparr>Result_Size := of_nat c, ResultBuf := Some nb\<rparr>) =
        Inr (B, s1\<lparr>Result_Size := of_nat c, ResultBuf := Some (splice nb (unat W) (take (unat B) Ptr)),
                   Result_Written := W + B\<rparr>)"
      using write_chunk_ok [of _ nb B Ptr] c_ge srcB w1
      by (simp add: nb_def)
    have hd: "handle_data unbounded_heap Ptr Size NMemb s =
        Some (Inr (B, s1\<lparr>Result_Size := of_nat c, ResultBuf := Some (splice nb (unat W) (take (unat B) Ptr)),
                         Result_Written := W + B\<rparr>))"
      using g True wc blk uc w1
      by (simp add: handle_data_def Let_def flip: s1_def B_def W_def add: realloc_def nb_def)
    have "take (unat W + unat B) (splice nb (unat W) (take (unat B) Ptr)) = take (unat W) blk @ take (unat B) Ptr"
      using take_splice_take [of "unat W" nb "unat B" Ptr] srcB wle c_ge
      by (simp add: nb_def)
    with hd cont needv uc cval show ?thesis
      using handle_data_inv [OF inv hd] by (simp add: dl_contents_def B_def W_def)
  next
    case False
    then have cs: "c = unat (Result_Size s1)"
      using cap_from_stop [of "unat W + unat B" "unat (Result_Size s1)"] needv
      by (simp add: c_def word_less_nat_alt)
    have wc: "write_chunk Ptr B s1 =
        Inr (B, s1\<lparr>ResultBuf := Some (splice blk (unat W) (take (unat B) Ptr)), Result_Written := W + B\<rparr>)"
      using write_chunk_ok [OF blk, of B Ptr] c_ge srcB w1 lenblk cs by simp
    have hd: "handle_data unbounded_heap Ptr Size NMemb s =
        Some (Inr (B, s1\<lparr>ResultBuf := Some (splice blk (unat W) (take (unat B) Ptr)), Result_Written := W + B\<rparr>))"
      using g False wc cs w1 by (simp add: handle_data_def Let_def flip: s1_def B_def W_def)
    have "take (unat W + unat B) (splice blk (unat W) (take (unat B) Ptr)) = take (unat W) blk @ take (unat B) Ptr"
      using take_splice_take [of "unat W" blk "unat B" Ptr] srcB wle
      by simp
    with hd cont needv cs cval show ?thesis
      using handle_data_inv [OF inv hd] by (simp add: dl_contents_def B_def W_def)
  qed
qed

lemma dl_prepare_size_pow:
  assumes "dl_inv s"
  shows "\<exists>j\<le>31. unat (Result_Size (dl_prepare h s)) = 2 ^ j"
  using dl_prepare_inv [OF assms, of h] unfolding pow2_or_zero_iff by auto

text \<open>
  C4. The callback returns exactly when the needed size fits the loop: from a state
  satisfying \<open>dl_inv\<close>, and with \<open>Result_Written + Bsz\<close> not wrapping, \<open>handle_data\<close>
  runs forever (the capacity doubles to \<open>2 ^ 31\<close>, then wraps to 0 and stays below the
  need) if and only if more than \<open>2 ^ 31\<close> bytes are needed.
\<close>
theorem handle_data_returns_iff:
  assumes inv: "dl_inv s"
    and nowrap: "unat (Result_Written s) + unat (Size * NMemb) < 2 ^ 32"
  shows "handle_data h Ptr Size NMemb s = None \<longleftrightarrow>
         2 ^ 31 < unat (Result_Written s) + unat (Size * NMemb)"
proof -
  define s1 where "s1 = dl_prepare h s"
  note p = dl_prepare_inv [OF inv, of h, folded s1_def]
  have need: "unat (Result_Written s1 + Size * NMemb) = unat (Result_Written s) + unat (Size * NMemb)"
    using p nowrap by (simp add: unat_size_add)
  show ?thesis
  proof
    assume none: "handle_data h Ptr Size NMemb s = None"
    show "2 ^ 31 < unat (Result_Written s) + unat (Size * NMemb)"
    proof (rule ccontr)
      assume "\<not> ?thesis"
      with need p have "grow_size (Result_Written s1 + Size * NMemb) (Result_Size s1) False \<noteq> None"
        using grow_size_cap [of "Result_Size s1" "Result_Written s1 + Size * NMemb" False] by simp
      with none show False
        by (auto simp: handle_data_def Let_def s1_def split: option.splits if_splits)
    qed
  next
    assume big: "2 ^ 31 < unat (Result_Written s) + unat (Size * NMemb)"
    obtain j where j: "j \<le> 31" "unat (Result_Size s1) = 2 ^ j"
      using dl_prepare_size_pow [OF inv, of h] s1_def by blast
    with big need have "grow_size (Result_Written s1 + Size * NMemb) (Result_Size s1) False = None"
      by (intro grow_size_diverges [of _ j]) simp_all
    then show "handle_data h Ptr Size NMemb s = None"
      by (simp add: handle_data_def Let_def s1_def)
  qed
qed

lemma write_chunk_no_fault:
  "(\<And>blk. ResultBuf t = Some blk \<Longrightarrow> unat (Result_Written t) + unat B \<le> length blk) \<Longrightarrow>
   unat B \<le> length Ptr \<Longrightarrow> write_chunk Ptr B t \<noteq> Inl f"
  by (cases "ResultBuf t") (auto simp: write_chunk_ok, simp add: write_chunk_def)

text \<open>
  C3. The callback never writes outside its buffer: from a state satisfying \<open>dl_inv\<close>,
  for a chunk of fewer than \<open>2 ^ 31\<close> bytes that really holds \<open>Size * NMemb\<close> bytes,
  \<open>handle_data\<close> never ends in a \<open>memcpy\<close> fault, whatever the allocator does.
\<close>
theorem handle_data_memory_safe:
  assumes inv: "dl_inv s"
    and small: "unat (Size * NMemb) < 2 ^ 31"
    and src: "unat (Size * NMemb) \<le> length Ptr"
  shows "handle_data h Ptr Size NMemb s \<noteq> Some (Inl f)"
proof
  assume hd: "handle_data h Ptr Size NMemb s = Some (Inl f)"
  define s1 where "s1 = dl_prepare h s"
  define B where "B = Size * NMemb"
  note p = dl_prepare_inv [OF inv, of h, folded s1_def]
  have wle: "unat (Result_Written s1) \<le> unat (Result_Size s1)"
    using p by (auto simp: dl_inv_def word_le_nat_alt split: option.splits)
  moreover have "unat (Result_Size s1) \<le> 2 ^ 31" using p pow2_or_zero_le by blast
  ultimately have need: "unat (Result_Written s1 + B) = unat (Result_Written s1) + unat B"
    using small by (simp add: unat_size_add B_def)
  from hd obtain sz nr where g: "grow_size (Result_Written s1 + B) (Result_Size s1) False = Some (sz, nr)"
    by (auto simp: handle_data_def Let_def s1_def B_def split: option.splits)
  note gp = grow_size_partial [OF g]
  then have fits: "unat (Result_Written s1) + unat B \<le> unat sz"
    using need by (simp add: word_le_nat_alt)
  have srcB: "unat B \<le> length Ptr" using src by (simp add: B_def)
  show False
  proof (cases nr)
    case True
    with hd g obtain nb where rb: "realloc h (ResultBuf s1) (unat sz) = Some nb"
      and wc: "write_chunk Ptr B (s1\<lparr>Result_Size := sz, ResultBuf := Some nb\<rparr>) = Inl f"
      by (auto simp: handle_data_def Let_def s1_def B_def split: option.splits)
    from rb have "length nb = unat sz" by (auto simp: realloc_def split: if_splits option.splits)
    with fits have "\<And>blk. ResultBuf (s1\<lparr>Result_Size := sz, ResultBuf := Some nb\<rparr>) = Some blk \<Longrightarrow>
        unat (Result_Written (s1\<lparr>Result_Size := sz, ResultBuf := Some nb\<rparr>)) + unat B \<le> length blk"
      by simp
    from write_chunk_no_fault [OF this srcB] wc show False by blast
  next
    case False
    with gp g grow_size_stays have "sz = Result_Size s1" by auto
    with hd g False have wc: "write_chunk Ptr B s1 = Inl f"
      by (simp add: handle_data_def Let_def s1_def B_def)
    have "\<And>blk. ResultBuf s1 = Some blk \<Longrightarrow> unat (Result_Written s1) + unat B \<le> length blk"
      using p fits \<open>sz = Result_Size s1\<close> by (simp add: dl_inv_def)
    with srcB wc show False using write_chunk_no_fault by blast
  qed
qed


section \<open>The transfer\<close>

lemma dl_reset_fields [simp]:
  "ResultBuf dl_reset = None" "Result_Size dl_reset = 0" "Result_Written dl_reset = 0"
  "dl_contents dl_reset = []"
  by (simp_all add: dl_reset_def dl_contents_def)

lemma dl_inv_reset [simp]: "dl_inv dl_reset"
  by (simp add: dl_inv_def)

lemma cap_from_ge_start: "c \<le> cap_from n c"
  by (induction n c rule: cap_from.induct) (subst cap_from.simps, auto)

lemma curl_write_all_appends:
  assumes "dl_inv s" "unat (Result_Written s) + length (concat cs) \<le> 2 ^ 31"
  shows "\<exists>s'. curl_write_all unbounded_heap cs s = Some (Inr (CURLE_OK, s')) \<and> dl_inv s'
           \<and> dl_contents s' = dl_contents s @ concat cs
           \<and> unat (Result_Written s') = unat (Result_Written s) + length (concat cs)
           \<and> unat (Result_Size s') = (if cs = [] then unat (Result_Size s)
                else cap_from (unat (Result_Written s) + length (concat cs)) (max 4096 (unat (Result_Size s))))"
  using assms
proof (induction cs arbitrary: s)
  case Nil
  then show ?case by simp
next
  case (Cons c cs)
  have lc: "unat (1 * of_nat (length c) :: size_t) = length c"
    using Cons.prems(2) by (simp add: unat_size_of_nat)
  with Cons.prems obtain s1 where
    hd: "handle_data unbounded_heap c 1 (of_nat (length c)) s = Some (Inr (1 * of_nat (length c), s1))"
    and i1: "dl_inv s1" and c1: "dl_contents s1 = dl_contents s @ c"
    and w1: "Result_Written s1 = Result_Written s + 1 * of_nat (length c)"
    and z1: "unat (Result_Size s1) = cap_from (unat (Result_Written s) + length c) (max 4096 (unat (Result_Size s)))"
    using handle_data_appends [of s 1 "of_nat (length c)" c] by auto
  have uw1: "unat (Result_Written s1) = unat (Result_Written s) + length c"
    using w1 lc Cons.prems(2) by (simp add: unat_size_add)
  with Cons.prems(2) have "unat (Result_Written s1) + length (concat cs) \<le> 2 ^ 31" by simp
  from Cons.IH [OF i1 this] obtain s' where
    rest: "curl_write_all unbounded_heap cs s1 = Some (Inr (CURLE_OK, s'))" "dl_inv s'"
      "dl_contents s' = dl_contents s1 @ concat cs"
      "unat (Result_Written s') = unat (Result_Written s1) + length (concat cs)"
      "unat (Result_Size s') = (if cs = [] then unat (Result_Size s1)
          else cap_from (unat (Result_Written s1) + length (concat cs)) (max 4096 (unat (Result_Size s1))))"
    by blast
  have "4096 \<le> unat (Result_Size s1)"
    using z1 cap_from_ge_start [of "max 4096 (unat (Result_Size s))"] by simp
  then have "unat (Result_Size s') = cap_from (unat (Result_Written s) + length (concat (c # cs))) (max 4096 (unat (Result_Size s)))"
    using rest(5) z1 uw1 cap_from_mono [of "max 4096 (unat (Result_Size s))"] by (simp add: add.assoc)
  with hd rest c1 uw1 show ?case by simp
qed


lemma dl_release_reset [simp]: "dl_release s = dl_reset"
  by (cases s) (simp add: dl_release_def dl_reset_def)

lemma cap_from_smallest:
  "0 < c \<Longrightarrow> (\<exists>k. cap_from n c = c * 2 ^ k) \<and> n \<le> cap_from n c \<and> (cap_from n c = c \<or> cap_from n c div 2 < n)"
  using cap_from_pow [of n c] cap_from_ge [of c n] cap_from_least [of c n] cap_from_stop [of n c]
  by (cases "n \<le> c") auto

lemma downloadToFile_eq:
  "downloadToFile env URL Path (s, fs) =
     (case curl_write_all (dl_heap env) (body_chunks (dl_web env URL)) s of
        None \<Rightarrow> None
      | Some (Inl f) \<Rightarrow> Some (Inl f)
      | Some (Inr (CRes, s')) \<Rightarrow>
          if CRes = CURLE_OK \<and> transfer_ok (dl_web env URL)
          then Some (Inr (0, dl_reset, if dl_can_open env Path then fs(Path \<mapsto> dl_contents s') else fs))
          else Some (Inr (-1, dl_reset, fs)))"
  by (simp add: downloadToFile_def setupContext_def curl_easy_perform_def Let_def
           split: option.splits sum.splits CURLcode.splits)

text \<open>
  C2. A transfer accumulates the body exactly: from the reset buffer, curl delivering a
  non-empty list of chunks of at most 2 GiB in all, with memory available, ends with
  \<open>CURLE_OK\<close>, the buffer holds the concatenation of the chunks, \<open>Result_Written\<close>
  is its length, and \<open>Result_Size\<close> is the smallest \<open>4096 * 2 ^ k\<close> that holds it.
\<close>
theorem transfer_accumulates:
  assumes "cs \<noteq> []" "length (concat cs) \<le> 2 ^ 31"
  shows "\<exists>s'. curl_write_all unbounded_heap cs dl_reset = Some (Inr (CURLE_OK, s'))
           \<and> dl_contents s' = concat cs \<and> unat (Result_Written s') = length (concat cs)
           \<and> (\<exists>k. unat (Result_Size s') = 4096 * 2 ^ k) \<and> length (concat cs) \<le> unat (Result_Size s')
           \<and> (unat (Result_Size s') = 4096 \<or> unat (Result_Size s') div 2 < length (concat cs))"
proof -
  from curl_write_all_appends [of dl_reset cs] assms obtain s' where
    "curl_write_all unbounded_heap cs dl_reset = Some (Inr (CURLE_OK, s'))"
    "dl_contents s' = concat cs" "unat (Result_Written s') = length (concat cs)"
    "unat (Result_Size s') = cap_from (length (concat cs)) 4096"
    by auto
  with cap_from_smallest [of 4096 "length (concat cs)"] show ?thesis by auto
qed

theorem transfer_accumulates_witness:
  "\<exists>s'. curl_write_all unbounded_heap [replicate 5000 1, replicate 5000 2] dl_reset = Some (Inr (CURLE_OK, s'))
      \<and> dl_contents s' = replicate 5000 1 @ replicate 5000 2 \<and> unat (Result_Size s') = 16384"
proof -
  have "[replicate 5000 (1::byte), replicate 5000 2] \<noteq> []"
    "length (concat [replicate 5000 (1::byte), replicate 5000 2]) \<le> 2 ^ 31" by simp_all
  from transfer_accumulates [OF this] obtain s' k where s':
    "curl_write_all unbounded_heap [replicate 5000 1, replicate 5000 2] dl_reset = Some (Inr (CURLE_OK, s'))"
    "dl_contents s' = replicate 5000 1 @ replicate 5000 2"
    "unat (Result_Size s') = 4096 * 2 ^ k" "10000 \<le> unat (Result_Size s')"
    "unat (Result_Size s') = 4096 \<or> unat (Result_Size s') div 2 < 10000"
    by auto
  have "k < 3"
  proof (rule ccontr)
    assume "\<not> k < 3"
    then have "(2::nat) ^ 3 \<le> 2 ^ k" by (intro power_increasing) simp_all
    with s'(3,5) show False by simp
  qed
  then consider "k = 0" | "k = 1" | "k = 2" by arith
  then have "k = 2" by cases (use s'(3,4) in simp_all)
  with s' show ?thesis by auto
qed

text \<open>
  C1. A successful download writes the file: when the transfer completes, memory is
  available and the destination opens, \<open>downloadToFile\<close> returns 0, the file at
  \<open>Path\<close> holds exactly the received bytes, and the buffer globals are reset.
\<close>
theorem download_to_file_success:
  assumes "transfer_ok (dl_web env URL)" "length (concat (body_chunks (dl_web env URL))) \<le> 2 ^ 31"
    "dl_heap env = unbounded_heap" "dl_can_open env Path"
  shows "downloadToFile env URL Path (dl_reset, fs) =
           Some (Inr (0, dl_reset, fs(Path \<mapsto> concat (body_chunks (dl_web env URL)))))"
proof -
  from curl_write_all_appends [of dl_reset "body_chunks (dl_web env URL)"] assms(2) obtain s' where
    "curl_write_all unbounded_heap (body_chunks (dl_web env URL)) dl_reset = Some (Inr (CURLE_OK, s'))"
    "dl_contents s' = concat (body_chunks (dl_web env URL))"
    by auto
  with assms show ?thesis by (simp add: downloadToFile_eq)
qed


text \<open>
  C6. A failed transfer changes no file: when curl reports a failure, \<open>downloadToFile\<close>
  returns -1, leaves the file system unchanged and resets the buffer.
\<close>
theorem download_to_file_transfer_error:
  assumes "\<not> transfer_ok (dl_web env URL)" "length (concat (body_chunks (dl_web env URL))) \<le> 2 ^ 31"
    "dl_heap env = unbounded_heap"
  shows "downloadToFile env URL Path (dl_reset, fs) = Some (Inr (-1, dl_reset, fs))"
proof -
  from curl_write_all_appends [of dl_reset "body_chunks (dl_web env URL)"] assms(2) obtain s' where
    "curl_write_all unbounded_heap (body_chunks (dl_web env URL)) dl_reset = Some (Inr (CURLE_OK, s'))"
    by auto
  with assms show ?thesis by (simp add: downloadToFile_eq)
qed

lemma handle_data_no_heap:
  assumes "0 < unat (Size * NMemb)" "unat (Size * NMemb) \<le> 2 ^ 31"
  shows "\<exists>s'. handle_data (\<lambda>_. False) Ptr Size NMemb dl_reset = Some (Inr (0, s'))"
proof -
  let ?s1 = "dl_prepare (\<lambda>_. False) dl_reset"
  have s1: "ResultBuf ?s1 = None" "Result_Size ?s1 = 0x1000" "Result_Written ?s1 = 0"
    by (simp_all add: dl_prepare_def malloc_def)
  have g: "grow_size (Size * NMemb) 0x1000 False =
      Some (of_nat (cap_from (unat (Size * NMemb)) 4096), 0x1000 < Size * NMemb)"
    using grow_size_cap [of "0x1000" "Size * NMemb" False] assms(2) by simp
  show ?thesis
    using g s1 by (simp add: handle_data_def Let_def realloc_def write_chunk_def split: if_splits)
qed

text \<open>
  C7. Running out of memory aborts the download cleanly: when every allocation fails, the
  callback rejects the first non-empty chunk, curl stops, and \<open>downloadToFile\<close> returns
  -1 with the file system unchanged and the buffer reset.
\<close>
theorem download_to_file_out_of_memory:
  assumes "body_chunks (dl_web env URL) = c # cs" "0 < length c" "length c \<le> 2 ^ 31"
    "dl_heap env = (\<lambda>_. False)"
  shows "downloadToFile env URL Path (dl_reset, fs) = Some (Inr (-1, dl_reset, fs))"
proof -
  have lc: "unat (1 * of_nat (length c) :: size_t) = length c"
    using assms(3) by (simp add: unat_size_of_nat)
  with assms(2,3) obtain s' where hd: "handle_data (\<lambda>_. False) c 1 (of_nat (length c)) dl_reset = Some (Inr (0, s'))"
    using handle_data_no_heap [of 1 "of_nat (length c)" c] by auto
  have "(0 :: size_t) \<noteq> of_nat (length c)"
    using lc assms(2) by (metis mult_1 unat_0 less_numeral_extra(3))
  with hd assms show ?thesis by (simp add: downloadToFile_eq)
qed

text \<open>
  C5. Every completed call of \<open>downloadToFile\<close> releases the buffer (all three globals
  back to their initial values), returns 0 or -1, changes no file when it returns -1, and
  never touches a path other than its destination.
\<close>
theorem download_to_file_frame:
  assumes "downloadToFile env URL Path (s, fs) = Some (Inr (ret, s', fs'))"
  shows "s' = dl_reset \<and> (ret = 0 \<or> ret = -1) \<and> (ret \<noteq> 0 \<longrightarrow> fs' = fs)
         \<and> (\<forall>p. p \<noteq> Path \<longrightarrow> fs' p = fs p)"
  using assms by (auto simp: downloadToFile_eq split: option.splits sum.splits if_splits)

text \<open>
  C9. An unwritable destination is not reported: when the transfer succeeds but
  \<open>fopen\<close> fails, \<open>downloadToFile\<close> still returns 0 and the data is discarded.
\<close>
theorem download_to_file_unwritable:
  assumes "transfer_ok (dl_web env URL)" "length (concat (body_chunks (dl_web env URL))) \<le> 2 ^ 31"
    "dl_heap env = unbounded_heap" "\<not> dl_can_open env Path"
  shows "downloadToFile env URL Path (dl_reset, fs) = Some (Inr (0, dl_reset, fs))"
proof -
  from curl_write_all_appends [of dl_reset "body_chunks (dl_web env URL)"] assms(2) obtain s' where
    "curl_write_all unbounded_heap (body_chunks (dl_web env URL)) dl_reset = Some (Inr (CURLE_OK, s'))"
    by auto
  with assms show ?thesis by (simp add: downloadToFile_eq)
qed

text \<open>
  C8. The buffer invariant holds across a whole transfer with any allocator: if curl
  completes the delivery with \<open>CURLE_OK\<close> from a state satisfying \<open>dl_inv\<close>, the
  final state satisfies it.
\<close>
theorem curl_write_all_inv:
  "dl_inv s \<Longrightarrow> curl_write_all h cs s = Some (Inr (CURLE_OK, s')) \<Longrightarrow> dl_inv s'"
proof (induction cs arbitrary: s)
  case Nil
  then show ?case by simp
next
  case (Cons c cs)
  from Cons.prems(2) obtain s1 where
    hd: "handle_data h c 1 (of_nat (length c)) s = Some (Inr (of_nat (length c), s1))"
    and rest: "curl_write_all h cs s1 = Some (Inr (CURLE_OK, s'))"
    by (auto split: option.splits sum.splits if_splits)
  from handle_data_inv [OF Cons.prems(1) hd] have "dl_inv s1" by simp
  from Cons.IH [OF this rest] show ?case .
qed

text \<open>
  C10. A failed \<open>realloc\<close> leaves the globals inconsistent: from any state satisfying
  \<open>dl_inv\<close>, for any allocator and any chunk that needs a larger block (and stays below
  \<open>2^31\<close> bytes in all), if \<open>realloc\<close> refuses the new capacity the callback returns 0
  with \<open>Result_Size\<close> already raised to that capacity while the block keeps its old length,
  so \<open>dl_inv\<close> no longer holds.
\<close>

theorem handle_data_realloc_failure:
  assumes inv: "dl_inv s" and buf: "ResultBuf s = Some blk"
    and room: "unat (Result_Written s) + length c \<le> 2 ^ 31"
    and grow: "unat (Result_Size s) < unat (Result_Written s) + length c"
    and fail: "\<not> h (cap_from (unat (Result_Written s) + length c) (unat (Result_Size s)))"
  shows "handle_data h c 1 (of_nat (length c)) s =
           Some (Inr (0, s\<lparr>Result_Size := of_nat (cap_from (unat (Result_Written s) + length c) (unat (Result_Size s)))\<rparr>))
         \<and> \<not> dl_inv (s\<lparr>Result_Size := of_nat (cap_from (unat (Result_Written s) + length c) (unat (Result_Size s)))\<rparr>)"
proof -
  define W where "W = Result_Written s"
  define B :: size_t where "B = of_nat (length c)"
  define cap where "cap = cap_from (unat W + length c) (unat (Result_Size s))"
  have sz: "length blk = unat (Result_Size s)" "4096 \<le> unat (Result_Size s)" "unat (Result_Size s) < 2 ^ 32"
    using inv buf unat_size_bound [of "Result_Size s"] by (auto simp: dl_inv_def)
  have s1: "dl_prepare h s = s"
    using buf sz(2) by (auto simp: dl_prepare_def)
  have uB: "unat B = length c" using room by (simp add: B_def unat_size_of_nat)
  have needv: "unat (W + B) = unat W + length c"
    using room uB by (simp add: unat_size_add W_def)
  have g: "grow_size (W + B) (Result_Size s) False = Some (of_nat cap, Result_Size s < W + B)"
    using grow_size_cap [of "Result_Size s" "W + B" False] sz(2) room needv by (simp add: cap_def W_def)
  have lt: "Result_Size s < W + B" using grow needv by (simp add: word_less_nat_alt W_def)
  have c_ge: "unat W + length c \<le> cap" and c_lt: "cap < 2 ^ 32"
    using sz room cap_from_ge [of "unat (Result_Size s)"] cap_from_bound [of "unat (Result_Size s)"]
    by (auto simp: cap_def W_def)
  have uc: "unat (of_nat cap :: size_t) = cap" using c_lt by (rule unat_size_of_nat)
  have r: "realloc h (Some blk) cap = None" using fail by (simp add: realloc_def cap_def W_def)
  have hd: "handle_data h c 1 (of_nat (length c)) s = Some (Inr (0, s\<lparr>Result_Size := of_nat cap\<rparr>))"
    using g lt r uc buf s1 by (simp add: handle_data_def Let_def flip: B_def W_def)
  have "\<not> dl_inv (s\<lparr>Result_Size := of_nat cap\<rparr>)"
    using buf sz(1) uc c_ge grow by (simp add: dl_inv_def W_def)
  with hd show ?thesis by (simp add: cap_def W_def)
qed


theorem download_to_file_success_witness:
  "downloadToFile (demo_env True unbounded_heap True) ''https://example.org/a'' ''sd:/a'' (dl_reset, Map.empty) =
     Some (Inr (0, dl_reset, [''sd:/a'' \<mapsto> [1, 2, 3]]))"
  using download_to_file_success [of "demo_env True unbounded_heap True" "''https://example.org/a''" "''sd:/a''" Map.empty]
  by (simp add: demo_env_def)

theorem download_to_file_transfer_error_witness:
  "downloadToFile (demo_env False unbounded_heap True) ''u'' ''p'' (dl_reset, Map.empty) =
     Some (Inr (-1, dl_reset, Map.empty))"
  using download_to_file_transfer_error [of "demo_env False unbounded_heap True" "''u''" "''p''" Map.empty]
  by (simp add: demo_env_def)

theorem download_to_file_out_of_memory_witness:
  "downloadToFile (demo_env True (\<lambda>_. False) True) ''u'' ''p'' (dl_reset, Map.empty) =
     Some (Inr (-1, dl_reset, Map.empty))"
  using download_to_file_out_of_memory [of "demo_env True (\<lambda>_. False) True" "''u''" "[1, 2, 3]" "[]" "''p''" Map.empty]
  by (simp add: demo_env_def)

theorem download_to_file_unwritable_witness:
  "downloadToFile (demo_env True unbounded_heap False) ''u'' ''p'' (dl_reset, Map.empty) =
     Some (Inr (0, dl_reset, Map.empty))"
  using download_to_file_unwritable [of "demo_env True unbounded_heap False" "''u''" "''p''" Map.empty]
  by (simp add: demo_env_def)

theorem download_to_file_frame_witness:
  "downloadToFile (\<lparr>dl_heap = unbounded_heap, dl_web = (\<lambda>_. \<lparr>body_chunks = [], transfer_ok = False\<rparr>),
                    dl_can_open = (\<lambda>_. True)\<rparr>) ''u'' ''p'' (dl_reset, [''q'' \<mapsto> [5]]) =
     Some (Inr (-1, dl_reset, [''q'' \<mapsto> [5]]))
   \<and> dl_reset = dl_reset \<and> ((-1::int) = 0 \<or> (-1::int) = -1)"
proof -
  have r: "downloadToFile (\<lparr>dl_heap = unbounded_heap, dl_web = (\<lambda>_. \<lparr>body_chunks = [], transfer_ok = False\<rparr>),
                    dl_can_open = (\<lambda>_. True)\<rparr>) ''u'' ''p'' (dl_reset, [''q'' \<mapsto> [5]]) =
     Some (Inr (-1, dl_reset, [''q'' \<mapsto> [5]]))"
    by (simp add: downloadToFile_eq)
  from r download_to_file_frame [OF r] show ?thesis by simp
qed

theorem handle_data_memory_safe_witness:
  "dl_inv dl_reset \<and> unat (1 * 3 :: size_t) < 2 ^ 31 \<and> unat (1 * 3 :: size_t) \<le> length [1, 2, 3 :: byte]
   \<and> handle_data (\<lambda>_. False) [1, 2, 3] 1 3 dl_reset \<noteq> Some (Inl Buffer_Overflow)"
  using handle_data_memory_safe [of dl_reset 1 3 "[1, 2, 3]" "\<lambda>_. False" Buffer_Overflow] by simp

theorem handle_data_returns_iff_witness:
  "dl_inv dl_reset \<and> unat (Result_Written dl_reset) + unat (1 * 2147483649 :: size_t) < 2 ^ 32
   \<and> handle_data unbounded_heap [] 1 2147483649 dl_reset = None"
  using handle_data_returns_iff [of dl_reset 1 2147483649 unbounded_heap "[]"] by simp

theorem curl_write_all_inv_witness:
  "dl_inv dl_reset \<and> curl_write_all unbounded_heap [] dl_reset = Some (Inr (CURLE_OK, dl_reset))
   \<and> dl_inv dl_reset"
  using curl_write_all_inv [of dl_reset unbounded_heap "[]" dl_reset] by simp

text \<open>
  C35. The 32-bit doubling loop computes the unbounded reference: for a non-zero start size and
  at most \<open>2^31\<close> bytes needed, \<open>grow_size\<close> ends with the capacity \<open>cap_from\<close> gives on
  natural numbers, and asks for a \<open>realloc\<close> exactly when it doubled at least once.
\<close>

theorem grow_size_equiv:
  assumes "0 < unat sz" "unat need \<le> 2 ^ 31"
  shows "map_option (\<lambda>(c, r). (unat c, r)) (grow_size need sz nr) = Some (cap_from (unat need) (unat sz), nr \<or> sz < need)"
proof -
  have "cap_from (unat need) (unat sz) < 2 ^ 32"
    using cap_from_bound [OF assms(1) _ assms(2)] unat_size_bound [of sz] by simp
  with grow_size_cap [OF assms] show ?thesis by (simp add: unat_size_of_nat)
qed

text \<open>
  C36. The callback refines appending: seen through \<open>dl_contents\<close> (the first
  \<open>Result_Written\<close> bytes of the block), a callback with room and memory appends the chunk
  and reports the whole chunk as taken.
\<close>

theorem handle_data_refines_append:
  assumes "dl_inv s" "unat (Result_Written s) + unat (Size * NMemb) \<le> 2 ^ 31" "unat (Size * NMemb) \<le> length Ptr"
  shows "map_option (map_sum id (\<lambda>(r, s'). (r, dl_contents s'))) (handle_data unbounded_heap Ptr Size NMemb s)
           = Some (Inr (Size * NMemb, dl_contents s @ take (unat (Size * NMemb)) Ptr))"
  using handle_data_appends [OF assms] by auto

theorem grow_size_equiv_witness:
  "map_option (\<lambda>(c, r). (unat c, r)) (grow_size 10000 4096 False) = Some (16384, True)"
proof -
  have "cap_from 10000 4096 = 16384" by (simp add: cap_from.simps)
  then show ?thesis using grow_size_equiv [of 4096 10000 False] by simp
qed

theorem handle_data_refines_append_witness:
  "map_option (map_sum id (\<lambda>(r, s'). (r, dl_contents s'))) (handle_data unbounded_heap [7, 8, 9] 1 3 dl_reset)
     = Some (Inr (3, [7, 8, 9]))"
  using handle_data_refines_append [of dl_reset 1 3 "[7, 8, 9]"] by (simp add: dl_contents_def)

lemma cap_from_exact: "0 < c \<Longrightarrow> cap_from (c * 2 ^ k) c = c * 2 ^ k"
proof (induction k arbitrary: c)
  case 0
  then show ?case by (simp add: cap_from.simps)
next
  case (Suc k)
  have "(1::nat) < 2 ^ Suc k" by (rule one_less_power) simp_all
  then have "c * 1 < c * 2 ^ Suc k" using Suc.prems by (rule mult_strict_left_mono)
  then have "c < c * 2 ^ Suc k" by simp
  then have "cap_from (c * 2 ^ Suc k) c = cap_from ((2 * c) * 2 ^ k) (2 * c)"
    using Suc.prems by (simp add: cap_from.simps [of _ c] mult.assoc mult.commute)
  also have "\<dots> = (2 * c) * 2 ^ k" using Suc.prems by (intro Suc.IH) simp
  finally show ?case by (simp add: mult.assoc mult.commute)
qed

lemma print_full_block:
  assumes "dl_inv s" "Result_Written s = Result_Size s" "Result_Written s \<noteq> 0" "0 \<notin> set (dl_contents s)"
  shows "print_result_buf s = Inl Unterminated_String"
  using assms by (auto simp: dl_inv_def dl_contents_def print_result_buf_def split: option.splits)

text \<open>
  C39. The diagnostic \<open>printf("==%s==", ResultBuf)\<close> reads past the buffer whenever the body
  exactly fills it and holds no zero byte: a transfer of \<open>4096 * 2^k\<close> non-zero bytes leaves
  \<open>Result_Written = Result_Size\<close>, so the block has no terminator for \<open>%s\<close> to stop at.
\<close>

theorem debug_print_overreads:
  assumes "length (concat cs) = 4096 * 2 ^ k" "k \<le> 19" "0 \<notin> set (concat cs)"
  shows "\<exists>s'. curl_write_all unbounded_heap cs dl_reset = Some (Inr (CURLE_OK, s'))
           \<and> dl_contents s' = concat cs \<and> print_result_buf s' = Inl Unterminated_String"
proof -
  have k: "(4096::nat) * 2 ^ k \<le> 2 ^ 31"
  proof -
    have "(2::nat) ^ k \<le> 2 ^ 19" using power_increasing [OF assms(2), of "2::nat"] by simp
    then show ?thesis by simp
  qed
  obtain s' where s': "curl_write_all unbounded_heap cs dl_reset = Some (Inr (CURLE_OK, s'))" "dl_inv s'"
    "dl_contents s' = concat cs" "unat (Result_Written s') = length (concat cs)"
    "unat (Result_Size s') = (if cs = [] then 0 else cap_from (length (concat cs)) 4096)"
    using curl_write_all_appends [of dl_reset cs] assms(1) k by (auto simp: dl_contents_def)
  have ne: "cs \<noteq> []" using assms(1) by auto
  have "unat (Result_Size s') = unat (Result_Written s')"
    using s'(4,5) ne assms(1) cap_from_exact [of 4096 k] by simp
  then have eq: "Result_Written s' = Result_Size s'" by (simp add: word_unat_eq_iff)
  have nz: "Result_Written s' \<noteq> 0" using s'(4) assms(1) by (auto simp: unat_eq_zero)
  show ?thesis using print_full_block [OF s'(2) eq nz] s'(1,3) assms(3) by simp
qed

theorem debug_print_overreads_witness:
  "\<exists>s'. curl_write_all unbounded_heap [replicate 4096 65] dl_reset = Some (Inr (CURLE_OK, s'))
     \<and> dl_contents s' = replicate 4096 65 \<and> print_result_buf s' = Inl Unterminated_String"
  using debug_print_overreads [of "[replicate 4096 65]" 0] by simp

theorem handle_data_realloc_failure_witness:
  "handle_data (\<lambda>n. n \<le> 4096) [7] 1 1 \<lparr>ResultBuf = Some (replicate 4096 0), Result_Size = 4096, Result_Written = 4096\<rparr>
     = Some (Inr (0, \<lparr>ResultBuf = Some (replicate 4096 0), Result_Size = 8192, Result_Written = 4096\<rparr>))
   \<and> \<not> dl_inv \<lparr>ResultBuf = Some (replicate 4096 0), Result_Size = 8192, Result_Written = 4096\<rparr>"
proof -
  have cap: "cap_from 4097 4096 = 8192" by (simp add: cap_from.simps)
  show ?thesis
    using handle_data_realloc_failure [of "\<lparr>ResultBuf = Some (replicate 4096 0), Result_Size = 4096, Result_Written = 4096\<rparr>"
        "replicate 4096 0" "[7]" "\<lambda>n. n \<le> 4096"]
    by (simp add: dl_inv_def cap)
qed

end
