(* ===== verification/Input.thy ===== *)
theory Input
  imports Prelude
begin

unbundle bit_operations_syntax

text \<open>
  The input vocabulary shared by the settings menu and the main loop: the libnds key
  masks that \<open>keysDown()\<close> and \<open>keysDownRepeat()\<close> return, the touch position
  \<open>touchRead()\<close> fills in, the button rectangles of \<open>Structs::ButtonPos\<close>, and the
  repository's hit test \<open>touching\<close> (declared \<open>extern\<close> in
  \<^verbatim>\<open>src/source/menu/settings.cpp\<close>, defined in a file outside \<^verbatim>\<open>src/\<close>).
\<close>

datatype key =
  KEY_A | KEY_B | KEY_SELECT | KEY_START | KEY_RIGHT | KEY_LEFT | KEY_UP | KEY_DOWN
  | KEY_R | KEY_L | KEY_X | KEY_Y | KEY_TOUCH

text \<open>The bit of each key in the libnds mask (\<open>KEY_A = BIT(0)\<close> ... \<open>KEY_TOUCH = BIT(12)\<close>).\<close>

definition key_index :: "key \<Rightarrow> nat" where
  "key_index k = (case k of
       KEY_A \<Rightarrow> 0 | KEY_B \<Rightarrow> 1 | KEY_SELECT \<Rightarrow> 2 | KEY_START \<Rightarrow> 3 | KEY_RIGHT \<Rightarrow> 4
     | KEY_LEFT \<Rightarrow> 5 | KEY_UP \<Rightarrow> 6 | KEY_DOWN \<Rightarrow> 7 | KEY_R \<Rightarrow> 8 | KEY_L \<Rightarrow> 9
     | KEY_X \<Rightarrow> 10 | KEY_Y \<Rightarrow> 11 | KEY_TOUCH \<Rightarrow> 12)"

definition key_bit :: "key \<Rightarrow> u32" where
  "key_bit k = 2 ^ key_index k"

text \<open>\<open>hDown & KEY_B\<close> as a condition.\<close>

definition held :: "u32 \<Rightarrow> key \<Rightarrow> bool" where
  "held keys k \<longleftrightarrow> keys AND key_bit k \<noteq> 0"

text \<open>The mask with exactly the given keys, as the hardware reports a set of pressed keys.\<close>

definition keys_of :: "key list \<Rightarrow> u32" where
  "keys_of ks = foldr (\<lambda>k m. key_bit k OR m) ks 0"

record touchPosition =
  px :: int
  py :: int

record ButtonPos =
  btn_x :: int
  btn_y :: int
  btn_w :: int
  btn_h :: int

definition button :: "int \<Rightarrow> int \<Rightarrow> int \<Rightarrow> int \<Rightarrow> ButtonPos" where
  "button x y w h = \<lparr>btn_x = x, btn_y = y, btn_w = w, btn_h = h\<rparr>"

text \<open>The hit test: the rectangle with both borders included.\<close>

definition touching :: "touchPosition \<Rightarrow> ButtonPos \<Rightarrow> bool" where
  "touching t b \<longleftrightarrow>
     btn_x b \<le> px t \<and> px t \<le> btn_x b + btn_w b \<and> btn_y b \<le> py t \<and> py t \<le> btn_y b + btn_h b"


lemma key_index_lt: "key_index k < 13"
  by (cases k) (simp_all add: key_index_def)

lemma key_index_inj: "key_index k = key_index k' \<longleftrightarrow> k = k'"
  by (cases k; cases k') (simp_all add: key_index_def)

lemma bit_keys_of: "n < 32 \<Longrightarrow> bit (keys_of ks) n \<longleftrightarrow> (\<exists>k\<in>set ks. key_index k = n)"
  by (induction ks) (auto simp: keys_of_def key_bit_def bit_or_iff bit_exp_iff)

lemma held_keys_of [simp]: "held (keys_of ks) k \<longleftrightarrow> k \<in> set ks"
proof -
  have "held (keys_of ks) k \<longleftrightarrow> bit (keys_of ks) (key_index k)"
    by (simp add: held_def key_bit_def and_exp_eq_0_iff_not_bit)
  also have "\<dots> \<longleftrightarrow> k \<in> set ks"
    using key_index_lt [of k] by (auto simp: bit_keys_of key_index_inj)
  finally show ?thesis .
qed

end
