(* ===== verification/Settings.thy ===== *)
theory Settings
  imports Input
begin

text \<open>
  The settings menu of \<^verbatim>\<open>src/source/menu/settings.cpp\<close>: five pages (0 main, 1 directories,
  2 auto-update toggles, 3 GUI toggles, 4 language list), each with a handler that moves the
  selection on the D-pad, hit-tests the touch screen and acts on A, and a draw function.
  The variables the handlers take by reference (\<open>page\<close>, \<open>selection\<close>, \<open>sPos\<close>,
  \<open>storeMode\<close>, \<open>dspSettings\<close>) and the globals they change (\<open>config\<close>,
  \<open>GFX::SelectedTheme\<close>, \<open>exiting\<close>) form one record. Overlays, prompts, font loading
  and downloads are recorded as effects in call order; what the user answers in an overlay is
  part of the frame's environment.
\<close>

section \<open>Static tables\<close>

definition mainButtons :: "ButtonPos list" where
  "mainButtons = [button 45 32 271 22, button 45 62 271 22, button 45 92 271 22,
                  button 45 122 271 22, button 45 152 271 22, button 45 182 271 22,
                  button 45 212 271 22]"

definition langButtons :: "ButtonPos list" where
  "langButtons = [button 45 32 271 22, button 45 62 271 22, button 45 92 271 22,
                  button 45 122 271 22, button 45 152 271 22, button 45 182 271 22,
                  button 45 220 16 16]"

definition toggleAbles :: "ButtonPos list" where
  "toggleAbles = [button 288 44 24 24, button 288 120 24 24]"

definition back_btn :: ButtonPos where
  "back_btn = button 45 0 24 24"

definition Themes :: ButtonPos where
  "Themes = button 40 220 280 24"

definition mainStrings :: "string list" where
  "mainStrings = [''LANGUAGE'', ''SELECT_UNISTORE'', ''AUTO_UPDATE_SETTINGS_BTN'', ''GUI_SETTINGS_BTN'',
                  ''DIRECTORY_SETTINGS_BTN'', ''CREDITS'', ''EXIT_APP'']"

definition dirStrings :: "string list" where
  "dirStrings = [''CHANGE_3DSX_PATH'', ''CHANGE_NDS_PATH'', ''CHANGE_ARCHIVE_PATH'',
                 ''CHANGE_SHORTCUT_PATH'', ''CHANGE_FIRM_PATH'']"

text \<open>The language names, as the UTF-8 bytes of the source's string literals.\<close>

definition languages :: "string list" where
  "languages = [''Bruh'', ''Deutsch'', ''English'', ''Espa'' @ [CHR 0xC3, CHR 0xB1] @ ''ol'',
     ''Fran'' @ [CHR 0xC3, CHR 0xA7] @ ''ais'', ''Italiano'', ''Magyar'', ''Polski'',
     ''Portugu'' @ [CHR 0xC3, CHR 0xAA] @ ''s (Brasil)'',
     [CHR 0xD0, CHR 0xA0, CHR 0xD1, CHR 0x83, CHR 0xD1, CHR 0x81, CHR 0xD1, CHR 0x81, CHR 0xD0, CHR 0xBA,
      CHR 0xD0, CHR 0xB8, CHR 0xD0, CHR 0xB9],
     [CHR 0xD0, CHR 0xA3, CHR 0xD0, CHR 0xBA, CHR 0xD1, CHR 0x80, CHR 0xD0, CHR 0xB0, CHR 0xC3, CHR 0xAF,
      CHR 0xD0, CHR 0xBD, CHR 0xD1, CHR 0x81, CHR 0xD1, CHR 0x8C, CHR 0xD0, CHR 0xBA, CHR 0xD0, CHR 0xB0],
     [CHR 0xE6, CHR 0x97, CHR 0xA5, CHR 0xE6, CHR 0x9C, CHR 0xAC, CHR 0xE8, CHR 0xAA, CHR 0x9E]]"

definition langsTemp :: "string list" where
  "langsTemp = [''br'', ''de'', ''en'', ''es'', ''fr'', ''it'', ''hu'', ''pl'', ''pt-BR'', ''ru'', ''uk'', ''jp'']"

definition ThemeNames :: "string list" where
  "ThemeNames = [''THEME_DEFAULT'']"

text \<open>
  \<open>langsTemp[i]\<close> is a plain C array: an index outside \<open>0 .. 11\<close> is undefined
  behaviour, here \<open>None\<close>.
\<close>

definition lang_at :: "int \<Rightarrow> string option" where
  "lang_at i = (if 0 \<le> i \<and> i < int (length langsTemp) then Some (langsTemp ! nat i) else None)"

section \<open>State and environment\<close>

text \<open>The fields of \<open>ConfigData\<close> the settings pages read and write.\<close>

record config =
  cfg_autoupdate :: bool
  cfg_updatecheck :: bool
  cfg_usebg :: bool
  cfg_customfont :: bool
  cfg_theme :: int
  cfg_language :: string
  cfg_3dsxPath :: string
  cfg_ndsPath :: string
  cfg_archPath :: string
  cfg_shortcut :: string
  cfg_firmPath :: string

text \<open>Calls the handlers make to the rest of the application, in order.\<close>

datatype effect =
    PromptSideEffects
  | SelectStoreOverlay
  | ShowCreditsOverlay
  | SelectDirOverlay string
  | LoadFont
  | UnloadFont
  | LangLoad string
  | DownloadFont bool

record settings =
  page :: int
  selection :: int
  sPos :: int
  storeMode :: int
  dspSettings :: bool
  config :: config
  SelectedTheme :: int
  exiting :: bool
  font_on_sd :: bool
  effects :: "effect list"

text \<open>
  One frame's input (\<open>hDown\<close>, \<open>hRepeat\<close>, \<open>touch\<close>), the globals the handlers only
  read (\<open>QueueRuns\<close>, the build constant \<open>_THEME_AMOUNT\<close>), and the answers of the
  environment: the prompt's answer, the directory the user picks in \<open>SelectDir\<close> from a
  given start (\<open>''''\<close> for cancel), and whether a font download succeeds.
\<close>

record senv =
  hDown :: u32
  hRepeat :: u32
  touch :: touchPosition
  QueueRuns :: bool
  prompt_answer :: bool
  dir_choice :: "string \<Rightarrow> string"
  font_download_ok :: bool
  THEME_AMOUNT :: int

definition emit :: "effect \<Rightarrow> settings \<Rightarrow> settings" where
  "emit e s = s\<lparr>effects := effects s @ [e]\<rparr>"

definition set_config :: "(config \<Rightarrow> config) \<Rightarrow> settings \<Rightarrow> settings" where
  "set_config f s = s\<lparr>config := f (config s)\<rparr>"


section \<open>Main page: \<open>SettingsHandleMain\<close>\<close>

text \<open>Opening the store selector, behind a confirmation while a queue runs.\<close>

definition select_store :: "senv \<Rightarrow> settings \<Rightarrow> settings" where
  "select_store e s =
     (if QueueRuns e then
        (let s' = emit PromptSideEffects s in if prompt_answer e then emit SelectStoreOverlay s' else s')
      else emit SelectStoreOverlay s)"

definition exit_app :: "senv \<Rightarrow> settings \<Rightarrow> settings" where
  "exit_app e s =
     (if QueueRuns e then (emit PromptSideEffects s)\<lparr>exiting := prompt_answer e\<rparr>
      else s\<lparr>exiting := True\<rparr>)"

text \<open>
  Item \<open>i\<close> of the main page: the body of \<open>case i\<close> of the \<open>KEY_A\<close> switch, which the
  touch branch for \<open>mainButtons[i]\<close> repeats statement for statement.
\<close>

definition main_item :: "senv \<Rightarrow> int \<Rightarrow> settings \<Rightarrow> settings" where
  "main_item e i s =
     (if i = 0 then s\<lparr>selection := 0, page := 4\<rparr>
      else if i = 1 then select_store e s
      else if i = 2 then s\<lparr>selection := 0, page := 2\<rparr>
      else if i = 3 then s\<lparr>selection := 0, page := 3\<rparr>
      else if i = 4 then s\<lparr>selection := 0, page := 1\<rparr>
      else if i = 5 then emit ShowCreditsOverlay s
      else if i = 6 then exit_app e s
      else s)"

definition main_touch :: "senv \<Rightarrow> settings \<Rightarrow> settings" where
  "main_touch e s =
     (let t = touch e in
      if touching t (mainButtons ! 0) then main_item e 0 s
      else if touching t (mainButtons ! 1) then main_item e 1 s
      else if touching t (mainButtons ! 2) then main_item e 2 s
      else if touching t (mainButtons ! 3) then main_item e 3 s
      else if touching t (mainButtons ! 4) then main_item e 4 s
      else if touching t (mainButtons ! 5) then main_item e 5 s
      else if touching t (mainButtons ! 6) then main_item e 6 s
      else s)"

text \<open>The key block of the handler: B, then the D-pad moves (lines 194--217).\<close>

definition main_keys :: "senv \<Rightarrow> settings \<Rightarrow> settings" where
  "main_keys e s0 =
     (let n = int (length mainStrings);
          s1 = (if held (hDown e) KEY_B then s0\<lparr>selection := 0, storeMode := 0\<rparr> else s0);
          s2 = (if held (hRepeat e) KEY_DOWN
                then s1\<lparr>selection := (if selection s1 < 6 then selection s1 + 1 else 0)\<rparr> else s1);
          s3 = (if held (hRepeat e) KEY_UP
                then s2\<lparr>selection := (if 0 < selection s2 then selection s2 - 1 else n - 1)\<rparr> else s2);
          s4 = (if held (hRepeat e) KEY_RIGHT
                then s3\<lparr>selection := (if selection s3 + 8 < n then selection s3 + 8 else n - 1)\<rparr> else s3)
      in if held (hRepeat e) KEY_LEFT
         then s4\<lparr>selection := (if 0 < selection s4 - 8 then selection s4 - 8 else 0)\<rparr> else s4)"

definition SettingsHandleMain :: "senv \<Rightarrow> settings \<Rightarrow> settings" where
  "SettingsHandleMain e s0 =
     (let s5 = main_keys e s0;
          s6 = (if held (hDown e) KEY_TOUCH then main_touch e s5 else s5)
      in if held (hDown e) KEY_A then main_item e (selection s6) s6 else s6)"

section \<open>Directory page: \<open>SettingsHandleDir\<close>\<close>

text \<open>The five configured directories and their \<open>ConfigData\<close> getters and setters.\<close>

datatype dir_kind = Dir3dsx | DirNds | DirArch | DirShortcut | DirFirm

definition dir_get :: "dir_kind \<Rightarrow> config \<Rightarrow> string" where
  "dir_get k c = (case k of
       Dir3dsx \<Rightarrow> cfg_3dsxPath c | DirNds \<Rightarrow> cfg_ndsPath c | DirArch \<Rightarrow> cfg_archPath c
     | DirShortcut \<Rightarrow> cfg_shortcut c | DirFirm \<Rightarrow> cfg_firmPath c)"

definition dir_set :: "dir_kind \<Rightarrow> string \<Rightarrow> config \<Rightarrow> config" where
  "dir_set k v c = (case k of
       Dir3dsx \<Rightarrow> c\<lparr>cfg_3dsxPath := v\<rparr> | DirNds \<Rightarrow> c\<lparr>cfg_ndsPath := v\<rparr>
     | DirArch \<Rightarrow> c\<lparr>cfg_archPath := v\<rparr> | DirShortcut \<Rightarrow> c\<lparr>cfg_shortcut := v\<rparr>
     | DirFirm \<Rightarrow> c\<lparr>cfg_firmPath := v\<rparr>)"

text \<open>\<open>path = Overlays::SelectDir(config->X(), ...); if (path != "") config->X(path);\<close>\<close>

definition change_dir :: "senv \<Rightarrow> dir_kind \<Rightarrow> settings \<Rightarrow> settings" where
  "change_dir e k s =
     (let old = dir_get k (config s); path = dir_choice e old;
          s' = emit (SelectDirOverlay old) s
      in if path \<noteq> [] then set_config (dir_set k path) s' else s')"

definition dir_item :: "senv \<Rightarrow> int \<Rightarrow> settings \<Rightarrow> settings" where
  "dir_item e i s =
     (if i = 0 then change_dir e Dir3dsx s
      else if i = 1 then change_dir e DirNds s
      else if i = 2 then change_dir e DirArch s
      else if i = 3 then change_dir e DirShortcut s
      else if i = 4 then change_dir e DirFirm s
      else s)"

definition dir_touch :: "senv \<Rightarrow> settings \<Rightarrow> settings" where
  "dir_touch e s =
     (let t = touch e in
      if touching t back_btn then s\<lparr>page := 0, selection := 4\<rparr>
      else if touching t (mainButtons ! 0) then dir_item e 0 s
      else if touching t (mainButtons ! 1) then dir_item e 1 s
      else if touching t (mainButtons ! 2) then dir_item e 2 s
      else if touching t (mainButtons ! 3) then dir_item e 3 s
      else if touching t (mainButtons ! 4) then dir_item e 4 s
      else s)"

definition dir_keys :: "senv \<Rightarrow> settings \<Rightarrow> settings" where
  "dir_keys e s0 =
     (let n = int (length dirStrings);
          s1 = (if held (hDown e) KEY_B then s0\<lparr>page := 0, selection := 4\<rparr> else s0);
          s2 = (if held (hRepeat e) KEY_DOWN
                then s1\<lparr>selection := (if selection s1 < 4 then selection s1 + 1 else 0)\<rparr> else s1);
          s3 = (if held (hRepeat e) KEY_UP
                then s2\<lparr>selection := (if 0 < selection s2 then selection s2 - 1 else n - 1)\<rparr> else s2);
          s4 = (if held (hRepeat e) KEY_RIGHT
                then s3\<lparr>selection := (if selection s3 + 8 < n - 1 then selection s3 + 8 else n - 1)\<rparr> else s3)
      in if held (hRepeat e) KEY_LEFT
         then s4\<lparr>selection := (if 0 < selection s4 - 8 then selection s4 - 8 else 0)\<rparr> else s4)"

definition SettingsHandleDir :: "senv \<Rightarrow> settings \<Rightarrow> settings" where
  "SettingsHandleDir e s0 =
     (let s5 = dir_keys e s0;
          s6 = (if held (hDown e) KEY_TOUCH then dir_touch e s5 else s5)
      in if held (hDown e) KEY_A then dir_item e (selection s6) s6 else s6)"

section \<open>Auto-update page: \<open>AutoUpdateLogic\<close>\<close>

definition auto_item :: "int \<Rightarrow> settings \<Rightarrow> settings" where
  "auto_item i s =
     (if i = 0 then set_config (\<lambda>c. c\<lparr>cfg_autoupdate := \<not> cfg_autoupdate c\<rparr>) s
      else if i = 1 then set_config (\<lambda>c. c\<lparr>cfg_updatecheck := \<not> cfg_updatecheck c\<rparr>) s
      else s)"

definition auto_touch :: "senv \<Rightarrow> settings \<Rightarrow> settings" where
  "auto_touch e s =
     (let t = touch e in
      if touching t back_btn then s\<lparr>page := 0, selection := 2\<rparr>
      else if touching t (toggleAbles ! 0) then auto_item 0 s
      else if touching t (toggleAbles ! 1) then auto_item 1 s
      else s)"

definition auto_keys :: "senv \<Rightarrow> settings \<Rightarrow> settings" where
  "auto_keys e s0 =
     (let s1 = (if held (hDown e) KEY_B then s0\<lparr>page := 0, selection := 2\<rparr> else s0);
          s2 = (if held (hRepeat e) KEY_DOWN \<and> selection s1 < 1
                then s1\<lparr>selection := selection s1 + 1\<rparr> else s1)
      in if held (hRepeat e) KEY_UP \<and> 0 < selection s2
         then s2\<lparr>selection := selection s2 - 1\<rparr> else s2)"

definition AutoUpdateLogic :: "senv \<Rightarrow> settings \<Rightarrow> settings" where
  "AutoUpdateLogic e s0 =
     (let s3 = auto_keys e s0;
          s4 = (if held (hDown e) KEY_TOUCH then auto_touch e s3 else s3)
      in if held (hDown e) KEY_A then auto_item (selection s4) s4 else s4)"

section \<open>GUI page: \<open>GUISettingsLogic\<close>\<close>

text \<open>\<open>config->customfont(!config->customfont()); (config->customfont() ? Init::LoadFont() : Init::UnloadFont());\<close>\<close>

definition toggle_customfont :: "settings \<Rightarrow> settings" where
  "toggle_customfont s =
     (let s' = set_config (\<lambda>c. c\<lparr>cfg_customfont := \<not> cfg_customfont c\<rparr>) s
      in emit (if cfg_customfont (config s') then LoadFont else UnloadFont) s')"

text \<open>Cycling \<open>GFX::SelectedTheme\<close> through \<open>0 .. _THEME_AMOUNT - 1\<close> and saving it.\<close>

definition next_theme :: "senv \<Rightarrow> settings \<Rightarrow> settings" where
  "next_theme e s =
     (let t = (if SelectedTheme s < THEME_AMOUNT e - 1 then SelectedTheme s + 1 else 0)
      in set_config (\<lambda>c. c\<lparr>cfg_theme := t\<rparr>) (s\<lparr>SelectedTheme := t\<rparr>))"

definition gui_item :: "senv \<Rightarrow> int \<Rightarrow> settings \<Rightarrow> settings" where
  "gui_item e i s =
     (if i = 0 then set_config (\<lambda>c. c\<lparr>cfg_usebg := \<not> cfg_usebg c\<rparr>) s
      else if i = 1 then toggle_customfont s
      else if i = 2 then next_theme e s
      else s)"

definition gui_touch :: "senv \<Rightarrow> settings \<Rightarrow> settings" where
  "gui_touch e s =
     (let t = touch e in
      if touching t back_btn then s\<lparr>page := 0, selection := 3\<rparr>
      else if touching t (toggleAbles ! 0) then gui_item e 0 s
      else if touching t (toggleAbles ! 1) then gui_item e 1 s
      else if touching t Themes then gui_item e 2 s
      else s)"

definition gui_keys :: "senv \<Rightarrow> settings \<Rightarrow> settings" where
  "gui_keys e s0 =
     (let s1 = (if held (hDown e) KEY_B then s0\<lparr>page := 0, selection := 3\<rparr> else s0);
          s2 = (if held (hRepeat e) KEY_DOWN \<and> selection s1 < 2
                then s1\<lparr>selection := selection s1 + 1\<rparr> else s1)
      in if held (hRepeat e) KEY_UP \<and> 0 < selection s2
         then s2\<lparr>selection := selection s2 - 1\<rparr> else s2)"

definition GUISettingsLogic :: "senv \<Rightarrow> settings \<Rightarrow> settings" where
  "GUISettingsLogic e s0 =
     (let s3 = gui_keys e s0;
          s4 = (if held (hDown e) KEY_TOUCH then gui_touch e s3 else s3)
      in if held (hDown e) KEY_A then gui_item e (selection s4) s4 else s4)"

section \<open>Language page: \<open>LanguageLogic\<close>\<close>

text \<open>\<open>ScriptUtils::downloadFile\<close> of the compatible font to the SD card.\<close>

definition download_font :: "senv \<Rightarrow> bool \<Rightarrow> settings \<Rightarrow> settings" where
  "download_font e progress s =
     (emit (DownloadFont progress) s)\<lparr>font_on_sd := font_on_sd s \<or> font_download_ok e\<rparr>"

text \<open>
  Choosing language \<open>l\<close>: Ukrainian needs the compatible font (downloaded if
  \<open>access()\<close> does not find it) and turns the custom font on; then the language is saved,
  loaded, and the menu returns to the main page.
\<close>

definition select_language :: "senv \<Rightarrow> string \<Rightarrow> settings \<Rightarrow> settings" where
  "select_language e l s0 =
     (let s1 = (if l = ''uk'' then
                  (let s' = (if \<not> font_on_sd s0 then download_font e False s0 else s0)
                   in emit LoadFont (set_config (\<lambda>c. c\<lparr>cfg_customfont := True\<rparr>) s'))
                else s0);
          s2 = set_config (\<lambda>c. c\<lparr>cfg_language := l\<rparr>) s1;
          s3 = emit (LangLoad (cfg_language (config s2))) s2
      in s3\<lparr>selection := 0, sPos := 0, page := 0\<rparr>)"

text \<open>\<open>for (int i = 0; i < 6; i++) if (touching(touch, mainButtons[i])) ...\<close>\<close>

fun lang_touch_loop :: "senv \<Rightarrow> nat list \<Rightarrow> settings \<Rightarrow> settings option" where
  "lang_touch_loop e [] s = Some s"
| "lang_touch_loop e (i # is) s =
     (if touching (touch e) (mainButtons ! i) \<and> int i + sPos s < int (length languages) then
        (case lang_at (int i + sPos s) of
           None \<Rightarrow> None
         | Some l \<Rightarrow> lang_touch_loop e is (select_language e l s))
      else lang_touch_loop e is s)"

text \<open>Keeping the selection inside the six visible rows.\<close>

definition scroll_to_selection :: "settings \<Rightarrow> settings" where
  "scroll_to_selection s =
     (if selection s < sPos s then s\<lparr>sPos := selection s\<rparr>
      else if sPos s + 6 - 1 < selection s then s\<lparr>sPos := selection s - 6 + 1\<rparr>
      else s)"

text \<open>The D-pad moves and the B / back-arrow exit (lines 521--545).\<close>

definition lang_keys :: "senv \<Rightarrow> settings \<Rightarrow> settings" where
  "lang_keys e s0 =
     (let n = int (length languages);
          s1 = (if held (hRepeat e) KEY_DOWN
                then s0\<lparr>selection := (if selection s0 < n - 1 then selection s0 + 1 else 0)\<rparr> else s0);
          s2 = (if held (hRepeat e) KEY_UP
                then s1\<lparr>selection := (if 0 < selection s1 then selection s1 - 1 else n - 1)\<rparr> else s1);
          s3 = (if held (hRepeat e) KEY_RIGHT
                then s2\<lparr>selection := (if selection s2 + 6 < n - 1 then selection s2 + 6 else n - 1)\<rparr> else s2);
          s4 = (if held (hRepeat e) KEY_LEFT
                then s3\<lparr>selection := (if 0 < selection s3 - 6 then selection s3 - 6 else 0)\<rparr> else s3)
      in if held (hDown e) KEY_B \<or> (held (hDown e) KEY_TOUCH \<and> touching (touch e) back_btn)
         then s4\<lparr>selection := 0, sPos := 0, page := 0\<rparr> else s4)"

text \<open>The add-font button (lines 593--600).\<close>

definition add_font :: "senv \<Rightarrow> settings \<Rightarrow> settings" where
  "add_font e s = emit LoadFont (set_config (\<lambda>c. c\<lparr>cfg_customfont := True\<rparr>) (download_font e True s))"

definition LanguageLogic :: "senv \<Rightarrow> settings \<Rightarrow> settings option" where
  "LanguageLogic e s0 =
     (let s5 = lang_keys e s0
      in case (if held (hDown e) KEY_A
               then map_option (\<lambda>l. select_language e l s5) (lang_at (selection s5))
               else Some s5) of
           None \<Rightarrow> None
         | Some s6 \<Rightarrow>
             (case (if held (hDown e) KEY_TOUCH then lang_touch_loop e [0..<6] s6 else Some s6) of
                None \<Rightarrow> None
              | Some s7 \<Rightarrow>
                  Some (scroll_to_selection
                    (if held (hDown e) KEY_TOUCH \<and> touching (touch e) (langButtons ! 6)
                     then add_font e s7 else s7))))"

section \<open>Dispatch: \<open>StoreUtils::SettingsHandle\<close>\<close>

definition SettingsHandle :: "senv \<Rightarrow> settings \<Rightarrow> settings option" where
  "SettingsHandle e s =
     (if page s = 0 then Some (SettingsHandleMain e s)
      else if page s = 1 then Some (SettingsHandleDir e s)
      else if page s = 2 then Some (AutoUpdateLogic e s)
      else if page s = 3 then Some (GUISettingsLogic e s)
      else if page s = 4 then LanguageLogic e s
      else Some s)"

section \<open>Drawing: \<open>StoreUtils::DrawSettings\<close>\<close>

text \<open>
  What a draw function shows: its rows, each a label (the language key passed to
  \<open>Lang::get\<close>, or the language name) and whether it is filled with \<open>MarkSelected\<close>.
  An out-of-range read of a table is \<open>None\<close>.
\<close>

type_synonym rows = "(string \<times> bool) list"

definition DrawSettingsMain :: "int \<Rightarrow> rows" where
  "DrawSettingsMain sel = map (\<lambda>i. (mainStrings ! i, int i = sel)) [0..<7]"

definition DrawSettingsDir :: "int \<Rightarrow> rows" where
  "DrawSettingsDir sel = map (\<lambda>i. (dirStrings ! i, int i = sel)) [0..<5]"

definition DrawAutoUpdate :: "int \<Rightarrow> rows" where
  "DrawAutoUpdate sel = [(''AUTO_UPDATE_UNISTORE'', sel = 0), (''AUTO_UPDATE_UU'', sel = 1)]"

definition DrawGUISettings :: "int \<Rightarrow> int \<Rightarrow> rows option" where
  "DrawGUISettings sel theme =
     (if 0 \<le> theme \<and> theme < int (length ThemeNames)
      then Some [(''UNISTORE_BG'', sel = 0), (''CUSTOM_FONT'', sel = 1),
                 (''ACTIVE_THEME: '' @ ThemeNames ! nat theme, sel = 2)]
      else None)"

definition DrawLanguageSettings :: "int \<Rightarrow> int \<Rightarrow> rows option" where
  "DrawLanguageSettings sel pos =
     (if 0 \<le> pos \<and> pos + int (min 6 (length languages)) \<le> int (length languages)
      then Some (map (\<lambda>i. (languages ! (nat pos + i), pos + int i = sel)) [0..<min 6 (length languages)])
      else None)"

definition DrawSettings :: "settings \<Rightarrow> rows option" where
  "DrawSettings s =
     (if page s = 0 then Some (DrawSettingsMain (selection s))
      else if page s = 1 then Some (DrawSettingsDir (selection s))
      else if page s = 2 then Some (DrawAutoUpdate (selection s))
      else if page s = 3 then DrawGUISettings (selection s) (SelectedTheme s)
      else if page s = 4 then DrawLanguageSettings (selection s) (sPos s)
      else Some [])"

end
