(* ===== verification/Settings_Menu.thy ===== *)
theory Settings_Menu
  imports Settings
begin

text \<open>
  Properties of the settings menu of \<^verbatim>\<open>src/source/menu/settings.cpp\<close> modelled in
  \<open>Settings\<close>: the invariant on page, selection, language window and theme index, its
  preservation by every handler and by every run of frames, the rows \<open>DrawSettings\<close> shows,
  the behaviour of single frames (D-pad, A, B, back navigation, language and theme choice,
  a tap on a language row, directories, exit, keys and touches combined in one frame), the reachability of
  every page within two frames, and the exact condition under which drawing the GUI page reads
  \<open>ThemeNames\<close> out of range.
\<close>

section \<open>The menu invariant and reachable states\<close>

text \<open>
  The number of items of each page, and the invariant the handlers keep: the page is one of
  the five, the selection indexes an item of it, the language list's window of six rows
  contains the selection, and the theme index is below \<open>_THEME_AMOUNT\<close>.
  \<open>lang_mid\<close> is what holds inside \<open>LanguageLogic\<close> before the window is moved.
\<close>

definition page_items :: "int \<Rightarrow> int" where
  "page_items p = (if p = 0 then int (length mainStrings) else if p = 1 then int (length dirStrings)
                   else if p = 2 then 2 else if p = 3 then 3 else if p = 4 then int (length languages) else 0)"

definition settings_inv :: "int \<Rightarrow> settings \<Rightarrow> bool" where
  "settings_inv ta s \<longleftrightarrow>
     0 \<le> page s \<and> page s \<le> 4 \<and> 0 \<le> selection s \<and> selection s < page_items (page s)
     \<and> (if page s = 4 then 0 \<le> sPos s \<and> sPos s \<le> selection s \<and> selection s \<le> sPos s + 5
                          \<and> sPos s + 6 \<le> int (length languages)
        else sPos s = 0)
     \<and> 0 \<le> SelectedTheme s \<and> SelectedTheme s < ta"

definition lang_mid :: "int \<Rightarrow> settings \<Rightarrow> bool" where
  "lang_mid ta s \<longleftrightarrow>
     0 \<le> selection s \<and> selection s < int (length languages) \<and> 0 \<le> sPos s
     \<and> sPos s + 6 \<le> int (length languages)
     \<and> (page s = 4 \<or> (page s = 0 \<and> selection s = 0 \<and> sPos s = 0))
     \<and> 0 \<le> SelectedTheme s \<and> SelectedTheme s < ta"

text \<open>
  The states the menu reaches from \<open>s0\<close> when \<open>StoreUtils::SettingsHandle\<close> runs once
  per frame, on any input, in a build with \<open>ta\<close> themes.
\<close>

inductive settings_reach :: "int \<Rightarrow> settings \<Rightarrow> settings \<Rightarrow> bool" for ta s0 where
  reach_start: "settings_reach ta s0 s0"
| reach_frame: "settings_reach ta s0 s \<Longrightarrow> THEME_AMOUNT e = ta \<Longrightarrow> SettingsHandle e s = Some s'
                \<Longrightarrow> settings_reach ta s0 s'"

text \<open>
  A run of frames: the main loop calls \<open>StoreUtils::SettingsHandle\<close> once per frame with
  that frame's input; a frame whose handler reads a table out of range stops the run.
\<close>

fun run_frames :: "senv list \<Rightarrow> settings \<Rightarrow> settings option" where
  "run_frames [] s = Some s"
| "run_frames (e # es) s = Option.bind (SettingsHandle e s) (run_frames es)"

subsection \<open>Touch targets\<close>

text \<open>
  Two rectangles that no point touches together, a list of pairwise such rectangles, and the
  rectangles each page's handler hit-tests, in the order it tests them.
\<close>

definition rect_disjoint :: "ButtonPos \<Rightarrow> ButtonPos \<Rightarrow> bool" where
  "rect_disjoint a b \<longleftrightarrow>
     btn_x a + btn_w a < btn_x b \<or> btn_x b + btn_w b < btn_x a \<or>
     btn_y a + btn_h a < btn_y b \<or> btn_y b + btn_h b < btn_y a"

fun disjoint_rects :: "ButtonPos list \<Rightarrow> bool" where
  "disjoint_rects [] = True"
| "disjoint_rects (b # bs) = (list_all (rect_disjoint b) bs \<and> disjoint_rects bs)"

definition page_targets :: "int \<Rightarrow> ButtonPos list" where
  "page_targets p =
     (if p = 0 then mainButtons
      else if p = 1 then back_btn # take 5 mainButtons
      else if p = 2 then [back_btn, toggleAbles ! 0, toggleAbles ! 1]
      else if p = 3 then [back_btn, toggleAbles ! 0, toggleAbles ! 1, Themes]
      else if p = 4 then back_btn # take 6 mainButtons @ [langButtons ! 6]
      else [])"

subsection \<open>Concrete states and inputs\<close>

text \<open>
  A menu state with a default configuration, a frame in which the keys \<open>d\<close> are newly pressed
  and the keys \<open>r\<close> repeat, and a frame that taps the screen at \<open>(x, y)\<close>.
\<close>

definition menu0 :: settings where
  "menu0 = \<lparr>page = 0, selection = 0, sPos = 0, storeMode = 0, dspSettings = True,
     config = \<lparr>cfg_autoupdate = False, cfg_updatecheck = False, cfg_usebg = False, cfg_customfont = False,
               cfg_theme = 0, cfg_language = ''en'', cfg_3dsxPath = ''/3ds'', cfg_ndsPath = ''/'',
               cfg_archPath = ''/'', cfg_shortcut = ''/'', cfg_firmPath = ''/''\<rparr>,
     SelectedTheme = 0, exiting = False, font_on_sd = False, effects = []\<rparr>"

definition press :: "int \<Rightarrow> key list \<Rightarrow> key list \<Rightarrow> senv" where
  "press ta d r = \<lparr>hDown = keys_of d, hRepeat = keys_of r, touch = \<lparr>px = 0, py = 0\<rparr>,
     QueueRuns = False, prompt_answer = False, dir_choice = (\<lambda>_. []), font_download_ok = True,
     THEME_AMOUNT = ta\<rparr>"

definition tap :: "int \<Rightarrow> int \<Rightarrow> int \<Rightarrow> senv" where
  "tap ta x y = (press ta [KEY_TOUCH] [])\<lparr>touch := \<lparr>px = x, py = y\<rparr>\<rparr>"


section \<open>Properties\<close>

lemma table_lengths [simp]:
  "length mainStrings = 7" "length dirStrings = 5" "length languages = 12" "length langsTemp = 12"
  "length mainButtons = 7" "length langButtons = 7" "length toggleAbles = 2" "length ThemeNames = 1"
  by (simp_all add: mainStrings_def dirStrings_def languages_def langsTemp_def mainButtons_def
                    langButtons_def toggleAbles_def ThemeNames_def)

lemma emit_fields [simp]:
  "page (emit x s) = page s" "selection (emit x s) = selection s" "sPos (emit x s) = sPos s"
  "SelectedTheme (emit x s) = SelectedTheme s" "config (emit x s) = config s"
  "font_on_sd (emit x s) = font_on_sd s" "effects (emit x s) = effects s @ [x]"
  by (simp_all add: emit_def)

lemma set_config_fields [simp]:
  "page (set_config f s) = page s" "selection (set_config f s) = selection s"
  "sPos (set_config f s) = sPos s" "SelectedTheme (set_config f s) = SelectedTheme s"
  "config (set_config f s) = f (config s)" "font_on_sd (set_config f s) = font_on_sd s"
  "effects (set_config f s) = effects s"
  by (simp_all add: set_config_def)

lemmas inv_unfold = settings_inv_def page_items_def lang_mid_def

lemma settings_inv_frame [simp]:
  "settings_inv ta (emit x s) = settings_inv ta s"
  "settings_inv ta (set_config f s) = settings_inv ta s"
  "settings_inv ta (s\<lparr>exiting := b\<rparr>) = settings_inv ta s"
  "settings_inv ta (s\<lparr>font_on_sd := b\<rparr>) = settings_inv ta s"
  by (simp_all add: settings_inv_def)

lemma lang_mid_frame [simp]:
  "lang_mid ta (emit x s) = lang_mid ta s"
  "lang_mid ta (set_config f s) = lang_mid ta s"
  "lang_mid ta (s\<lparr>font_on_sd := b\<rparr>) = lang_mid ta s"
  by (simp_all add: lang_mid_def)

subsection \<open>Main page\<close>

lemma main_item_inv:
  "settings_inv ta s \<Longrightarrow> sPos s = 0 \<Longrightarrow> settings_inv ta (main_item e i s) \<and> sPos (main_item e i s) = 0"
  by (auto simp: main_item_def select_store_def exit_app_def Let_def inv_unfold split: if_splits)

lemma main_touch_inv:
  "settings_inv ta s \<Longrightarrow> sPos s = 0 \<Longrightarrow> settings_inv ta (main_touch e s) \<and> sPos (main_touch e s) = 0"
  unfolding main_touch_def Let_def by (simp add: main_item_inv)

lemma main_keys_inv:
  "settings_inv ta s \<Longrightarrow> page s = 0 \<Longrightarrow> settings_inv ta (main_keys e s) \<and> sPos (main_keys e s) = 0"
  by (simp add: main_keys_def Let_def inv_unfold)

lemma SettingsHandleMain_inv:
  "settings_inv ta s \<Longrightarrow> page s = 0 \<Longrightarrow> settings_inv ta (SettingsHandleMain e s)"
  using main_keys_inv [of ta s e] main_touch_inv [of ta "main_keys e s" e]
    main_item_inv [of ta _ e]
  by (simp add: SettingsHandleMain_def Let_def)

subsection \<open>Directory page\<close>
lemma dir_keys_range:
  "0 \<le> selection s \<Longrightarrow> selection s \<le> 4 \<Longrightarrow>
   0 \<le> selection (dir_keys e s) \<and> selection (dir_keys e s) \<le> 4 \<and>
   (page (dir_keys e s) = page s \<or> page (dir_keys e s) = 0) \<and>
   sPos (dir_keys e s) = sPos s \<and> SelectedTheme (dir_keys e s) = SelectedTheme s"
  by (simp add: dir_keys_def Let_def)

lemma dir_keys_inv:
  "settings_inv ta s \<Longrightarrow> page s = 1 \<Longrightarrow> settings_inv ta (dir_keys e s) \<and> sPos (dir_keys e s) = 0"
  using dir_keys_range [of s e] by (auto simp: inv_unfold)

lemma dir_item_inv: "settings_inv ta (dir_item e i s) = settings_inv ta s"
  by (simp add: dir_item_def change_dir_def Let_def)

lemma dir_touch_inv:
  "settings_inv ta s \<Longrightarrow> sPos s = 0 \<Longrightarrow> settings_inv ta (dir_touch e s)"
  by (simp add: dir_touch_def Let_def dir_item_inv) (simp add: inv_unfold)


lemma SettingsHandleDir_inv:
  "settings_inv ta s \<Longrightarrow> page s = 1 \<Longrightarrow> settings_inv ta (SettingsHandleDir e s)"
  using dir_keys_inv [of ta s e] dir_touch_inv [of ta "dir_keys e s" e]
  by (simp add: SettingsHandleDir_def Let_def dir_item_inv)

subsection \<open>Auto-update page\<close>

lemma auto_item_inv: "settings_inv ta (auto_item i s) = settings_inv ta s"
  by (simp add: auto_item_def)

lemma auto_touch_inv:
  "settings_inv ta s \<Longrightarrow> sPos s = 0 \<Longrightarrow> settings_inv ta (auto_touch e s)"
  by (simp add: auto_touch_def Let_def auto_item_inv) (simp add: inv_unfold)

lemma auto_keys_inv:
  "settings_inv ta s \<Longrightarrow> page s = 2 \<Longrightarrow> settings_inv ta (auto_keys e s) \<and> sPos (auto_keys e s) = 0"
  by (simp add: auto_keys_def Let_def inv_unfold)

lemma AutoUpdateLogic_inv:
  "settings_inv ta s \<Longrightarrow> page s = 2 \<Longrightarrow> settings_inv ta (AutoUpdateLogic e s)"
  using auto_keys_inv [of ta s e] auto_touch_inv [of ta "auto_keys e s" e]
  by (simp add: AutoUpdateLogic_def Let_def auto_item_inv)

subsection \<open>GUI page\<close>

lemma gui_item_inv:
  "settings_inv ta s \<Longrightarrow> THEME_AMOUNT e = ta \<Longrightarrow> 1 \<le> ta \<Longrightarrow> settings_inv ta (gui_item e i s)"
  by (auto simp: gui_item_def toggle_customfont_def next_theme_def Let_def inv_unfold)

lemma gui_touch_inv:
  "settings_inv ta s \<Longrightarrow> sPos s = 0 \<Longrightarrow> THEME_AMOUNT e = ta \<Longrightarrow> 1 \<le> ta \<Longrightarrow> settings_inv ta (gui_touch e s)"
  by (simp add: gui_touch_def Let_def gui_item_inv) (simp add: inv_unfold)

lemma gui_keys_inv:
  "settings_inv ta s \<Longrightarrow> page s = 3 \<Longrightarrow> settings_inv ta (gui_keys e s) \<and> sPos (gui_keys e s) = 0"
  by (simp add: gui_keys_def Let_def inv_unfold)

lemma GUISettingsLogic_inv:
  "settings_inv ta s \<Longrightarrow> page s = 3 \<Longrightarrow> THEME_AMOUNT e = ta \<Longrightarrow> 1 \<le> ta \<Longrightarrow>
   settings_inv ta (GUISettingsLogic e s)"
  using gui_keys_inv [of ta s e] gui_touch_inv [of ta "gui_keys e s" e]
    gui_item_inv [of ta _ e]
  by (simp add: GUISettingsLogic_def Let_def)

subsection \<open>Language page and dispatch\<close>

lemma lang_keys_range:
  "0 \<le> selection s \<Longrightarrow> selection s \<le> 11 \<Longrightarrow>
   0 \<le> selection (lang_keys e s) \<and> selection (lang_keys e s) \<le> 11 \<and>
   ((page (lang_keys e s) = page s \<and> sPos (lang_keys e s) = sPos s)
    \<or> (page (lang_keys e s) = 0 \<and> selection (lang_keys e s) = 0 \<and> sPos (lang_keys e s) = 0)) \<and>
   SelectedTheme (lang_keys e s) = SelectedTheme s"
  by (simp add: lang_keys_def Let_def)

lemma lang_keys_mid:
  "settings_inv ta s \<Longrightarrow> page s = 4 \<Longrightarrow> lang_mid ta (lang_keys e s)"
  using lang_keys_range [of s e] by (auto simp: inv_unfold)

lemma select_language_mid:
  "lang_mid ta s \<Longrightarrow> lang_mid ta (select_language e l s)"
  by (simp add: select_language_def download_font_def Let_def) (simp add: lang_mid_def)

lemma lang_at_Some: "0 \<le> i \<Longrightarrow> i < 12 \<Longrightarrow> lang_at i = Some (langsTemp ! nat i)"
  by (simp add: lang_at_def)

lemma lang_touch_loop_mid:
  "lang_mid ta s \<Longrightarrow> \<exists>s'. lang_touch_loop e is s = Some s' \<and> lang_mid ta s'"
proof (induction "is" arbitrary: s)
  case Nil
  then show ?case by simp
next
  case (Cons i "is")
  show ?case
  proof (cases "touching (touch e) (mainButtons ! i) \<and> int i + sPos s < int (length languages)")
    case True
    with Cons.prems have "lang_at (int i + sPos s) = Some (langsTemp ! nat (int i + sPos s))"
      by (intro lang_at_Some) (auto simp: lang_mid_def)
    with True Cons.IH [OF select_language_mid [OF Cons.prems]] show ?thesis by simp
  next
    case False
    with Cons.IH [OF Cons.prems] show ?thesis by auto
  qed
qed

lemma add_font_mid: "lang_mid ta (add_font e s) = lang_mid ta s"
  by (simp add: add_font_def download_font_def)

lemma scroll_to_selection_inv:
  "lang_mid ta s \<Longrightarrow> settings_inv ta (scroll_to_selection s)"
  by (auto simp: scroll_to_selection_def inv_unfold)

lemma LanguageLogic_inv:
  assumes "settings_inv ta s" "page s = 4"
  shows "\<exists>s'. LanguageLogic e s = Some s' \<and> settings_inv ta s'"
proof -
  define s5 where "s5 = lang_keys e s"
  have m5: "lang_mid ta s5" using lang_keys_mid [OF assms] by (simp add: s5_def)
  then have at: "lang_at (selection s5) = Some (langsTemp ! nat (selection s5))"
    by (intro lang_at_Some) (auto simp: lang_mid_def)
  obtain s6 where s6: "(if held (hDown e) KEY_A
               then map_option (\<lambda>l. select_language e l s5) (lang_at (selection s5))
               else Some s5) = Some s6" "lang_mid ta s6"
    using m5 select_language_mid [OF m5] at by (cases "held (hDown e) KEY_A") auto
  obtain s7 where s7: "(if held (hDown e) KEY_TOUCH then lang_touch_loop e [0..<6] s6 else Some s6) = Some s7"
    "lang_mid ta s7"
    using lang_touch_loop_mid [OF s6(2), of e "[0..<6]"] s6(2) by (cases "held (hDown e) KEY_TOUCH") auto
  have m8: "lang_mid ta (if held (hDown e) KEY_TOUCH \<and> touching (touch e) (langButtons ! 6) then add_font e s7 else s7)"
    using s7(2) by (simp add: add_font_mid)
  have "LanguageLogic e s = Some (scroll_to_selection
          (if held (hDown e) KEY_TOUCH \<and> touching (touch e) (langButtons ! 6) then add_font e s7 else s7))"
    unfolding LanguageLogic_def Let_def s5_def [symmetric] s6(1) option.case s7(1) option.case by (rule refl)
  with scroll_to_selection_inv [OF m8] show ?thesis by blast
qed

lemma SettingsHandle_step_inv:
  assumes "settings_inv ta s" "THEME_AMOUNT e = ta" "1 \<le> ta"
  shows "\<exists>s'. SettingsHandle e s = Some s' \<and> settings_inv ta s'"
proof -
  have "page s \<in> {0, 1, 2, 3, 4}" using assms(1) by (auto simp: settings_inv_def)
  then show ?thesis
    using assms SettingsHandleMain_inv SettingsHandleDir_inv AutoUpdateLogic_inv GUISettingsLogic_inv
      LanguageLogic_inv [of ta s e]
    by (auto simp: SettingsHandle_def)
qed

subsection \<open>Reachable states, drawing and single frames\<close>

lemma settings_reach_inv:
  assumes "settings_reach ta s0 s" "settings_inv ta s0" "1 \<le> ta"
  shows "settings_inv ta s"
  using assms
proof induction
  case reach_start
  then show ?case by simp
next
  case (reach_frame s e s')
  then show ?case using SettingsHandle_step_inv [of ta s e] by auto
qed

lemma run_frames_reach:
  "settings_reach ta s0 s \<Longrightarrow> run_frames es s = Some s' \<Longrightarrow> \<forall>e\<in>set es. THEME_AMOUNT e = ta
   \<Longrightarrow> settings_reach ta s0 s'"
proof (induction es arbitrary: s)
  case (Cons e es)
  then obtain s1 where "SettingsHandle e s = Some s1" "run_frames es s1 = Some s'"
    by (cases "SettingsHandle e s") auto
  with Cons show ?case by (auto intro: settings_reach.reach_frame)
qed simp

lemma filter_upt_eq_nat:
  "k < n \<Longrightarrow> filter (\<lambda>i. i = k) [0..<n] = [k]"
  by (induction n) auto

lemma highlighted_row:
  assumes "0 \<le> k" "k < int n"
  shows "filter snd (map (\<lambda>i. (f i, int i = k)) [0..<n]) = [map (\<lambda>i. (f i, int i = k)) [0..<n] ! nat k]"
proof -
  have eq: "(\<lambda>i. int i = k) = (\<lambda>i. i = nat k)" using assms(1) by auto
  have "filter snd (map (\<lambda>i. (f i, int i = k)) [0..<n]) = map (\<lambda>i. (f i, int i = k)) (filter (\<lambda>i. int i = k) [0..<n])"
    by (simp add: filter_map comp_def)
  also have "\<dots> = [(f (nat k), True)]"
    unfolding eq using assms filter_upt_eq_nat [of "nat k" n] by simp
  moreover have "nat k < n" using assms by (simp add: nat_less_iff)
  ultimately show ?thesis using assms(1) by simp
qed

lemma draw_p0: assumes "settings_inv ta s" "page s = 0"
  shows "\<exists>rows. DrawSettings s = Some rows \<and> filter snd rows = [rows ! nat (selection s - sPos s)]"
proof -
  have r: "0 \<le> selection s" "selection s < int 7" "sPos s = 0" using assms by (simp_all add: inv_unfold)
  have "filter snd (DrawSettingsMain (selection s)) = [DrawSettingsMain (selection s) ! nat (selection s)]"
    unfolding DrawSettingsMain_def by (rule highlighted_row [OF r(1,2)])
  then show ?thesis using assms(2) r(3) by (simp add: DrawSettings_def)
qed
lemma draw_p1: assumes "settings_inv ta s" "page s = 1"
  shows "\<exists>rows. DrawSettings s = Some rows \<and> filter snd rows = [rows ! nat (selection s - sPos s)]"
proof -
  have r: "0 \<le> selection s" "selection s < int 5" "sPos s = 0" using assms by (simp_all add: inv_unfold)
  have "filter snd (DrawSettingsDir (selection s)) = [DrawSettingsDir (selection s) ! nat (selection s)]"
    unfolding DrawSettingsDir_def by (rule highlighted_row [OF r(1,2)])
  then show ?thesis using assms(2) r(3) by (simp add: DrawSettings_def)
qed
lemma draw_p2: assumes "settings_inv ta s" "page s = 2"
  shows "\<exists>rows. DrawSettings s = Some rows \<and> filter snd rows = [rows ! nat (selection s - sPos s)]"
proof -
  have r: "selection s = 0 \<or> selection s = 1" "sPos s = 0" using assms by (auto simp: inv_unfold)
  then show ?thesis using assms(2) by (auto simp: DrawSettings_def DrawAutoUpdate_def)
qed
lemma draw_p3: assumes "settings_inv ta s" "page s = 3" "ta \<le> int (length ThemeNames)"
  shows "\<exists>rows. DrawSettings s = Some rows \<and> filter snd rows = [rows ! nat (selection s - sPos s)]"
proof -
  have r: "selection s = 0 \<or> selection s = 1 \<or> selection s = 2" "sPos s = 0" "SelectedTheme s = 0"
    using assms by (auto simp: inv_unfold)
  then show ?thesis using assms(2) by (auto simp: DrawSettings_def DrawGUISettings_def)
qed
lemma draw_p4: assumes "settings_inv ta s" "page s = 4"
  shows "\<exists>rows. DrawSettings s = Some rows \<and> filter snd rows = [rows ! nat (selection s - sPos s)]"
proof -
  have r: "0 \<le> selection s - sPos s" "selection s - sPos s < int 6" "0 \<le> sPos s" "sPos s + 6 \<le> 12"
    using assms by (simp_all add: inv_unfold)
  have eq: "(\<lambda>i. (languages ! (nat (sPos s) + i), sPos s + int i = selection s))
          = (\<lambda>i. (languages ! (nat (sPos s) + i), int i = selection s - sPos s))" by auto
  have "filter snd (map (\<lambda>i. (languages ! (nat (sPos s) + i), sPos s + int i = selection s)) [0..<6])
        = [map (\<lambda>i. (languages ! (nat (sPos s) + i), sPos s + int i = selection s)) [0..<6] ! nat (selection s - sPos s)]"
    unfolding eq by (rule highlighted_row [OF r(1,2)])
  then show ?thesis using assms(2) r(3,4) by (simp add: DrawSettings_def DrawLanguageSettings_def)
qed

lemma held_zero [simp]: "\<not> held 0 k"
  by (simp add: held_def)

lemma inv_pages: "settings_inv ta s \<Longrightarrow> page s \<in> {0, 1, 2, 3, 4}"
  by (auto simp: settings_inv_def)

lemma wrap_succ:
  "0 \<le> x \<Longrightarrow> x < n \<Longrightarrow> (x + 1) mod n = (if x < n - 1 then x + 1 else 0)"
  for x n :: int
proof (cases "x < n - 1")
  case False
  moreover assume "0 \<le> x" "x < n"
  ultimately have "x + 1 = n" by linarith
  with False show ?thesis by simp
qed (simp add: mod_pos_pos_trivial)

lemma wrap_pred:
  "0 \<le> x \<Longrightarrow> x < n \<Longrightarrow> (x - 1) mod n = (if 0 < x then x - 1 else n - 1)"
  for x n :: int
proof (cases "0 < x")
  case False
  moreover assume "0 \<le> x" "x < n"
  ultimately have "x = 0" "0 < n" by simp_all
  moreover have "(-1) mod n = n - 1"
    using \<open>0 < n\<close> by (cases "n = 1") (simp_all add: zmod_zminus1_eq_if mod_pos_pos_trivial)
  ultimately show ?thesis by simp
qed (simp add: mod_pos_pos_trivial)

lemma down_p0: "settings_inv ta s \<Longrightarrow> page s = 0 \<Longrightarrow> hDown e = 0 \<Longrightarrow> hRepeat e = keys_of [KEY_DOWN] \<Longrightarrow>
  map_option (\<lambda>s'. (page s', selection s')) (SettingsHandle e s) = Some (0, (selection s + 1) mod 7)"
  by (auto simp: SettingsHandle_def SettingsHandleMain_def main_keys_def Let_def inv_unfold wrap_succ)

lemma down_p1: "settings_inv ta s \<Longrightarrow> page s = 1 \<Longrightarrow> hDown e = 0 \<Longrightarrow> hRepeat e = keys_of [KEY_DOWN] \<Longrightarrow>
  map_option (\<lambda>s'. (page s', selection s')) (SettingsHandle e s) = Some (1, (selection s + 1) mod 5)"
  by (auto simp: SettingsHandle_def SettingsHandleDir_def dir_keys_def Let_def inv_unfold wrap_succ)

lemma down_p2: "settings_inv ta s \<Longrightarrow> page s = 2 \<Longrightarrow> hDown e = 0 \<Longrightarrow> hRepeat e = keys_of [KEY_DOWN] \<Longrightarrow>
  map_option (\<lambda>s'. (page s', selection s')) (SettingsHandle e s) = Some (2, min (selection s + 1) 1)"
  by (auto simp: SettingsHandle_def AutoUpdateLogic_def auto_keys_def Let_def inv_unfold wrap_succ)

lemma down_p3: "settings_inv ta s \<Longrightarrow> page s = 3 \<Longrightarrow> hDown e = 0 \<Longrightarrow> hRepeat e = keys_of [KEY_DOWN] \<Longrightarrow>
  map_option (\<lambda>s'. (page s', selection s')) (SettingsHandle e s) = Some (3, min (selection s + 1) 2)"
  by (auto simp: SettingsHandle_def GUISettingsLogic_def gui_keys_def Let_def inv_unfold wrap_succ)

lemma down_p4: "settings_inv ta s \<Longrightarrow> page s = 4 \<Longrightarrow> hDown e = 0 \<Longrightarrow> hRepeat e = keys_of [KEY_DOWN] \<Longrightarrow>
  map_option (\<lambda>s'. (page s', selection s')) (SettingsHandle e s) = Some (4, (selection s + 1) mod 12)"
  by (auto simp: SettingsHandle_def LanguageLogic_def lang_keys_def scroll_to_selection_def Let_def inv_unfold wrap_succ)

lemma up_p0: "settings_inv ta s \<Longrightarrow> page s = 0 \<Longrightarrow> hDown e = 0 \<Longrightarrow> hRepeat e = keys_of [KEY_UP] \<Longrightarrow>
  map_option (\<lambda>s'. (page s', selection s')) (SettingsHandle e s) = Some (0, (selection s - 1) mod 7)"
  by (auto simp: SettingsHandle_def SettingsHandleMain_def main_keys_def Let_def inv_unfold wrap_pred)

lemma up_p1: "settings_inv ta s \<Longrightarrow> page s = 1 \<Longrightarrow> hDown e = 0 \<Longrightarrow> hRepeat e = keys_of [KEY_UP] \<Longrightarrow>
  map_option (\<lambda>s'. (page s', selection s')) (SettingsHandle e s) = Some (1, (selection s - 1) mod 5)"
  by (auto simp: SettingsHandle_def SettingsHandleDir_def dir_keys_def Let_def inv_unfold wrap_pred)

lemma up_p2: "settings_inv ta s \<Longrightarrow> page s = 2 \<Longrightarrow> hDown e = 0 \<Longrightarrow> hRepeat e = keys_of [KEY_UP] \<Longrightarrow>
  map_option (\<lambda>s'. (page s', selection s')) (SettingsHandle e s) = Some (2, max (selection s - 1) 0)"
  by (auto simp: SettingsHandle_def AutoUpdateLogic_def auto_keys_def Let_def inv_unfold wrap_pred)

lemma up_p3: "settings_inv ta s \<Longrightarrow> page s = 3 \<Longrightarrow> hDown e = 0 \<Longrightarrow> hRepeat e = keys_of [KEY_UP] \<Longrightarrow>
  map_option (\<lambda>s'. (page s', selection s')) (SettingsHandle e s) = Some (3, max (selection s - 1) 0)"
  by (auto simp: SettingsHandle_def GUISettingsLogic_def gui_keys_def Let_def inv_unfold wrap_pred)

lemma up_p4: "settings_inv ta s \<Longrightarrow> page s = 4 \<Longrightarrow> hDown e = 0 \<Longrightarrow> hRepeat e = keys_of [KEY_UP] \<Longrightarrow>
  map_option (\<lambda>s'. (page s', selection s')) (SettingsHandle e s) = Some (4, (selection s - 1) mod 12)"
  by (auto simp: SettingsHandle_def LanguageLogic_def lang_keys_def scroll_to_selection_def Let_def inv_unfold wrap_pred)

lemma right_left_p0: "settings_inv ta s \<Longrightarrow> page s = 0 \<Longrightarrow> hDown e = 0 \<Longrightarrow> hRepeat e = keys_of [k] \<Longrightarrow> k \<in> {KEY_RIGHT, KEY_LEFT} \<Longrightarrow>
  map_option (\<lambda>s'. (page s', selection s')) (SettingsHandle e s) = Some (0, if k = KEY_RIGHT then 6 else 0)"
  by (auto simp: SettingsHandle_def SettingsHandleMain_def main_keys_def Let_def inv_unfold)

lemma right_left_p1: "settings_inv ta s \<Longrightarrow> page s = 1 \<Longrightarrow> hDown e = 0 \<Longrightarrow> hRepeat e = keys_of [k] \<Longrightarrow> k \<in> {KEY_RIGHT, KEY_LEFT} \<Longrightarrow>
  map_option (\<lambda>s'. (page s', selection s')) (SettingsHandle e s) = Some (1, if k = KEY_RIGHT then 4 else 0)"
  by (auto simp: SettingsHandle_def SettingsHandleDir_def dir_keys_def Let_def inv_unfold)

lemma right_left_p2: "settings_inv ta s \<Longrightarrow> page s = 2 \<Longrightarrow> hDown e = 0 \<Longrightarrow> hRepeat e = keys_of [k] \<Longrightarrow> k \<in> {KEY_RIGHT, KEY_LEFT} \<Longrightarrow>
  map_option (\<lambda>s'. (page s', selection s')) (SettingsHandle e s) = Some (2, selection s)"
  by (auto simp: SettingsHandle_def AutoUpdateLogic_def auto_keys_def Let_def)

lemma right_left_p3: "settings_inv ta s \<Longrightarrow> page s = 3 \<Longrightarrow> hDown e = 0 \<Longrightarrow> hRepeat e = keys_of [k] \<Longrightarrow> k \<in> {KEY_RIGHT, KEY_LEFT} \<Longrightarrow>
  map_option (\<lambda>s'. (page s', selection s')) (SettingsHandle e s) = Some (3, selection s)"
  by (auto simp: SettingsHandle_def GUISettingsLogic_def gui_keys_def Let_def)

lemma right_left_p4: "settings_inv ta s \<Longrightarrow> page s = 4 \<Longrightarrow> hDown e = 0 \<Longrightarrow> hRepeat e = keys_of [k] \<Longrightarrow> k \<in> {KEY_RIGHT, KEY_LEFT} \<Longrightarrow>
  map_option (\<lambda>s'. (page s', selection s')) (SettingsHandle e s)
    = Some (4, if k = KEY_RIGHT then min (selection s + 6) 11 else max (selection s - 6) 0)"
  by (auto simp: SettingsHandle_def LanguageLogic_def lang_keys_def scroll_to_selection_def Let_def inv_unfold)

lemma open_page:
  "settings_inv ta s \<Longrightarrow> page s = 0 \<Longrightarrow> selection s = i \<Longrightarrow> i \<in> {0, 2, 3, 4} \<Longrightarrow>
   hDown e = keys_of [KEY_A] \<Longrightarrow> hRepeat e = 0 \<Longrightarrow>
   SettingsHandle e s = Some (s\<lparr>selection := 0, page := (if i = 0 then 4 else if i = 4 then 1 else i)\<rparr>)"
  by (auto simp: SettingsHandle_def SettingsHandleMain_def main_keys_def main_item_def Let_def inv_unfold)

lemma back_page:
  "page s \<in> {1, 2, 3, 4} \<Longrightarrow> selection s = 0 \<Longrightarrow> sPos s = 0 \<Longrightarrow>
   hDown e = keys_of [KEY_B] \<Longrightarrow> hRepeat e = 0 \<Longrightarrow>
   SettingsHandle e s = Some (s\<lparr>page := 0, selection := (if page s = 4 then 0 else if page s = 1 then 4 else page s)\<rparr>)"
  by (auto simp: SettingsHandle_def SettingsHandleDir_def dir_keys_def AutoUpdateLogic_def auto_keys_def
      GUISettingsLogic_def gui_keys_def LanguageLogic_def lang_keys_def scroll_to_selection_def Let_def)

lemma frame_down_main:
  "SettingsHandle (press 1 [] [KEY_DOWN]) menu0 = Some (menu0\<lparr>selection := 1\<rparr>)"
  by (simp add: SettingsHandle_def SettingsHandleMain_def main_keys_def Let_def press_def menu0_def)


subsection \<open>Touch targets\<close>

lemma rect_disjoint_touch: "rect_disjoint a b \<Longrightarrow> \<not> (touching t a \<and> touching t b)"
  by (auto simp: rect_disjoint_def touching_def)

lemma disjoint_rects_touch: "disjoint_rects bs \<Longrightarrow> length (filter (touching t) bs) \<le> 1"
proof (induction bs)
  case (Cons b bs)
  show ?case
  proof (cases "touching t b")
    case True
    with Cons.prems have "filter (touching t) bs = []"
      by (auto simp: filter_empty_conv list_all_iff dest: rect_disjoint_touch)
    with True show ?thesis by simp
  next
    case False
    with Cons show ?thesis by simp
  qed
qed simp

lemma page_targets_disjoint: "p \<in> {0, 1, 2, 3, 4} \<Longrightarrow> disjoint_rects (page_targets p)"
  by (auto simp: page_targets_def mainButtons_def langButtons_def toggleAbles_def back_btn_def Themes_def
                 button_def rect_disjoint_def)

lemma page_targets_bounds:
  "p \<in> {0, 1, 2, 3, 4} \<Longrightarrow> b \<in> set (page_targets p) \<Longrightarrow>
     0 \<le> btn_x b \<and> btn_x b + 1 < 320 \<and> 1 \<le> btn_w b \<and> 0 \<le> btn_y b \<and> btn_y b + 1 < 240 \<and> 1 \<le> btn_h b"
  by (auto simp: page_targets_def mainButtons_def langButtons_def toggleAbles_def back_btn_def Themes_def
                 button_def dest: in_set_takeD)

text \<open>A tap on language row \<open>i\<close> hits \<open>mainButtons[i]\<close> and nothing else the page tests.\<close>

lemma lang_row_hit:
  assumes "i < 6" "touching t (langButtons ! i)"
  shows "(\<forall>j<6. touching t (mainButtons ! j) \<longleftrightarrow> j = i) \<and> \<not> touching t back_btn \<and> \<not> touching t (langButtons ! 6)"
proof -
  have six: "\<And>j::nat. j < 6 \<longleftrightarrow> j = 0 \<or> j = 1 \<or> j = 2 \<or> j = 3 \<or> j = 4 \<or> j = 5" by auto
  from assms show ?thesis
    unfolding six by (auto simp: touching_def mainButtons_def langButtons_def back_btn_def button_def)
qed

lemma lang_touch_loop_miss:
  "\<forall>j\<in>set js. \<not> touching (touch e) (mainButtons ! j) \<Longrightarrow> lang_touch_loop e js s = Some s"
  by (induction js) auto

lemma lang_touch_loop_append:
  "lang_touch_loop e (xs @ ys) s = Option.bind (lang_touch_loop e xs s) (lang_touch_loop e ys)"
  by (induction xs arbitrary: s) (auto split: option.splits)

lemma scroll_select_language [simp]: "scroll_to_selection (select_language e l s) = select_language e l s"
  by (simp add: scroll_to_selection_def select_language_def Let_def emit_def set_config_def)

text \<open>The draw fails only on the GUI page, for a theme index without a name.\<close>

lemma DrawSettings_None_iff:
  "settings_inv ta s \<Longrightarrow> DrawSettings s = None \<longleftrightarrow> page s = 3 \<and> 1 \<le> SelectedTheme s"
  by (auto simp: settings_inv_def DrawSettings_def DrawGUISettings_def DrawLanguageSettings_def ThemeNames_def
           split: if_splits)



subsection \<open>Claims about the menu\<close>

text \<open>
  C11. Every state reached from a state satisfying the invariant, one \<open>SettingsHandle\<close> call
  per frame, satisfies it again: the page is one of the five, the selection indexes an item of
  that page, the language window contains the selection, the theme is in range; and the next
  frame's handler reads no table out of range, whatever the input.
\<close>

theorem settings_reach_safe:
  assumes "settings_reach ta s0 s" "settings_inv ta s0" "1 \<le> ta"
  shows "settings_inv ta s \<and> (\<forall>e. THEME_AMOUNT e = ta \<longrightarrow> (\<exists>s'. SettingsHandle e s = Some s'))"
  using settings_reach_inv [OF assms] SettingsHandle_step_inv assms(3) by blast

text \<open>
  C12. In every reachable state of a build whose themes all have a name, \<open>DrawSettings\<close> reads
  its tables in range and highlights exactly one row, the row of the selection.
\<close>

theorem DrawSettings_reach:
  assumes "settings_reach ta s0 s" "settings_inv ta s0" "1 \<le> ta" "ta \<le> int (length ThemeNames)"
  shows "\<exists>rows. DrawSettings s = Some rows \<and> filter snd rows = [rows ! nat (selection s - sPos s)]"
proof -
  have inv: "settings_inv ta s" using assms(1-3) by (rule settings_reach_inv)
  then have "page s \<in> {0, 1, 2, 3, 4}" by (auto simp: settings_inv_def)
  then show ?thesis using inv draw_p0 draw_p1 draw_p2 draw_p3 [OF inv _ assms(4)] draw_p4 by blast
qed

text \<open>
  C13. DOWN moves the selection to the next item of the page, wrapping from the last item to the
  first on the main, directory and language pages, and stopping at the last item on the
  auto-update and GUI pages; UP moves it to the previous item, wrapping from the first item to
  the last on the same pages and stopping at the first item on the other two.
\<close>

theorem dpad_vertical:
  assumes "settings_inv ta s" "hDown e = 0" "hRepeat e = keys_of [KEY_DOWN]"
    "hDown e' = 0" "hRepeat e' = keys_of [KEY_UP]"
  shows "map_option (\<lambda>s'. (page s', selection s')) (SettingsHandle e s) =
           Some (page s, if page s = 2 \<or> page s = 3 then min (selection s + 1) (page_items (page s) - 1)
                         else (selection s + 1) mod page_items (page s))
       \<and> map_option (\<lambda>s'. (page s', selection s')) (SettingsHandle e' s) =
           Some (page s, if page s = 2 \<or> page s = 3 then max (selection s - 1) 0
                         else (selection s - 1) mod page_items (page s))"
proof
  show "map_option (\<lambda>s'. (page s', selection s')) (SettingsHandle e s) =
           Some (page s, if page s = 2 \<or> page s = 3 then min (selection s + 1) (page_items (page s) - 1)
                         else (selection s + 1) mod page_items (page s))"
    using inv_pages [OF assms(1)] down_p0 down_p1 down_p2 down_p3 down_p4 assms(1-3)
    by (auto simp: page_items_def)
  show "map_option (\<lambda>s'. (page s', selection s')) (SettingsHandle e' s) =
           Some (page s, if page s = 2 \<or> page s = 3 then max (selection s - 1) 0
                         else (selection s - 1) mod page_items (page s))"
    using inv_pages [OF assms(1)] up_p0 up_p1 up_p2 up_p3 up_p4 assms(1,4,5)
    by (auto simp: page_items_def)
qed

text \<open>
  C14. A tap on a language row selects the language drawn in that row: the handler tests
  \<open>mainButtons[i]\<close> while \<open>DrawLanguageSettings\<close> draws \<open>languages[sPos + i]\<close> at
  \<open>langButtons[i]\<close>, the same rectangle for the six rows, and picks
  \<open>langsTemp[i + sPos]\<close>, the code at the same index.
\<close>

theorem lang_tap_selects_drawn_row:
  assumes "settings_inv ta s" "page s = 4" "i < 6"
    "hDown e = keys_of [KEY_TOUCH]" "hRepeat e = 0" "touching (touch e) (langButtons ! i)"
  shows "\<exists>rows. DrawSettings s = Some rows \<and> fst (rows ! i) = languages ! nat (sPos s + int i)
           \<and> SettingsHandle e s = Some (select_language e (langsTemp ! nat (sPos s + int i)) s)"
proof -
  note hit = lang_row_hit [OF assms(3,6)]
  have p: "0 \<le> sPos s" "sPos s + 6 \<le> 12" using assms(1,2) by (auto simp: settings_inv_def)
  have k: "lang_keys e s = s" using assms(4,5) hit by (simp add: lang_keys_def Let_def)
  have pre: "lang_touch_loop e [0..<i] s = Some s"
    by (rule lang_touch_loop_miss) (use hit assms(3) in auto)
  let ?s' = "select_language e (langsTemp ! nat (sPos s + int i)) s"
  have post: "lang_touch_loop e [Suc i..<6] ?s' = Some ?s'"
    by (rule lang_touch_loop_miss) (use hit in auto)
  have at: "lang_at (int i + sPos s) = Some (langsTemp ! nat (sPos s + int i))"
    using p assms(3) by (simp add: lang_at_def add.commute)
  have ti: "touching (touch e) (mainButtons ! i)" using hit assms(3) by blast
  have mid: "lang_touch_loop e (i # [Suc i..<6]) s = Some ?s'"
  proof -
    have "int i + sPos s < 12" using p assms(3) by linarith
    with ti at post show ?thesis by simp
  qed
  have split: "[0..<6] = [0..<i] @ i # [Suc i..<6]"
    using upt_add_eq_append [of 0 i "6 - i"] assms(3) upt_conv_Cons [of i 6] by simp
  have loop: "lang_touch_loop e [0..<6] s = Some ?s'"
  proof -
    have "lang_touch_loop e [0..<6] s = Option.bind (lang_touch_loop e [0..<i] s) (lang_touch_loop e (i # [Suc i..<6]))"
      by (simp only: split lang_touch_loop_append)
    with pre mid show ?thesis by simp
  qed
  have h: "SettingsHandle e s = Some ?s'"
    using assms(2,4) k loop hit by (simp add: SettingsHandle_def LanguageLogic_def)
  have d: "DrawSettings s = Some (map (\<lambda>j. (languages ! (nat (sPos s) + j), sPos s + int j = selection s)) [0..<6])"
    using assms(2) p by (simp add: DrawSettings_def DrawLanguageSettings_def)
  show ?thesis
    using d h assms(3) p by (simp add: nat_add_distrib)
qed

text \<open>
  C15. Opening a sub-page from the main page with A and leaving it with B restores the menu state
  exactly: the main page with the item that opened the sub-page selected, and nothing else
  changed.
\<close>

theorem back_roundtrip:
  assumes "settings_inv ta s" "page s = 0" "selection s \<in> {0, 2, 3, 4}"
    "hDown eA = keys_of [KEY_A]" "hRepeat eA = 0" "hDown eB = keys_of [KEY_B]" "hRepeat eB = 0"
  shows "Option.bind (SettingsHandle eA s) (SettingsHandle eB) = Some s"
proof -
  have "sPos s = 0" using assms(1,2) by (simp add: settings_inv_def)
  then show ?thesis using open_page [OF assms(1,2) refl assms(3-5)] back_page [OF _ _ _ assms(6,7)] assms(2,3)
    by auto
qed

text \<open>
  C16. A on the language page saves and loads the selected language code and returns to the main
  page; choosing Ukrainian also downloads the compatible font when it is not on the SD card and
  turns the custom font on.
\<close>

theorem language_select:
  assumes "settings_inv ta s" "page s = 4" "hDown e = keys_of [KEY_A]" "hRepeat e = 0"
    "l = langsTemp ! nat (selection s)"
  shows "\<exists>s'. SettingsHandle e s = Some s' \<and> page s' = 0 \<and> selection s' = 0 \<and> sPos s' = 0
           \<and> cfg_language (config s') = l
           \<and> cfg_customfont (config s') = (l = ''uk'' \<or> cfg_customfont (config s))
           \<and> effects s' = effects s @ (if l = ''uk'' then (if font_on_sd s then [] else [DownloadFont False]) @ [LoadFont] else [])
                          @ [LangLoad l]"
proof -
  have r: "0 \<le> selection s" "selection s < 12" using assms(1,2) by (simp_all add: inv_unfold)
  have "SettingsHandle e s = Some (select_language e l s)"
    using assms(2-5) lang_at_Some [OF r]
    by (simp add: SettingsHandle_def LanguageLogic_def lang_keys_def select_language_def
                  scroll_to_selection_def Let_def)
  then show ?thesis
    by (simp add: select_language_def download_font_def Let_def)
qed

text \<open>
  C17. A on the theme row cycles the theme index through \<open>0 .. _THEME_AMOUNT - 1\<close> and saves it
  in the configuration.
\<close>

theorem theme_cycle:
  assumes "settings_inv ta s" "page s = 3" "selection s = 2" "THEME_AMOUNT e = ta"
    "hDown e = keys_of [KEY_A]" "hRepeat e = 0"
  shows "\<exists>s'. SettingsHandle e s = Some s' \<and> page s' = 3 \<and> selection s' = 2
           \<and> SelectedTheme s' = (SelectedTheme s + 1) mod ta \<and> cfg_theme (config s') = SelectedTheme s'"
proof -
  have r: "0 \<le> SelectedTheme s" "SelectedTheme s < ta" using assms(1) by (simp_all add: inv_unfold)
  show ?thesis
    using assms(2-6) wrap_succ [OF r]
    by (simp add: SettingsHandle_def GUISettingsLogic_def gui_keys_def gui_item_def next_theme_def Let_def)
qed

text \<open>
  C18. A on a directory row opens the directory selector at the configured path and stores the
  chosen path, unless the selection was cancelled; the other four paths are untouched.
\<close>

theorem dir_change:
  assumes "settings_inv ta s" "page s = 1" "hDown e = keys_of [KEY_A]" "hRepeat e = 0"
    "k = [Dir3dsx, DirNds, DirArch, DirShortcut, DirFirm] ! nat (selection s)"
    "old = dir_get k (config s)"
  shows "\<exists>s'. SettingsHandle e s = Some s' \<and> page s' = 1 \<and> selection s' = selection s
           \<and> effects s' = effects s @ [SelectDirOverlay old]
           \<and> dir_get k (config s') = (if dir_choice e old = [] then old else dir_choice e old)
           \<and> (\<forall>k'. k' \<noteq> k \<longrightarrow> dir_get k' (config s') = dir_get k' (config s))"
proof -
  have "selection s \<in> {0, 1, 2, 3, 4}" using assms(1,2) by (auto simp: inv_unfold)
  then show ?thesis using assms(2-6)
    by (auto simp: SettingsHandle_def SettingsHandleDir_def dir_keys_def dir_item_def change_dir_def
                   Let_def dir_get_def dir_set_def split: dir_kind.splits)
qed

text \<open>
  C19. A on the exit row ends the application at once when no queue runs, and otherwise only
  after the side-effects prompt is confirmed.
\<close>

theorem exit_item:
  assumes "settings_inv ta s" "page s = 0" "selection s = 6" "hDown e = keys_of [KEY_A]" "hRepeat e = 0"
  shows "\<exists>s'. SettingsHandle e s = Some s' \<and> exiting s' = (\<not> QueueRuns e \<or> prompt_answer e)
           \<and> effects s' = effects s @ (if QueueRuns e then [PromptSideEffects] else [])
           \<and> config s' = config s \<and> page s' = 0"
  using assms(2-5)
  by (simp add: SettingsHandle_def SettingsHandleMain_def main_keys_def main_item_def exit_app_def Let_def)

text \<open>
  C20. In every reachable state \<open>DrawSettings\<close> fails exactly on the GUI page with a theme
  index of 1 or more, the indices \<open>ThemeNames\<close> (one entry) has no name for; and whenever
  \<open>_THEME_AMOUNT\<close> leaves room for the next index, one A on the theme row reaches such a
  state.
\<close>

theorem theme_name_out_of_range:
  assumes "settings_reach ta s0 s" "settings_inv ta s0" "1 \<le> ta"
  shows "(DrawSettings s = None \<longleftrightarrow> page s = 3 \<and> 1 \<le> SelectedTheme s)
       \<and> (page s = 3 \<and> selection s = 2 \<and> SelectedTheme s + 1 < ta \<longrightarrow>
            (\<forall>e. THEME_AMOUNT e = ta \<and> hDown e = keys_of [KEY_A] \<and> hRepeat e = 0 \<longrightarrow>
               (\<exists>s'. SettingsHandle e s = Some s' \<and> settings_reach ta s0 s' \<and> DrawSettings s' = None)))"
proof
  have inv: "settings_inv ta s" using assms by (rule settings_reach_inv)
  then show "DrawSettings s = None \<longleftrightarrow> page s = 3 \<and> 1 \<le> SelectedTheme s" by (rule DrawSettings_None_iff)
  show "page s = 3 \<and> selection s = 2 \<and> SelectedTheme s + 1 < ta \<longrightarrow>
            (\<forall>e. THEME_AMOUNT e = ta \<and> hDown e = keys_of [KEY_A] \<and> hRepeat e = 0 \<longrightarrow>
               (\<exists>s'. SettingsHandle e s = Some s' \<and> settings_reach ta s0 s' \<and> DrawSettings s' = None))"
  proof (intro impI allI)
    fix e :: senv assume p: "page s = 3 \<and> selection s = 2 \<and> SelectedTheme s + 1 < ta"
      and e: "THEME_AMOUNT e = ta \<and> hDown e = keys_of [KEY_A] \<and> hRepeat e = 0"
    have t0: "0 \<le> SelectedTheme s" using inv by (simp add: settings_inv_def)
    let ?s' = "set_config (\<lambda>c. c\<lparr>cfg_theme := SelectedTheme s + 1\<rparr>) (s\<lparr>SelectedTheme := SelectedTheme s + 1\<rparr>)"
    have h: "SettingsHandle e s = Some ?s'"
      using p e by (simp add: SettingsHandle_def GUISettingsLogic_def gui_keys_def gui_item_def next_theme_def Let_def)
    have r: "settings_reach ta s0 ?s'" using settings_reach.reach_frame [OF assms(1) _ h] e by simp
    have "settings_inv ta ?s'" using r assms(2,3) by (rule settings_reach_inv)
    moreover have "page ?s' = 3 \<and> 1 \<le> SelectedTheme ?s'" using p t0 by (simp add: set_config_def)
    ultimately have "DrawSettings ?s' = None" using DrawSettings_None_iff by blast
    with h r show "\<exists>s'. SettingsHandle e s = Some s' \<and> settings_reach ta s0 s' \<and> DrawSettings s' = None" by blast
  qed
qed


text \<open>
  C37. The touch targets of every page are pairwise disjoint, so one touch hits at most one of
  them: the order of the \<open>if (touching(...)) ... else if\<close> chains, and the language page's
  loop over its six rows, never decide between two targets.
\<close>

theorem touch_targets_exclusive:
  "p \<in> {0, 1, 2, 3, 4} \<Longrightarrow> length (filter (touching t) (page_targets p)) \<le> 1"
  by (rule disjoint_rects_touch [OF page_targets_disjoint])

text \<open>
  C38. RIGHT and LEFT page through the language list six rows at a time, stopping at its ends;
  on the main and directory pages, where a jump of eight always leaves the list, they go to the
  last and the first item; the auto-update and GUI pages ignore them.
\<close>

theorem dpad_right_left:
  assumes "settings_inv ta s" "hDown e = 0" "hRepeat e = keys_of [k]" "k \<in> {KEY_RIGHT, KEY_LEFT}"
  shows "map_option (\<lambda>s'. (page s', selection s')) (SettingsHandle e s) =
           Some (page s, if page s = 2 \<or> page s = 3 then selection s
                         else if page s = 4 then (if k = KEY_RIGHT then min (selection s + 6) 11 else max (selection s - 6) 0)
                         else if k = KEY_RIGHT then page_items (page s) - 1 else 0)"
proof -
  have "page s \<in> {0, 1, 2, 3, 4}" by (rule inv_pages [OF assms(1)])
  then show ?thesis
    using right_left_p0 [OF assms(1) _ assms(2-4)] right_left_p1 [OF assms(1) _ assms(2-4)]
      right_left_p2 [OF assms(1) _ assms(2-4)] right_left_p3 [OF assms(1) _ assms(2-4)]
      right_left_p4 [OF assms(1) _ assms(2-4)]
    by (auto simp: page_items_def)
qed

text \<open>
  C40. Within one frame B is handled before A, and A then acts on the item B selected: B and A
  pressed together on the language page leave it and switch the language to \<open>br\<close> (the first
  entry of \<open>langsTemp\<close>); on the directory page they return to the main page and open the
  selector for the firm path.
\<close>

theorem back_and_select_same_frame:
  assumes "settings_inv ta s" "hDown e = keys_of [KEY_B, KEY_A]" "hRepeat e = 0"
  shows "(page s = 4 \<longrightarrow> (\<exists>s'. SettingsHandle e s = Some s' \<and> page s' = 0
            \<and> cfg_language (config s') = ''br'' \<and> effects s' = effects s @ [LangLoad ''br'']))
       \<and> (page s = 1 \<longrightarrow> (\<exists>s'. SettingsHandle e s = Some s' \<and> page s' = 0 \<and> selection s' = 4
            \<and> effects s' = effects s @ [SelectDirOverlay (cfg_firmPath (config s))]))"
proof (intro conjI impI)
  assume p: "page s = 4"
  have "lang_at 0 = Some ''br''" by (simp add: lang_at_def langsTemp_def)
  with p assms(2,3) show "\<exists>s'. SettingsHandle e s = Some s' \<and> page s' = 0
            \<and> cfg_language (config s') = ''br'' \<and> effects s' = effects s @ [LangLoad ''br'']"
    by (simp add: SettingsHandle_def LanguageLogic_def lang_keys_def select_language_def
                  scroll_to_selection_def Let_def)
next
  assume p: "page s = 1"
  with assms(2,3) show "\<exists>s'. SettingsHandle e s = Some s' \<and> page s' = 0 \<and> selection s' = 4
            \<and> effects s' = effects s @ [SelectDirOverlay (cfg_firmPath (config s))]"
    by (simp add: SettingsHandle_def SettingsHandleDir_def dir_keys_def dir_item_def change_dir_def
                  dir_get_def dir_set_def Let_def)
qed

subsection \<open>Touch before A in one frame\<close>

text \<open>
  On the main page the touch block runs before the \<open>KEY_A\<close> switch, which then reads the
  selection the touch branch reset to 0: a tap on the auto-update row alone opens page 2, the
  same tap together with A opens the language page (item 0) instead.
\<close>

lemma tap_auto_update_with_A:
  "SettingsHandle ((tap 1 50 100)\<lparr>hDown := keys_of [KEY_TOUCH, KEY_A]\<rparr>) menu0 = Some (menu0\<lparr>page := 4\<rparr>)
   \<and> SettingsHandle (tap 1 50 100) menu0 = Some (menu0\<lparr>page := 2\<rparr>)"
  by (simp add: SettingsHandle_def SettingsHandleMain_def main_keys_def main_touch_def main_item_def
                tap_def press_def menu0_def touching_def mainButtons_def button_def Let_def)

subsection \<open>Witnesses\<close>

theorem settings_reach_safe_witness:
  "settings_inv 1 (menu0\<lparr>selection := 1\<rparr>) \<and>
   (\<exists>s'. SettingsHandle (press 1 [KEY_A] []) (menu0\<lparr>selection := 1\<rparr>) = Some s')"
proof -
  have r: "settings_reach 1 menu0 (menu0\<lparr>selection := 1\<rparr>)"
    by (rule settings_reach.reach_frame [OF settings_reach.reach_start _ frame_down_main]) (simp add: press_def)
  have "settings_inv 1 (menu0\<lparr>selection := 1\<rparr>) \<and>
        (\<forall>e. THEME_AMOUNT e = 1 \<longrightarrow> (\<exists>s'. SettingsHandle e (menu0\<lparr>selection := 1\<rparr>) = Some s'))"
    by (rule settings_reach_safe [OF r]) (simp_all add: menu0_def inv_unfold)
  then show ?thesis by (simp add: press_def)
qed

theorem DrawSettings_reach_witness:
  "\<exists>rows. DrawSettings (menu0\<lparr>selection := 1\<rparr>) = Some rows \<and>
      filter snd rows = [rows ! nat (selection (menu0\<lparr>selection := 1\<rparr>) - sPos (menu0\<lparr>selection := 1\<rparr>))]"
proof -
  have r: "settings_reach 1 menu0 (menu0\<lparr>selection := 1\<rparr>)"
    by (rule settings_reach.reach_frame [OF settings_reach.reach_start _ frame_down_main]) (simp add: press_def)
  have i: "settings_inv 1 menu0" by (simp add: menu0_def inv_unfold)
  show ?thesis by (rule DrawSettings_reach [OF r i]) simp_all
qed

theorem dpad_vertical_witness:
  "map_option (\<lambda>s'. (page s', selection s')) (SettingsHandle (press 1 [] [KEY_DOWN]) (menu0\<lparr>page := 2, selection := 1\<rparr>))
     = Some (2, 1)
   \<and> map_option (\<lambda>s'. (page s', selection s')) (SettingsHandle (press 1 [] [KEY_UP]) (menu0\<lparr>page := 2, selection := 1\<rparr>))
     = Some (2, 0)"
  using dpad_vertical [of 1 "menu0\<lparr>page := 2, selection := 1\<rparr>" "press 1 [] [KEY_DOWN]" "press 1 [] [KEY_UP]"]
  by (simp add: menu0_def press_def inv_unfold keys_of_def)

theorem lang_tap_selects_drawn_row_witness:
  "\<exists>rows. DrawSettings (menu0\<lparr>page := 4, selection := 7, sPos := 2\<rparr>) = Some rows \<and> fst (rows ! 2) = languages ! 4
     \<and> SettingsHandle (tap 1 100 100) (menu0\<lparr>page := 4, selection := 7, sPos := 2\<rparr>)
         = Some (select_language (tap 1 100 100) ''fr'' (menu0\<lparr>page := 4, selection := 7, sPos := 2\<rparr>))"
  using lang_tap_selects_drawn_row [of 1 "menu0\<lparr>page := 4, selection := 7, sPos := 2\<rparr>" 2 "tap 1 100 100"]
  by (simp add: menu0_def tap_def press_def inv_unfold keys_of_def touching_def langButtons_def button_def langsTemp_def)

theorem back_roundtrip_witness:
  "Option.bind (SettingsHandle (press 1 [KEY_A] []) (menu0\<lparr>selection := 4\<rparr>)) (SettingsHandle (press 1 [KEY_B] []))
     = Some (menu0\<lparr>selection := 4\<rparr>)"
  using back_roundtrip [of 1 "menu0\<lparr>selection := 4\<rparr>" "press 1 [KEY_A] []" "press 1 [KEY_B] []"]
  by (simp add: menu0_def press_def inv_unfold keys_of_def)

theorem language_select_witness:
  "\<exists>s'. SettingsHandle (press 1 [KEY_A] []) (menu0\<lparr>page := 4, selection := 10, sPos := 5\<rparr>) = Some s'
     \<and> page s' = 0 \<and> selection s' = 0 \<and> sPos s' = 0 \<and> cfg_language (config s') = ''uk''
     \<and> cfg_customfont (config s') = True \<and> effects s' = [DownloadFont False, LoadFont, LangLoad ''uk'']"
  using language_select [of 1 "menu0\<lparr>page := 4, selection := 10, sPos := 5\<rparr>" "press 1 [KEY_A] []" "''uk''"]
  by (simp add: menu0_def press_def inv_unfold keys_of_def langsTemp_def)

theorem theme_cycle_witness:
  "\<exists>s'. SettingsHandle (press 3 [KEY_A] []) (menu0\<lparr>page := 3, selection := 2, SelectedTheme := 2\<rparr>) = Some s'
     \<and> page s' = 3 \<and> selection s' = 2 \<and> SelectedTheme s' = 0 \<and> cfg_theme (config s') = SelectedTheme s'"
  using theme_cycle [of 3 "menu0\<lparr>page := 3, selection := 2, SelectedTheme := 2\<rparr>" "press 3 [KEY_A] []"]
  by (simp add: menu0_def press_def inv_unfold keys_of_def)

theorem dir_change_witness:
  "\<exists>s'. SettingsHandle ((press 1 [KEY_A] []) \<lparr>dir_choice := (\<lambda>_. ''/roms'')\<rparr>) (menu0\<lparr>page := 1, selection := 1\<rparr>) = Some s'
     \<and> page s' = 1 \<and> selection s' = 1 \<and> effects s' = [SelectDirOverlay ''/'']
     \<and> cfg_ndsPath (config s') = ''/roms'' \<and> cfg_3dsxPath (config s') = ''/3ds''"
proof -
  let ?s = "menu0\<lparr>page := 1, selection := 1\<rparr>" and ?e = "(press 1 [KEY_A] []) \<lparr>dir_choice := (\<lambda>_. ''/roms'')\<rparr>"
  have h: "settings_inv 1 ?s" "page ?s = 1" "hDown ?e = keys_of [KEY_A]" "hRepeat ?e = 0"
    "DirNds = [Dir3dsx, DirNds, DirArch, DirShortcut, DirFirm] ! nat (selection ?s)"
    "''/'' = dir_get DirNds (config ?s)"
    by (simp_all add: menu0_def press_def inv_unfold keys_of_def dir_get_def)
  obtain s' where s': "SettingsHandle ?e ?s = Some s'" "page s' = 1" "selection s' = selection ?s"
    "effects s' = effects ?s @ [SelectDirOverlay ''/'']"
    "dir_get DirNds (config s') = (if dir_choice ?e ''/'' = [] then ''/'' else dir_choice ?e ''/'')"
    "\<forall>k'. k' \<noteq> DirNds \<longrightarrow> dir_get k' (config s') = dir_get k' (config ?s)"
    using dir_change [OF h] by blast
  have "dir_get Dir3dsx (config s') = ''/3ds''"
    using spec [OF s'(6), of Dir3dsx] by (simp add: menu0_def dir_get_def)
  with s'(1-5) show ?thesis by (simp add: menu0_def press_def dir_get_def)
qed

theorem exit_item_witness:
  "\<exists>s'. SettingsHandle (press 1 [KEY_A] []) (menu0\<lparr>selection := 6\<rparr>) = Some s'
     \<and> exiting s' \<and> effects s' = [] \<and> config s' = config menu0 \<and> page s' = 0"
  using exit_item [of 1 "menu0\<lparr>selection := 6\<rparr>" "press 1 [KEY_A] []"]
  by (simp add: menu0_def press_def inv_unfold keys_of_def)

theorem touch_targets_exclusive_witness:
  "length (filter (touching \<lparr>px = 50, py = 40\<rparr>) (page_targets 0)) = 1"
proof -
  have "length (filter (touching \<lparr>px = 50, py = 40\<rparr>) (page_targets 0)) \<le> 1"
    using touch_targets_exclusive [of 0] by simp
  moreover have "touching \<lparr>px = 50, py = 40\<rparr> (page_targets 0 ! 0)"
    by (simp add: page_targets_def mainButtons_def button_def touching_def)
  moreover have "page_targets 0 \<noteq> []" by (simp add: page_targets_def mainButtons_def)
  ultimately show ?thesis
    by (cases "page_targets 0") (auto simp: le_Suc_eq)
qed

theorem dpad_right_left_witness:
  "map_option (\<lambda>s'. (page s', selection s')) (SettingsHandle (press 1 [] [KEY_RIGHT]) (menu0\<lparr>page := 4, selection := 3\<rparr>))
     = Some (4, 9)"
  using dpad_right_left [of 1 "menu0\<lparr>page := 4, selection := 3\<rparr>" "press 1 [] [KEY_RIGHT]" KEY_RIGHT]
  by (simp add: menu0_def press_def inv_unfold keys_of_def)

theorem back_and_select_same_frame_witness:
  "\<exists>s'. SettingsHandle (press 1 [KEY_B, KEY_A] []) (menu0\<lparr>page := 4, selection := 7, sPos := 2\<rparr>) = Some s'
     \<and> page s' = 0 \<and> cfg_language (config s') = ''br'' \<and> effects s' = [LangLoad ''br'']"
  using back_and_select_same_frame [of 1 "menu0\<lparr>page := 4, selection := 7, sPos := 2\<rparr>" "press 1 [KEY_B, KEY_A] []"]
  by (simp add: menu0_def press_def inv_unfold keys_of_def)

theorem theme_name_out_of_range_witness:
  "DrawSettings (menu0\<lparr>page := 3, selection := 2\<rparr>) \<noteq> None
   \<and> (\<exists>s'. SettingsHandle (press 2 [KEY_A] []) (menu0\<lparr>page := 3, selection := 2\<rparr>) = Some s'
          \<and> settings_reach 2 (menu0\<lparr>page := 3, selection := 2\<rparr>) s' \<and> DrawSettings s' = None)"
  using theme_name_out_of_range [OF settings_reach.reach_start, of 2 "menu0\<lparr>page := 3, selection := 2\<rparr>"]
  by (simp add: menu0_def inv_unfold press_def keys_of_def)


end
