(* ===== verification/MainLoop.thy ===== *)
theory MainLoop
  imports Downloading Input
begin

unbundle bit_operations_syntax

text \<open>
  The NDS front end of \<^verbatim>\<open>src/source/nds/UniversalUpdater.cpp\<close>: \<open>UU::Initialize\<close>
  (FAT and NitroFS mounting, directory creation, Wi-Fi start and the echo server's listening
  socket), the echo server's per-frame \<open>appwifi_echoserver_tick\<close>, \<open>UU::ScanInput\<close>,
  \<open>UU::Draw\<close> and \<open>UU::SwitchTopMode\<close>, and the frame loop of \<open>UU::Handler\<close>, which
  calls \<open>downloadToFile\<close> of theory \<open>Downloading\<close>. Everything the program observably does
  goes into one world record: console lines, created directories, files, the download buffer,
  sockets closed, data sent, whether the configuration was saved. A \<open>while (1)
  swiWaitForVBlank();\<close> is the outcome \<open>Halted\<close>; a loop that may run forever is a
  \<open>partial_function (option)\<close> whose \<open>None\<close> is non-termination.
\<close>

section \<open>The idle loop\<close>

text \<open>\<open>while (1) swiWaitForVBlank();\<close>, counting the frames waited: it never returns.\<close>

partial_function (option) vblank_forever :: "nat \<Rightarrow> unit option" where
  "vblank_forever n = vblank_forever (Suc n)"

section \<open>The world\<close>

text \<open>What the program prints, in order (\<open>iprintf\<close>/\<open>printf\<close>), abstracted to its content.\<close>

datatype log =
  Msg string
| EchoAccept int
| EchoGot int
| CurIP "byte list"
| PrintResult int

text \<open>The calls into the Wi-Fi RPC layer the connection callbacks make.\<close>

datatype rpc_call = RpcInit | RpcDeinit

record uu_world =
  console :: "log list"
  rpc :: "rpc_call list"
  dirs :: "string list"
  fs :: files
  dl :: dl_state
  lSocket :: "int option"
  closed :: "int list"
  sent :: "(int \<times> byte list) list"
  saved :: bool

text \<open>
  How the program ends: \<open>Handler\<close> returns a value, or the program sits in the idle loop
  (\<open>vblank_forever\<close>), or a \<open>memcpy\<close> of the download buffer faults.
\<close>

datatype outcome =
  Returned int uu_world
| Halted uu_world
| Crashed mem_fault

definition log_msg :: "log \<Rightarrow> uu_world \<Rightarrow> uu_world" where
  "log_msg m w = w\<lparr>console := console w @ [m]\<rparr>"

definition close_fd :: "int \<Rightarrow> uu_world \<Rightarrow> uu_world" where
  "close_fd fd w = w\<lparr>closed := closed w @ [fd]\<rparr>"

section \<open>The Wi-Fi callbacks\<close>

text \<open>
  \<open>appwifi_log\<close>, \<open>appwifi_connect\<close> and \<open>appwifi_reconnect\<close>, which
  \<open>UU::Initialize\<close> hands to DSiWifi and the library calls when it logs, connects and
  reconnects.
\<close>

definition appwifi_log :: "string \<Rightarrow> uu_world \<Rightarrow> uu_world" where
  "appwifi_log s w = log_msg (Msg s) w"

definition appwifi_connect :: "uu_world \<Rightarrow> uu_world" where
  "appwifi_connect w = w\<lparr>rpc := rpc w @ [RpcInit]\<rparr>"

definition appwifi_reconnect :: "uu_world \<Rightarrow> uu_world" where
  "appwifi_reconnect w = w\<lparr>rpc := rpc w @ [RpcDeinit, RpcInit]\<rparr>"

section \<open>Initialisation: \<open>UU::Initialize\<close> and \<open>appwifi_echoserver\<close>\<close>

text \<open>
  What the libraries answer during start-up: \<open>fatInitDefault\<close>, \<open>nitroFSInit\<close> per path,
  and the socket calls \<open>socket\<close>, \<open>bind\<close> and \<open>listen\<close>.
\<close>

record init_env =
  fat_ok :: bool
  nitro_ok :: "string \<Rightarrow> bool"
  socket_ret :: int
  bind_ok :: bool
  listen_ok :: bool

text \<open>The \<open>fail:\<close> label of \<open>appwifi_echoserver\<close>.\<close>

definition echo_fail :: "uu_world \<Rightarrow> uu_world" where
  "echo_fail w = log_msg (Msg ''not sure what happened\<newline>'') w"

definition appwifi_echoserver :: "init_env \<Rightarrow> uu_world \<Rightarrow> uu_world + uu_world" where
  "appwifi_echoserver ie w =
     (let fd = socket_ret ie in
      if fd < 0 then Inl (echo_fail w)
      else if \<not> bind_ok ie then Inl (echo_fail (close_fd fd w))
      else if \<not> listen_ok ie then Inl (echo_fail (close_fd fd w))
      else Inr (w\<lparr>lSocket := Some fd\<rparr>))"

text \<open>The three places NitroFS is tried, in order.\<close>

definition nitro_paths :: "string \<Rightarrow> string list" where
  "nitro_paths argv0 = [argv0, ''Universal-Updater.nds'', ''/_nds/Universal-Updater/Universal-Updater.nds'']"

definition uu_dirs :: "string list" where
  "uu_dirs = [''/_nds'', ''/_nds/Universal-Updater'', ''/_nds/Universal-Updater/stores'',
              ''/_nds/Universal-Updater/shortcuts'']"

definition nitro_fail_msgs :: "log list" where
  "nitro_fail_msgs = [Msg ''NitroFS init failed!\<newline>\<newline>'', Msg ''Copy Universal-Updater.nds to\<newline>\<newline>'',
     Msg ''/_nds/Universal-Updater/\<newline>'', Msg ''           Universal-Updater.nds\<newline>'',
     Msg ''or launch using TWiLight Menu++\<newline>or nds-hb-menu.'']"

text \<open>
  \<open>Inl w\<close>: the start-up stopped in an idle loop with world \<open>w\<close>; \<open>Inr w\<close>: it returned.
  Graphics, palette and class construction have no effect the model observes.
\<close>

definition UU_Initialize :: "init_env \<Rightarrow> string \<Rightarrow> uu_world \<Rightarrow> uu_world + uu_world" where
  "UU_Initialize ie argv0 w =
     (if \<not> fat_ok ie then Inl (log_msg (Msg ''FAT init failed!\<newline>'') w)
      else if \<not> list_ex (nitro_ok ie) (nitro_paths argv0)
      then Inl (w\<lparr>console := console w @ nitro_fail_msgs\<rparr>)
      else appwifi_echoserver ie (w\<lparr>dirs := dirs w @ uu_dirs\<rparr>))"

text \<open>
  What the order of the \<open>mkdir\<close> calls must respect: \<open>mkdir\<close> creates one level, so
  each directory's parent (the path up to its last \<open>/\<close>) must be the root or a directory
  created before it.
\<close>

definition dir_parent :: "string \<Rightarrow> string" where
  "dir_parent p = rev (drop 1 (dropWhile (\<lambda>c. c \<noteq> CHR ''/'') (rev p)))"

fun parents_first :: "string list \<Rightarrow> string list \<Rightarrow> bool" where
  "parents_first made [] = True"
| "parents_first made (d # ds) = ((dir_parent d = [] \<or> dir_parent d \<in> set made) \<and> parents_first (made @ [d]) ds)"

section \<open>The echo server tick: \<open>appwifi_echoserver_tick\<close>\<close>

text \<open>
  What one \<open>recv\<close> on the client socket gets: data (of which at most
  \<open>sizeof(buffer) = 256\<close> bytes are taken), an orderly close (0) or an error (-1).
\<close>

datatype recv_result = Received "byte list" | Closed | RecvError

definition recv_call :: "recv_result \<Rightarrow> int \<times> byte list" where
  "recv_call r = (case r of
       Received bs \<Rightarrow> (int (length (take 256 bs)), take 256 bs)
     | Closed \<Rightarrow> (0, [])
     | RecvError \<Rightarrow> (-1, []))"

text \<open>
  \<open>do { nbytes = recv(...); iprintf(...); if (nbytes > 0) send(...); } while (nbytes > 0);\<close>
  where \<open>peer i\<close> is what the \<open>i\<close>-th \<open>recv\<close> gets. It runs as long as the client keeps
  sending.
\<close>

partial_function (option) echo_loop ::
  "(nat \<Rightarrow> recv_result) \<Rightarrow> int \<Rightarrow> nat \<Rightarrow> uu_world \<Rightarrow> uu_world option" where
  "echo_loop peer fd i w =
     (let (nbytes, buf) = recv_call (peer i);
          w1 = log_msg (EchoGot nbytes) w;
          w2 = (if 0 < nbytes then w1\<lparr>sent := sent w1 @ [(fd, buf)]\<rparr> else w1)
      in if 0 < nbytes then echo_loop peer fd (Suc i) w2 else Some w2)"

text \<open>\<open>accept\<close> returns \<open>clientfd\<close>; a positive one is served and closed.\<close>

definition echoserver_tick :: "int \<Rightarrow> (nat \<Rightarrow> recv_result) \<Rightarrow> uu_world \<Rightarrow> uu_world option" where
  "echoserver_tick clientfd peer w =
     (if 0 < clientfd
      then map_option (close_fd clientfd) (echo_loop peer clientfd 0 (log_msg (EchoAccept clientfd) w))
      else Some w)"

section \<open>Input: \<open>UU::ScanInput\<close>\<close>

text \<open>The touch position of libnds, two \<open>u16\<close> coordinates.\<close>

record raw_touch =
  tpx :: u16
  tpy :: u16

record uu_input =
  Down :: u32
  Repeat :: u32
  T :: raw_touch

text \<open>\<open>T.px = T.px * 5 / 4;\<close>: the \<open>u16\<close> is promoted to \<open>int\<close>, multiplied, divided and
  stored back into a \<open>u16\<close>.\<close>

definition scale_touch :: "u16 \<Rightarrow> u16" where
  "scale_touch p = word_of_int (uint p * 5 div 4)"

definition ScanInput :: "u32 \<Rightarrow> u32 \<Rightarrow> raw_touch \<Rightarrow> uu_input" where
  "ScanInput down rep t =
     \<lparr>Down = down, Repeat = rep, T = \<lparr>tpx = scale_touch (tpx t), tpy = scale_touch (tpy t)\<rparr>\<rparr>"

section \<open>Drawing: \<open>UU::Draw\<close> and \<open>UU::SwitchTopMode\<close>\<close>

datatype TopMode = Grid | List

record uu_ui =
  TMode :: TopMode
  store_valid :: bool
  store_title :: string

datatype draw_op =
  DrawTop | DrawTitle string | GridDraw | ListDraw | TabsDrawTop | UpdateFont bool | DrawBottom
| TabsDrawBottom | GridUpdate | ListUpdate | UpdateUniStoreSprites

definition UU_Draw :: "uu_ui \<Rightarrow> draw_op list" where
  "UU_Draw ui =
     [DrawTop] @
     (if store_valid ui
      then [DrawTitle (store_title ui), (case TMode ui of Grid \<Rightarrow> GridDraw | List \<Rightarrow> ListDraw), TabsDrawTop]
      else [DrawTitle ''Invalid UniStore'']) @
     [UpdateFont True, DrawBottom, TabsDrawBottom, UpdateFont False]"

definition SwitchTopMode :: "TopMode \<Rightarrow> uu_ui \<Rightarrow> uu_ui \<times> draw_op list" where
  "SwitchTopMode m ui =
     (ui\<lparr>TMode := m\<rparr>, [case m of Grid \<Rightarrow> GridUpdate | List \<Rightarrow> ListUpdate, UpdateUniStoreSprites])"

section \<open>The frame loop: \<open>UU::Handler\<close>\<close>

text \<open>\<open>memcpy(addr_bytes, &addr, 4)\<close> on the little-endian ARM9: the low byte first.\<close>

definition le_bytes :: "u32 \<Rightarrow> byte list" where
  "le_bytes a = map (\<lambda>k. ucast (drop_bit (8 * k) a)) [0..<4]"

text \<open>What one frame of the loop meets: the echo client (if \<open>accept\<close> gives one), the IP
  address \<open>DSiWifi_GetIP\<close> reports, and the keys \<open>keysDown\<close> reports.\<close>

record frame =
  f_client :: int
  f_peer :: "nat \<Rightarrow> recv_result"
  f_ip :: u32
  f_keys :: u32

definition hi_url :: string where
  "hi_url = ''https://home.pk11.us/files/hi.txt''"

definition hi_path :: string where
  "hi_path = ''sd:/hi.txt''"

text \<open>\<open>printf(\"%d\\n\", downloadToFile(...)); while(1) swiWaitForVBlank();\<close>\<close>

definition download_and_halt :: "dl_env \<Rightarrow> uu_world \<Rightarrow> outcome option" where
  "download_and_halt denv w =
     (case downloadToFile denv hi_url hi_path (dl w, fs w) of
        None \<Rightarrow> None
      | Some (Inl f) \<Rightarrow> Some (Crashed f)
      | Some (Inr (r, s, fs')) \<Rightarrow> Some (Halted (log_msg (PrintResult r) (w\<lparr>dl := s, fs := fs'\<rparr>))))"

text \<open>
  One pass of \<open>while (!this->Exiting)\<close> from the echo tick on; \<open>fr i\<close> is frame \<open>i\<close>.
  \<open>this->Exiting\<close> is not written in the loop, so it is tested once, by \<open>UU_Handler\<close>.
  \<open>break\<close> on START leaves the loop to \<open>CData->Sav(); return 0;\<close>.
\<close>

partial_function (option) handler_loop ::
  "dl_env \<Rightarrow> (nat \<Rightarrow> frame) \<Rightarrow> nat \<Rightarrow> uu_world \<Rightarrow> outcome option" where
  "handler_loop denv fr i w =
     (case echoserver_tick (f_client (fr i)) (f_peer (fr i)) w of
        None \<Rightarrow> None
      | Some w1 \<Rightarrow>
          (let bs = le_bytes (f_ip (fr i)); w2 = log_msg (CurIP bs) w1 in
           if bs ! 0 = 10 then download_and_halt denv w2
           else if held (f_keys (fr i)) KEY_START then Some (Returned 0 (w2\<lparr>saved := True\<rparr>))
           else handler_loop denv fr (Suc i)
                  (if held (f_keys (fr i)) KEY_B then log_msg (Msg ''asdf\<newline>'') w2 else w2)))"

definition UU_Handler ::
  "init_env \<Rightarrow> dl_env \<Rightarrow> string \<Rightarrow> bool \<Rightarrow> (nat \<Rightarrow> frame) \<Rightarrow> uu_world \<Rightarrow> outcome option" where
  "UU_Handler ie denv argv0 Exiting fr w =
     (case UU_Initialize ie argv0 w of
        Inl w' \<Rightarrow> Some (Halted w')
      | Inr w1 \<Rightarrow>
          (if Exiting then Some (Returned 0 (w1\<lparr>saved := True\<rparr>)) else handler_loop denv fr 0 w1))"

section \<open>Concrete worlds and inputs\<close>

text \<open>
  An empty world, a frame with no echo client, a client that sends the given chunks and
  closes, and a start-up in which everything succeeds (NitroFS at its second path).
\<close>

definition world0 :: uu_world where
  "world0 = \<lparr>console = [], rpc = [], dirs = [], fs = (\<lambda>_. None), dl = dl_reset, lSocket = None, closed = [],
             sent = [], saved = False\<rparr>"

definition quiet_frame :: "u32 \<Rightarrow> u32 \<Rightarrow> frame" where
  "quiet_frame ip keys = \<lparr>f_client = 0, f_peer = (\<lambda>_. Closed), f_ip = ip, f_keys = keys\<rparr>"

definition echo_peer :: "byte list list \<Rightarrow> nat \<Rightarrow> recv_result" where
  "echo_peer cs j = (if j < length cs then Received (cs ! j) else Closed)"

definition init_ok_env :: init_env where
  "init_ok_env = \<lparr>fat_ok = True, nitro_ok = (\<lambda>p. p = ''Universal-Updater.nds''), socket_ret = 3,
                  bind_ok = True, listen_ok = True\<rparr>"

section \<open>Properties\<close>

subsection \<open>World updates and the echo loop\<close>

lemma log_msg_fields [simp]:
  "sent (log_msg m w) = sent w" "closed (log_msg m w) = closed w" "fs (log_msg m w) = fs w"
  "dl (log_msg m w) = dl w" "saved (log_msg m w) = saved w" "dirs (log_msg m w) = dirs w"
  "lSocket (log_msg m w) = lSocket w" "console (log_msg m w) = console w @ [m]"
  by (simp_all add: log_msg_def)

lemma close_fd_fields [simp]:
  "sent (close_fd fd w) = sent w" "closed (close_fd fd w) = closed w @ [fd]" "fs (close_fd fd w) = fs w"
  "dl (close_fd fd w) = dl w" "saved (close_fd fd w) = saved w" "console (close_fd fd w) = console w"
  "dirs (close_fd fd w) = dirs w" "lSocket (close_fd fd w) = lSocket w"
  by (simp_all add: close_fd_def)

lemma recv_call_pos:
  "0 < fst (recv_call r) \<longleftrightarrow> (\<exists>bs. r = Received bs \<and> bs \<noteq> [])"
  by (cases r) (auto simp: recv_call_def)

lemma echo_loop_step:
  "recv_call (peer i) = (n, buf) \<Longrightarrow>
   echo_loop peer fd i w =
     (if 0 < n then echo_loop peer fd (Suc i) ((log_msg (EchoGot n) w)\<lparr>sent := sent w @ [(fd, buf)]\<rparr>)
      else Some (log_msg (EchoGot n) w))"
  by (subst echo_loop.simps) (simp add: Let_def)

lemma echo_loop_ends:
  "fst (recv_call (peer (i + n))) \<le> 0 \<Longrightarrow> \<exists>w'. echo_loop peer fd i w = Some w'"
proof (induction n arbitrary: i w)
  case 0
  then show ?case by (cases "recv_call (peer i)") (simp add: echo_loop_step)
next
  case (Suc n)
  then show ?case
    by (cases "recv_call (peer i)") (simp add: echo_loop_step)
qed

lemma echo_loop_sends:
  assumes "\<forall>j<length cs. peer (i + j) = Received (cs ! j)" "\<forall>c\<in>set cs. c \<noteq> [] \<and> length c \<le> 256"
    "fst (recv_call (peer (i + length cs))) \<le> 0"
  shows "echo_loop peer fd i w =
           Some ((log_msg (EchoGot (fst (recv_call (peer (i + length cs)))))
                   (w\<lparr>console := console w @ map (\<lambda>c. EchoGot (int (length c))) cs\<rparr>))
                 \<lparr>sent := sent w @ map (Pair fd) cs\<rparr>)"
  using assms
proof (induction cs arbitrary: i w)
  case Nil
  then show ?case
    by (cases "recv_call (peer i)") (simp add: echo_loop_step log_msg_def)
next
  case (Cons c cs)
  have p: "peer i = Received c" using Cons.prems(1) by (metis add_0_right length_greater_0_conv list.discI nth_Cons_0)
  have r: "recv_call (peer i) = (int (length c), c)" using p Cons.prems(2) by (simp add: recv_call_def)
  have "\<forall>j<length cs. peer (Suc i + j) = Received (cs ! j)" using Cons.prems(1) by auto
  moreover have "fst (recv_call (peer (Suc i + length cs))) \<le> 0" using Cons.prems(3) by simp
  ultimately show ?case using Cons.IH [of "Suc i"] Cons.prems(2) r
    by (simp add: echo_loop_step log_msg_def)
qed

lemma echo_loop_partial:
  assumes "echo_loop peer fd i w = Some r"
  shows "\<exists>j\<ge>i. fst (recv_call (peer j)) \<le> 0"
proof (rule echo_loop.raw_induct [where P = "\<lambda>peer fd i w r. \<exists>j\<ge>i. fst (recv_call (peer j)) \<le> 0", OF _ assms])
  fix f and peer :: "nat \<Rightarrow> recv_result" and fd :: int and i :: nat and w r :: uu_world
  assume IH: "\<And>peer fd i w r. f peer fd i w = Some r \<Longrightarrow> \<exists>j\<ge>i. fst (recv_call (peer j)) \<le> 0"
    and eq: "(let (nbytes, buf) = recv_call (peer i);
          w1 = log_msg (EchoGot nbytes) w;
          w2 = (if 0 < nbytes then w1\<lparr>sent := sent w1 @ [(fd, buf)]\<rparr> else w1)
      in if 0 < nbytes then f peer fd (Suc i) w2 else Some w2) = Some r"
  show "\<exists>j\<ge>i. fst (recv_call (peer j)) \<le> 0"
  proof (cases "0 < fst (recv_call (peer i))")
    case True
    with eq obtain w2 where "f peer fd (Suc i) w2 = Some r"
      by (cases "recv_call (peer i)") (simp add: Let_def)
    from IH [OF this] show ?thesis by (auto dest: Suc_leD)
  next
    case False
    then show ?thesis by auto
  qed
qed

lemma echo_loop_diverges:
  assumes "\<forall>j\<ge>i. 0 < fst (recv_call (peer j))"
  shows "echo_loop peer fd i w = None"
  using assms echo_loop_partial [of peer fd i w] by (cases "echo_loop peer fd i w") force+

lemma echo_loop_frame:
  assumes "echo_loop peer fd i w = Some r"
  shows "fs r = fs w \<and> dl r = dl w \<and> saved r = saved w \<and> lSocket r = lSocket w \<and> dirs r = dirs w"
proof (rule echo_loop.raw_induct [where P = "\<lambda>peer fd i w r. fs r = fs w \<and> dl r = dl w \<and> saved r = saved w \<and> lSocket r = lSocket w \<and> dirs r = dirs w", OF _ assms])
  fix f and peer :: "nat \<Rightarrow> recv_result" and fd :: int and i :: nat and w r :: uu_world
  assume IH: "\<And>peer fd i w r. f peer fd i w = Some r \<Longrightarrow> fs r = fs w \<and> dl r = dl w \<and> saved r = saved w \<and> lSocket r = lSocket w \<and> dirs r = dirs w"
    and eq: "(let (nbytes, buf) = recv_call (peer i);
          w1 = log_msg (EchoGot nbytes) w;
          w2 = (if 0 < nbytes then w1\<lparr>sent := sent w1 @ [(fd, buf)]\<rparr> else w1)
      in if 0 < nbytes then f peer fd (Suc i) w2 else Some w2) = Some r"
  show "fs r = fs w \<and> dl r = dl w \<and> saved r = saved w \<and> lSocket r = lSocket w \<and> dirs r = dirs w"
  proof (cases "0 < fst (recv_call (peer i))")
    case True
    with eq obtain n buf where "f peer fd (Suc i) ((log_msg (EchoGot n) w)\<lparr>sent := sent w @ [(fd, buf)]\<rparr>) = Some r"
      by (cases "recv_call (peer i)") (simp add: Let_def)
    from IH [OF this] show ?thesis by simp
  next
    case False
    with eq show ?thesis by (cases "recv_call (peer i)") (auto simp: Let_def)
  qed
qed

lemma tick_ends:
  assumes "clientfd \<le> 0 \<or> (\<exists>n. fst (recv_call (peer n)) \<le> 0)"
  shows "\<exists>w1. echoserver_tick clientfd peer w = Some w1 \<and> fs w1 = fs w \<and> dl w1 = dl w
           \<and> saved w1 = saved w \<and> lSocket w1 = lSocket w \<and> dirs w1 = dirs w"
proof (cases "0 < clientfd")
  case True
  with assms obtain n where "fst (recv_call (peer (0 + n))) \<le> 0" by auto
  from echo_loop_ends [of peer 0 n, OF this] obtain r where r: "echo_loop peer clientfd 0 (log_msg (EchoAccept clientfd) w) = Some r" by blast
  from echo_loop_frame [OF r] True r show ?thesis by (simp add: echoserver_tick_def)
qed (simp add: echoserver_tick_def)

subsection \<open>Start-up\<close>

lemma initialize_frame:
  "UU_Initialize ie a w = Inr w1 \<Longrightarrow> fs w1 = fs w \<and> dl w1 = dl w \<and> saved w1 = saved w"
  by (auto simp: UU_Initialize_def appwifi_echoserver_def Let_def split: if_splits)

subsection \<open>Touch scaling and address bytes\<close>

lemma scale_touch_unat: "unat (scale_touch p) = unat p * 5 div 4 mod 65536"
proof -
  have a: "uint (scale_touch p) = (uint p * 5 div 4) mod 65536"
    by (simp add: scale_touch_def uint_word_of_int_eq take_bit_eq_mod)
  have b: "uint p * 5 div 4 = int (unat p * 5 div 4)"
    by (simp add: zdiv_int)
  have "unat (scale_touch p) = nat (uint (scale_touch p))" by (rule unat_eq_nat_uint)
  also have "\<dots> = nat (int (unat p * 5 div 4) mod 65536)" by (simp only: a b)
  also have "\<dots> = unat p * 5 div 4 mod 65536" by (metis nat_int of_nat_mod of_nat_numeral)
  finally show ?thesis .
qed

lemma first_byte_test: "le_bytes a ! 0 = 10 \<longleftrightarrow> take_bit 8 a = 10"
proof -
  have "le_bytes a ! 0 = ucast a" by (simp add: le_bytes_def)
  moreover have "(ucast a = (10 :: byte)) \<longleftrightarrow> take_bit 8 a = 10"
  proof
    assume "ucast a = (10 :: byte)"
    then have "unat (ucast a :: byte) = 10" by simp
    then have "unat a mod 256 = 10" by (simp add: unsigned_ucast_eq take_bit_eq_mod)
    then show "take_bit 8 a = 10" by (simp add: word_unat_eq_iff take_bit_eq_mod unat_mod)
  next
    assume "take_bit 8 a = 10"
    then have "unat (take_bit 8 a) = 10" by simp
    then have "unat a mod 256 = 10" by (simp add: take_bit_eq_mod unat_mod)
    then show "ucast a = (10 :: byte)" by (simp add: word_unat_eq_iff unsigned_ucast_eq take_bit_eq_mod)
  qed
  ultimately show ?thesis by simp
qed

text \<open>Every coordinate below the last two of the 320 by 240 scaled screen is reached, up to one
  pixel, by a raw coordinate below \<open>lim\<close>: the scaling skips every fifth value.\<close>

lemma scale_touch_hits:
  assumes "0 \<le> q" "q + 1 < 5 * int lim div 4" "1 \<le> w" "lim \<le> 256"
  shows "\<exists>p::u16. unat p < lim \<and> q \<le> uint (scale_touch p) \<and> uint (scale_touch p) \<le> q + w"
proof -
  define k where "k = (4 * nat q + 4) div 5"
  have kl: "k < lim" using assms unfolding k_def by linarith
  have u: "unat (word_of_nat k :: u16) = k" using kl assms(4) by (simp add: unat_of_nat take_bit_nat_eq_self)
  have s: "uint (scale_touch (word_of_nat k)) = int (k * 5 div 4)"
    using scale_touch_unat [of "word_of_nat k :: u16"] u kl assms(4) by (simp add: uint_nat)
  have "nat q \<le> k * 5 div 4" "k * 5 div 4 \<le> nat q + 1" unfolding k_def by linarith+
  with s kl u assms(1,3) show ?thesis by (intro exI [of _ "word_of_nat k"]) auto
qed

subsection \<open>The frame loop\<close>

lemma handler_loop_step:
  "echoserver_tick (f_client (fr i)) (f_peer (fr i)) w = Some w1 \<Longrightarrow>
   handler_loop denv fr i w =
     (let bs = le_bytes (f_ip (fr i)); w2 = log_msg (CurIP bs) w1 in
      if bs ! 0 = 10 then download_and_halt denv w2
      else if held (f_keys (fr i)) KEY_START then Some (Returned 0 (w2\<lparr>saved := True\<rparr>))
      else handler_loop denv fr (Suc i)
             (if held (f_keys (fr i)) KEY_B then log_msg (Msg ''asdf\<newline>'') w2 else w2))"
  by (subst handler_loop.simps) simp

lemma all_le_shift: "\<forall>j\<le>Suc k. P (i + j) \<Longrightarrow> \<forall>j\<le>k. P (Suc i + j)"
proof (intro allI impI)
  fix j assume "\<forall>j\<le>Suc k. P (i + j)" "j \<le> k"
  then show "P (Suc i + j)" by (metis Suc_le_mono add_Suc_shift)
qed

lemma all_less_shift: "\<forall>j<Suc k. P (i + j) \<Longrightarrow> \<forall>j<k. P (Suc i + j)"
proof (intro allI impI)
  fix j assume "\<forall>j<Suc k. P (i + j)" "j < k"
  then show "P (Suc i + j)" by (metis Suc_less_eq add_Suc_shift)
qed

lemma handler_loop_partial:
  assumes "handler_loop denv fr i w = Some r"
  shows "\<exists>j\<ge>i. le_bytes (f_ip (fr j)) ! 0 = 10 \<or> held (f_keys (fr j)) KEY_START"
proof (rule handler_loop.raw_induct [where P = "\<lambda>denv fr i w r. \<exists>j\<ge>i. le_bytes (f_ip (fr j)) ! 0 = 10 \<or> held (f_keys (fr j)) KEY_START", OF _ assms])
  fix f and denv :: dl_env and fr :: "nat \<Rightarrow> frame" and i :: nat and w :: uu_world and r :: outcome
  assume IH: "\<And>denv fr i w r. f denv fr i w = Some r \<Longrightarrow> \<exists>j\<ge>i. le_bytes (f_ip (fr j)) ! 0 = 10 \<or> held (f_keys (fr j)) KEY_START"
    and eq: "(case echoserver_tick (f_client (fr i)) (f_peer (fr i)) w of
        None \<Rightarrow> None
      | Some w1 \<Rightarrow>
          (let bs = le_bytes (f_ip (fr i)); w2 = log_msg (CurIP bs) w1 in
           if bs ! 0 = 10 then download_and_halt denv w2
           else if held (f_keys (fr i)) KEY_START then Some (Returned 0 (w2\<lparr>saved := True\<rparr>))
           else f denv fr (Suc i)
                  (if held (f_keys (fr i)) KEY_B then log_msg (Msg ''asdf\<newline>'') w2 else w2))) = Some r"
  show "\<exists>j\<ge>i. le_bytes (f_ip (fr j)) ! 0 = 10 \<or> held (f_keys (fr j)) KEY_START"
  proof (cases "le_bytes (f_ip (fr i)) ! 0 = 10 \<or> held (f_keys (fr i)) KEY_START")
    case True
    then show ?thesis by auto
  next
    case False
    with eq obtain w' where "f denv fr (Suc i) w' = Some r"
      by (auto simp: Let_def split: option.splits)
    from IH [OF this] show ?thesis by (auto dest: Suc_leD)
  qed
qed

lemma download_and_halt_ok:
  assumes "dl_inv (dl w)" "unat (Result_Written (dl w)) + length (concat (body_chunks (dl_web denv hi_url))) \<le> 2 ^ 31"
    "dl_heap denv = unbounded_heap"
  shows "\<exists>w'. download_and_halt denv w = Some (Halted w')
           \<and> fs w' = (if transfer_ok (dl_web denv hi_url)
                      then (if dl_can_open denv hi_path then (fs w)(hi_path \<mapsto> dl_contents (dl w) @ concat (body_chunks (dl_web denv hi_url))) else fs w)
                      else fs w)
           \<and> console w' = console w @ [PrintResult (if transfer_ok (dl_web denv hi_url) then 0 else -1)]
           \<and> dl w' = dl_reset \<and> saved w' = saved w"
proof -
  obtain s' where s': "curl_write_all unbounded_heap (body_chunks (dl_web denv hi_url)) (dl w) = Some (Inr (CURLE_OK, s'))"
    "dl_contents s' = dl_contents (dl w) @ concat (body_chunks (dl_web denv hi_url))"
    using curl_write_all_appends [OF assms(1,2)] by blast
  then show ?thesis using assms(3)
    by (simp add: download_and_halt_def downloadToFile_eq log_msg_def)
qed

lemma concat_map_upt_Suc:
  "concat (map g [0..<Suc k]) = g 0 @ concat (map (\<lambda>j. g (Suc j)) [0..<k])"
  by (induction k) auto

subsection \<open>Where the handler can return\<close>

text \<open>The idle loop never returns, so \<open>Halted\<close> is final.\<close>

lemma vblank_forever_None: "vblank_forever n = None"
proof (rule ccontr)
  assume "vblank_forever n \<noteq> None"
  then obtain r where r: "vblank_forever n = Some r" by blast
  show False
    by (rule vblank_forever.raw_induct [where P = "\<lambda>_ _. False", OF _ r]) blast
qed

lemma tick_frame:
  "echoserver_tick c peer w = Some w1 \<Longrightarrow> lSocket w1 = lSocket w \<and> dirs w1 = dirs w \<and> saved w1 = saved w"
  by (auto simp: echoserver_tick_def dest!: echo_loop_frame split: if_splits)

lemma download_and_halt_not_returned: "download_and_halt denv w \<noteq> Some (Returned r w')"
  by (auto simp: download_and_halt_def split: option.splits sum.splits)

lemma handler_loop_returned:
  assumes "handler_loop denv fr i w = Some res"
  shows "\<forall>r w'. res = Returned r w' \<longrightarrow> r = 0 \<and> saved w' \<and> lSocket w' = lSocket w \<and> dirs w' = dirs w"
proof (rule handler_loop.raw_induct [where P = "\<lambda>denv fr i w res. \<forall>r w'. res = Returned r w' \<longrightarrow> r = 0 \<and> saved w' \<and> lSocket w' = lSocket w \<and> dirs w' = dirs w", OF _ assms])
  fix f and denv :: dl_env and fr :: "nat \<Rightarrow> frame" and i :: nat and w :: uu_world and res :: outcome
  assume IH: "\<And>denv fr i w res. f denv fr i w = Some res \<Longrightarrow> \<forall>r w'. res = Returned r w' \<longrightarrow> r = 0 \<and> saved w' \<and> lSocket w' = lSocket w \<and> dirs w' = dirs w"
    and eq: "(case echoserver_tick (f_client (fr i)) (f_peer (fr i)) w of
        None \<Rightarrow> None
      | Some w1 \<Rightarrow>
          (let bs = le_bytes (f_ip (fr i)); w2 = log_msg (CurIP bs) w1 in
           if bs ! 0 = 10 then download_and_halt denv w2
           else if held (f_keys (fr i)) KEY_START then Some (Returned 0 (w2\<lparr>saved := True\<rparr>))
           else f denv fr (Suc i)
                  (if held (f_keys (fr i)) KEY_B then log_msg (Msg ''asdf\<newline>'') w2 else w2))) = Some res"
  show "\<forall>r w'. res = Returned r w' \<longrightarrow> r = 0 \<and> saved w' \<and> lSocket w' = lSocket w \<and> dirs w' = dirs w"
  proof (intro allI impI)
    fix r w' assume res: "res = Returned r w'"
    from eq obtain w1 where t: "echoserver_tick (f_client (fr i)) (f_peer (fr i)) w = Some w1"
      by (auto split: option.splits)
    let ?w2 = "log_msg (CurIP (le_bytes (f_ip (fr i)))) w1"
    let ?w3 = "if held (f_keys (fr i)) KEY_B then log_msg (Msg ''asdf\<newline>'') ?w2 else ?w2"
    have e2: "(if le_bytes (f_ip (fr i)) ! 0 = 10 then download_and_halt denv ?w2
           else if held (f_keys (fr i)) KEY_START then Some (Returned 0 (?w2\<lparr>saved := True\<rparr>))
           else f denv fr (Suc i) ?w3) = Some (Returned r w')"
      using eq t res by (simp add: Let_def)
    have fw: "lSocket ?w3 = lSocket w \<and> dirs ?w3 = dirs w" using tick_frame [OF t] by simp
    show "r = 0 \<and> saved w' \<and> lSocket w' = lSocket w \<and> dirs w' = dirs w"
    proof (cases "le_bytes (f_ip (fr i)) ! 0 = 10")
      case True
      with e2 download_and_halt_not_returned show ?thesis by auto
    next
      case False
      show ?thesis
      proof (cases "held (f_keys (fr i)) KEY_START")
        case True
        with False e2 tick_frame [OF t] show ?thesis by auto
      next
        case st: False
        with False e2 have "f denv fr (Suc i) ?w3 = Some (Returned r w')" by simp
        from IH [OF this] fw show ?thesis by simp
      qed
    qed
  qed
qed

lemma initialize_Inr:
  "UU_Initialize ie a w = Inr w1 \<Longrightarrow> lSocket w1 = Some (socket_ret ie) \<and> dirs w1 = dirs w @ uu_dirs"
  by (auto simp: UU_Initialize_def appwifi_echoserver_def Let_def split: if_splits)

subsection \<open>Claims about the front end\<close>

text \<open>
  C22. The frame loop of \<open>UU::Handler\<close> returns 0 after \<open>CData->Sav()\<close> in the first frame in which START is pressed, provided every echo client up to then eventually stops sending and no earlier frame saw an address \<open>10.x.x.x\<close>; files, download buffer and listening socket are untouched.
\<close>

theorem handler_returns_on_start:
  assumes "\<forall>j\<le>k. f_client (fr (i + j)) \<le> 0 \<or> (\<exists>n. fst (recv_call (f_peer (fr (i + j)) n)) \<le> 0)"
    "\<forall>j<k. le_bytes (f_ip (fr (i + j))) ! 0 \<noteq> 10 \<and> \<not> held (f_keys (fr (i + j))) KEY_START"
    "le_bytes (f_ip (fr (i + k))) ! 0 \<noteq> 10" "held (f_keys (fr (i + k))) KEY_START"
  shows "\<exists>w'. handler_loop denv fr i w = Some (Returned 0 w') \<and> saved w'
           \<and> fs w' = fs w \<and> dl w' = dl w \<and> lSocket w' = lSocket w"
  using assms
proof (induction k arbitrary: i w)
  case 0
  from tick_ends [of "f_client (fr i)" "f_peer (fr i)" w] 0 obtain w1 where
    "echoserver_tick (f_client (fr i)) (f_peer (fr i)) w = Some w1" "fs w1 = fs w" "dl w1 = dl w" "lSocket w1 = lSocket w"
    by auto
  with 0 show ?case by (simp add: handler_loop_step Let_def)
next
  case (Suc k)
  from tick_ends [of "f_client (fr i)" "f_peer (fr i)" w] Suc.prems(1) obtain w1 where
    t: "echoserver_tick (f_client (fr i)) (f_peer (fr i)) w = Some w1" "fs w1 = fs w" "dl w1 = dl w" "lSocket w1 = lSocket w"
    by (metis add_0_right zero_le)
  from Suc.prems(2) have n: "le_bytes (f_ip (fr i)) ! 0 \<noteq> 10" "\<not> held (f_keys (fr i)) KEY_START" by auto
  let ?w2 = "log_msg (CurIP (le_bytes (f_ip (fr i)))) w1"
  let ?w3 = "if held (f_keys (fr i)) KEY_B then log_msg (Msg ''asdf\<newline>'') ?w2 else ?w2"
  have "\<exists>w'. handler_loop denv fr (Suc i) ?w3 = Some (Returned 0 w') \<and> saved w'
           \<and> fs w' = fs ?w3 \<and> dl w' = dl ?w3 \<and> lSocket w' = lSocket ?w3"
    using Suc.IH [OF all_le_shift [OF Suc.prems(1)] all_less_shift [OF Suc.prems(2)]] Suc.prems(3,4)
    by simp
  with t n show ?case by (cases "held (f_keys (fr i)) KEY_B") (simp_all add: handler_loop_step Let_def)
qed

text \<open>
  C23. If START is never pressed and the address never starts with 10, the frame loop never returns (and the configuration is never saved).
\<close>

theorem handler_runs_forever:
  assumes "\<forall>j\<ge>i. le_bytes (f_ip (fr j)) ! 0 \<noteq> 10 \<and> \<not> held (f_keys (fr j)) KEY_START"
  shows "handler_loop denv fr i w = None"
  using assms handler_loop_partial [of denv fr i w] by (cases "handler_loop denv fr i w") force+

text \<open>
  C24. An echo client that sends non-empty chunks of at most 256 bytes and then closes gets every chunk sent back, in order, on its own socket, which is then closed: the bytes sent equal the bytes received.
\<close>

theorem echo_tick_roundtrip:
  assumes "0 < c" "\<forall>j<length cs. peer j = Received (cs ! j)" "\<forall>x\<in>set cs. x \<noteq> [] \<and> length x \<le> 256"
    "fst (recv_call (peer (length cs))) \<le> 0"
  shows "\<exists>w'. echoserver_tick c peer w = Some w' \<and> sent w' = sent w @ map (Pair c) cs
           \<and> concat (map snd (drop (length (sent w)) (sent w'))) = concat cs \<and> closed w' = closed w @ [c]"
  using echo_loop_sends [of cs peer 0, OF _ assms(3)] assms(1,2,4)
  by (simp add: echoserver_tick_def comp_def)

text \<open>
  C25. A client that never stops sending keeps \<open>appwifi_echoserver_tick\<close> in its receive loop forever: the frame never ends.
\<close>

theorem echo_tick_diverges:
  assumes "0 < c" "\<forall>j. \<exists>bs. peer j = Received bs \<and> bs \<noteq> []"
  shows "echoserver_tick c peer w = None"
proof -
  have "\<forall>j\<ge>0. 0 < fst (recv_call (peer j))" using assms(2) recv_call_pos by blast
  with assms(1) show ?thesis by (simp add: echoserver_tick_def echo_loop_diverges)
qed

text \<open>
  C26. \<open>UU::Initialize\<close> returns exactly when FAT mounts, NitroFS mounts at one of its three paths, and the echo server gets a socket that binds and listens; every other path ends in the idle loop.
\<close>

lemma initialize_returns_iff:
  "(\<exists>w'. UU_Initialize ie a w = Inr w') \<longleftrightarrow>
     fat_ok ie \<and> (\<exists>p\<in>set (nitro_paths a). nitro_ok ie p) \<and> 0 \<le> socket_ret ie \<and> bind_ok ie \<and> listen_ok ie"
  by (auto simp: UU_Initialize_def appwifi_echoserver_def list_ex_iff Let_def)

text \<open>
  C27. When start-up succeeds it creates exactly the four directories of lines 142--145, in that
  order, each after its parent, leaves the echo server listening on the socket it opened, and
  changes nothing else.
\<close>

theorem initialize_ok:
  assumes "fat_ok ie" "nitro_ok ie p" "p \<in> set (nitro_paths a)" "0 \<le> socket_ret ie" "bind_ok ie" "listen_ok ie"
  shows "\<exists>w'. UU_Initialize ie a w = Inr w'
           \<and> dirs w' = dirs w @ [''/_nds'', ''/_nds/Universal-Updater'',
                 ''/_nds/Universal-Updater/stores'', ''/_nds/Universal-Updater/shortcuts'']
           \<and> parents_first [] (drop (length (dirs w)) (dirs w'))
           \<and> w' = w\<lparr>dirs := dirs w', lSocket := Some (socket_ret ie)\<rparr>"
proof -
  have "UU_Initialize ie a w = Inr (w\<lparr>dirs := dirs w @ uu_dirs, lSocket := Some (socket_ret ie)\<rparr>)"
    using assms by (auto simp: UU_Initialize_def appwifi_echoserver_def list_ex_iff Let_def)
  then show ?thesis by (simp add: uu_dirs_def dir_parent_def)
qed

text \<open>
  C28. When the echo server set-up fails it closes the socket exactly when one was opened, prints its message, and is not listening.
\<close>

lemma echoserver_fail_closes:
  "appwifi_echoserver ie w = Inl w' \<Longrightarrow>
   closed w' = closed w @ (if 0 \<le> socket_ret ie then [socket_ret ie] else []) \<and>
   console w' = console w @ [Msg ''not sure what happened\<newline>''] \<and> lSocket w' = lSocket w"
  unfolding appwifi_echoserver_def Let_def echo_fail_def
  by (cases "socket_ret ie < 0"; cases "bind_ok ie"; cases "listen_ok ie") auto

text \<open>
  C29. \<open>UU::ScanInput\<close> scales a touch on the 256 x 192 screen by 5/4 without wrapping the \<open>u16\<close>, into the 320 x 240 space the menus use.
\<close>

theorem scan_input_bounds:
  assumes "unat (tpx t) < 256" "unat (tpy t) < 192"
  shows "unat (tpx (T (ScanInput d r t))) = unat (tpx t) * 5 div 4 \<and> unat (tpx (T (ScanInput d r t))) < 320
       \<and> unat (tpy (T (ScanInput d r t))) = unat (tpy t) * 5 div 4 \<and> unat (tpy (T (ScanInput d r t))) < 240"
  using assms by (simp add: ScanInput_def scale_touch_unat div_less_iff_less_mult)

text \<open>
  C31. Over frames without echo clients, up to the first frame with START and no address
  \<open>10.x.x.x\<close>, the frame loop's console output is, frame by frame, the address bytes in
  \<open>memcpy\<close> order followed by \<open>asdf\<close> when B is pressed, and finally the address of the
  START frame; then it returns 0.
\<close>

theorem handler_console_trace:
  assumes "\<forall>j\<le>k. f_client (fr (i + j)) \<le> 0"
    "\<forall>j<k. le_bytes (f_ip (fr (i + j))) ! 0 \<noteq> 10 \<and> \<not> held (f_keys (fr (i + j))) KEY_START"
    "le_bytes (f_ip (fr (i + k))) ! 0 \<noteq> 10" "held (f_keys (fr (i + k))) KEY_START"
  shows "\<exists>w'. handler_loop denv fr i w = Some (Returned 0 w')
           \<and> console w' = console w
               @ concat (map (\<lambda>j. CurIP (le_bytes (f_ip (fr (i + j))))
                                  # (if held (f_keys (fr (i + j))) KEY_B then [Msg ''asdf\<newline>''] else [])) [0..<k])
               @ [CurIP (le_bytes (f_ip (fr (i + k))))]"
  using assms
proof (induction k arbitrary: i w)
  case 0
  then have "echoserver_tick (f_client (fr i)) (f_peer (fr i)) w = Some w"
    by (simp add: echoserver_tick_def)
  with 0 show ?case by (simp add: handler_loop_step Let_def log_msg_def)
next
  case (Suc k)
  have t: "echoserver_tick (f_client (fr i)) (f_peer (fr i)) w = Some w"
    using Suc.prems(1) by (metis add_0_right echoserver_tick_def not_less zero_le)
  from Suc.prems(2) have n: "le_bytes (f_ip (fr i)) ! 0 \<noteq> 10" "\<not> held (f_keys (fr i)) KEY_START" by auto
  let ?w2 = "log_msg (CurIP (le_bytes (f_ip (fr i)))) w"
  let ?w3 = "if held (f_keys (fr i)) KEY_B then log_msg (Msg ''asdf\<newline>'') ?w2 else ?w2"
  have ih: "\<exists>w'. handler_loop denv fr (Suc i) ?w3 = Some (Returned 0 w')
           \<and> console w' = console ?w3
               @ concat (map (\<lambda>j. CurIP (le_bytes (f_ip (fr (Suc i + j))))
                                  # (if held (f_keys (fr (Suc i + j))) KEY_B then [Msg ''asdf\<newline>''] else [])) [0..<k])
               @ [CurIP (le_bytes (f_ip (fr (Suc i + k))))]"
    using Suc.IH [OF all_le_shift [OF Suc.prems(1)] all_less_shift [OF Suc.prems(2)]] Suc.prems(3,4)
    by simp
  have step: "handler_loop denv fr i w = handler_loop denv fr (Suc i) ?w3"
    using t n by (simp add: handler_loop_step Let_def)
  show ?case
    using ih unfolding step concat_map_upt_Suc
    by (cases "held (f_keys (fr i)) KEY_B") (simp_all add: log_msg_def)
qed

text \<open>
  C32. After \<open>SwitchTopMode\<close>, \<open>UU::Draw\<close> draws exactly the chosen top view below the store title when the store is valid, and neither view, with the title \<open>Invalid UniStore\<close>, otherwise.
\<close>

theorem draw_top_mode:
  "filter (\<lambda>op. op = GridDraw \<or> op = ListDraw) (UU_Draw (fst (SwitchTopMode m ui)))
     = (if store_valid ui then [case m of Grid \<Rightarrow> GridDraw | List \<Rightarrow> ListDraw] else [])
   \<and> DrawTitle (if store_valid ui then store_title ui else ''Invalid UniStore'') \<in> set (UU_Draw (fst (SwitchTopMode m ui)))"
  by (cases m) (simp_all add: UU_Draw_def SwitchTopMode_def)

text \<open>
  C33. Every normal return of \<open>UU::Handler\<close> comes after a successful start-up and saves
  the configuration: it returns 0, \<open>CData->Sav()\<close> has run, the echo server's socket is
  the one start-up opened, and the four directories have been created.
\<close>

theorem handler_return_saves:
  assumes "UU_Handler ie denv a Exiting fr w = Some (Returned r w')"
  shows "r = 0 \<and> saved w' \<and> lSocket w' = Some (socket_ret ie) \<and> dirs w' = dirs w @ uu_dirs"
proof (cases "UU_Initialize ie a w")
  case (Inl w0)
  with assms show ?thesis by (simp add: UU_Handler_def)
next
  case (Inr w1)
  note i = initialize_Inr [OF Inr]
  show ?thesis
  proof (cases Exiting)
    case True
    with assms Inr i show ?thesis by (auto simp: UU_Handler_def)
  next
    case False
    with assms Inr have "handler_loop denv fr 0 w1 = Some (Returned r w')" by (simp add: UU_Handler_def)
    from handler_loop_returned [OF this] i show ?thesis by simp
  qed
qed

subsection \<open>Witnesses\<close>

theorem echo_tick_roundtrip_witness:
  "\<exists>w'. echoserver_tick 5 (echo_peer [[1, 2, 3], [4]]) world0 = Some w'
     \<and> sent w' = [(5, [1, 2, 3]), (5, [4])] \<and> concat (map snd (sent w')) = [1, 2, 3, 4] \<and> closed w' = [5]"
  using echo_tick_roundtrip [of 5 "[[1, 2, 3], [4]]" "echo_peer [[1, 2, 3], [4]]" world0]
  by (simp add: echo_peer_def world0_def recv_call_def less_Suc_eq)

theorem echo_tick_diverges_witness:
  "echoserver_tick 5 (\<lambda>_. Received [7]) world0 = None"
  using echo_tick_diverges [of 5 "\<lambda>_. Received [7]" world0] by simp

theorem handler_returns_on_start_witness:
  "\<exists>w'. handler_loop (demo_env True unbounded_heap True) (\<lambda>_. quiet_frame 0 (keys_of [KEY_START])) 0 world0 = Some (Returned 0 w') \<and> saved w'
      \<and> fs w' = fs world0 \<and> dl w' = dl world0 \<and> lSocket w' = lSocket world0"
  using handler_returns_on_start [of 0 "\<lambda>_. quiet_frame 0 (keys_of [KEY_START])" 0 "demo_env True unbounded_heap True" world0]
  by (simp add: quiet_frame_def le_bytes_def)

theorem handler_runs_forever_witness:
  "handler_loop (demo_env True unbounded_heap True) (\<lambda>_. quiet_frame 0 0) 0 world0 = None"
  using handler_runs_forever [of 0 "\<lambda>_. quiet_frame 0 0" "demo_env True unbounded_heap True" world0]
  by (simp add: quiet_frame_def le_bytes_def held_def)

theorem initialize_returns_iff_witness:
  "\<exists>w'. UU_Initialize init_ok_env ''fat:/boot.nds'' world0 = Inr w'"
  using initialize_returns_iff [of init_ok_env "''fat:/boot.nds''" world0]
  by (simp add: init_ok_env_def nitro_paths_def)

theorem initialize_ok_witness:
  "\<exists>w'. UU_Initialize init_ok_env ''fat:/boot.nds'' world0 = Inr w'
     \<and> dirs w' = [''/_nds'', ''/_nds/Universal-Updater'', ''/_nds/Universal-Updater/stores'',
                   ''/_nds/Universal-Updater/shortcuts'']
     \<and> parents_first [] (dirs w') \<and> w' = world0\<lparr>dirs := dirs w', lSocket := Some 3\<rparr>"
  using initialize_ok [of init_ok_env "''Universal-Updater.nds''" "''fat:/boot.nds''" world0]
  by (simp add: init_ok_env_def nitro_paths_def world0_def)

theorem echoserver_fail_closes_witness:
  "closed (projl (appwifi_echoserver (init_ok_env\<lparr>bind_ok := False\<rparr>) world0)) = [3]"
proof -
  have "appwifi_echoserver (init_ok_env\<lparr>bind_ok := False\<rparr>) world0
          = Inl (projl (appwifi_echoserver (init_ok_env\<lparr>bind_ok := False\<rparr>) world0))"
    by (simp add: appwifi_echoserver_def init_ok_env_def)
  from echoserver_fail_closes [OF this] show ?thesis by (simp add: init_ok_env_def world0_def)
qed

theorem scan_input_bounds_witness:
  "unat (tpx (T (ScanInput 0 0 \<lparr>tpx = 255, tpy = 191\<rparr>))) = 318 \<and> unat (tpy (T (ScanInput 0 0 \<lparr>tpx = 255, tpy = 191\<rparr>))) = 238"
  using scan_input_bounds [of "\<lparr>tpx = 255, tpy = 191\<rparr>" 0 0] by simp

theorem handler_return_saves_witness:
  "\<exists>w'. UU_Handler init_ok_env (demo_env True unbounded_heap True) ''x'' False (\<lambda>_. quiet_frame 0 (keys_of [KEY_START])) world0
         = Some (Returned 0 w') \<and> saved w' \<and> lSocket w' = Some 3 \<and> dirs w' = uu_dirs"
proof -
  let ?w1 = "world0\<lparr>dirs := uu_dirs, lSocket := Some 3\<rparr>"
  have i: "UU_Initialize init_ok_env ''x'' world0 = Inr ?w1"
    by (simp add: UU_Initialize_def appwifi_echoserver_def init_ok_env_def nitro_paths_def world0_def Let_def)
  have t: "echoserver_tick (f_client (quiet_frame 0 (keys_of [KEY_START]))) (f_peer (quiet_frame 0 (keys_of [KEY_START]))) ?w1 = Some ?w1"
    by (simp add: echoserver_tick_def quiet_frame_def)
  obtain w' where h: "UU_Handler init_ok_env (demo_env True unbounded_heap True) ''x'' False (\<lambda>_. quiet_frame 0 (keys_of [KEY_START])) world0
         = Some (Returned 0 w')"
    using i handler_loop_step [OF t] by (simp add: UU_Handler_def quiet_frame_def le_bytes_def Let_def)
  from handler_return_saves [OF h] have "saved w' \<and> lSocket w' = Some 3 \<and> dirs w' = dirs world0 @ uu_dirs"
    by (simp add: init_ok_env_def)
  with h show ?thesis by (simp add: world0_def)
qed

theorem handler_console_trace_witness:
  "\<exists>w'. handler_loop (demo_env True unbounded_heap True)
          (\<lambda>j. quiet_frame 0 (if j = 1 then keys_of [KEY_START] else keys_of [KEY_B])) 0 world0 = Some (Returned 0 w')
     \<and> console w' = [CurIP [0, 0, 0, 0], Msg ''asdf\<newline>'', CurIP [0, 0, 0, 0]]"
  using handler_console_trace [of 1 "\<lambda>j. quiet_frame 0 (if j = 1 then keys_of [KEY_START] else keys_of [KEY_B])" 0
      "demo_env True unbounded_heap True" world0]
  by (simp add: quiet_frame_def le_bytes_def world0_def upt_rec)

end
