(* ===== verification/Spec2Isabelle.thy ===== *)
theory Spec2Isabelle
  imports Downloading Settings_Menu MainLoop
begin

text \<open>
  \<^bold>\<open>Universal-Updater: a verification development.\<close>

  The program (\<^verbatim>\<open>src/\<close>) has three parts. \<^verbatim>\<open>src/source/actions/Downloading.cpp\<close>
  fetches a URL with libcurl into a process-wide growable buffer (\<open>ResultBuf\<close>,
  \<open>Result_Size\<close>, \<open>Result_Written\<close>, filled by the write callback \<open>handle_data\<close>) and
  writes it to a file (\<open>downloadToFile\<close>). \<^verbatim>\<open>src/source/menu/settings.cpp\<close> is the
  settings menu: five pages, each a handler driven by the keys and the touch screen, a dispatcher
  \<open>StoreUtils::SettingsHandle\<close> and the draw functions. \<^verbatim>\<open>src/source/nds/UniversalUpdater.cpp\<close>
  is the NDS front end: start-up, a TCP echo server, input scaling, drawing, and a frame loop that
  runs a test download through \<open>downloadToFile\<close> on a 10.x.x.x network.

  \<^bold>\<open>Theories.\<close>
  \<^item> \<open>Prelude\<close>: the machine types (\<open>byte\<close>, \<open>size_t = 32 word\<close>, \<open>u16\<close>, \<open>u32\<close>),
    \<open>splice\<close> (what \<open>memcpy\<close> does to a block) and \<open>resize_block\<close> (what \<open>realloc\<close> keeps),
    with the shared list and word lemmas.
  \<^item> \<open>Downloading\<close>: the buffer as record \<open>dl_state\<close>; \<open>dl_prepare\<close> (the lazy \<open>malloc\<close>),
    \<open>grow_size\<close> (the doubling \<open>while\<close> loop, a \<open>partial_function (option)\<close> on 32-bit
    words), \<open>write_chunk\<close> and \<open>handle_data\<close>; \<open>setupContext\<close> and \<open>downloadToFile\<close>.
    libcurl (\<open>curl_easy_perform\<close> delivering the body chunk by chunk to the callback,
    \<open>curl_write_all\<close>), \<open>malloc\<close>/\<open>realloc\<close> (an allocator oracle \<open>heap\<close>) and
    \<open>memcpy\<close> (\<open>memcpy_block\<close>, faults as \<open>mem_fault\<close> values) are modelled from their
    contracts. \<open>cap_from\<close> is the reference capacity: the smallest \<open>4096 * 2^k\<close> at least
    the bytes written.
  \<^item> \<open>Input\<close>: libnds key masks (\<open>key_bit\<close>, \<open>held\<close>), touch positions, button
    rectangles and the hit test \<open>touching\<close>.
  \<^item> \<open>Settings\<close>: every handler of \<^verbatim>\<open>settings.cpp\<close> as a function on the record
    \<open>settings\<close> (\<open>page\<close>, \<open>selection\<close>, \<open>sPos\<close> and the globals it writes), split as the
    code is into the key block (\<open>main_keys\<close>, \<open>dir_keys\<close>, ...), the touch block
    (\<open>main_touch\<close>, ...), the \<open>KEY_A\<close> switch (\<open>main_item\<close>, ...); overlays, prompts, font
    and language loads go to an effect log in call order; \<open>LanguageLogic\<close> and
    \<open>SettingsHandle\<close> return \<open>None\<close> on an out-of-range read of \<open>langsTemp\<close>; the draw
    functions return the rows they show and which is highlighted.
  \<^item> \<open>Settings_Menu\<close>: the invariant \<open>settings_inv\<close>, the reachable states
    \<open>settings_reach\<close> (an inductive relation, one \<open>SettingsHandle\<close> call per frame) and runs
    of frames \<open>run_frames\<close>.
  \<^item> \<open>MainLoop\<close>: the world record \<open>uu_world\<close> (console,
    directories, files, download buffer, sockets, data sent, configuration saved);
    \<open>UU_Initialize\<close> with the requirement \<open>parents_first\<close> on its \<open>mkdir\<close> order,
    \<open>appwifi_echoserver\<close>,
    \<open>echoserver_tick\<close> with its receive loop \<open>echo_loop\<close>,
    \<open>ScanInput\<close>, \<open>UU_Draw\<close>, \<open>SwitchTopMode\<close>, the Wi-Fi
    callbacks \<open>appwifi_log\<close>, \<open>appwifi_connect\<close> and
    \<open>appwifi_reconnect\<close>, and the frame loop \<open>handler_loop\<close> of
    \<open>UU_Handler\<close>, which calls \<open>downloadToFile\<close>. \<open>while (1)
    swiWaitForVBlank();\<close> is \<open>vblank_forever\<close>, which never returns; the
    outcome \<open>Halted\<close> stands for it.

  \<^bold>\<open>What is proved.\<close> Downloader (C1--C10, C35, C36, C39): a download writes
  exactly the received body and releases the buffer; the capacity after a transfer is
  \<open>cap_from\<close> of the bytes written; \<open>handle_data\<close> never makes
  \<open>memcpy\<close> overrun the block; it returns exactly when the needed size is at most
  \<open>2^31\<close> and loops for ever beyond (the \<open><<= 1\<close> wraps); failures of the
  transfer, of memory and of \<open>fopen\<close> each give their result; the buffer invariant
  holds after every callback; the 32-bit doubling loop computes the reference capacity (C35) and
  the callback refines appending to the received bytes (C36); the diagnostic \<open>printf\<close>
  of the buffer reads past it when the body fills it exactly with no zero byte (C39). Menu
  (C11--C21, C37, C38, C40): every reachable state keeps the invariant and draws with one
  highlighted row; every page's touch targets are disjoint; D-pad, back navigation, language,
  theme, directory and exit behaviour frame by frame; a tap on a language row picks the
  language drawn in that row (C14); B is applied before A within a frame, so
  both together pick the item B lands on (C40); every page is reached within two frames from any
  state (C21); the draw fails exactly on the GUI page at a theme index without a name, and one A
  reaches such a state whenever the build has a second theme (C20).
  Front end (C22--C29, C31--C33): the frame loop returns on START and otherwise runs for ever; the echo
  server sends back what it receives and blocks the frame while a client keeps sending; start-up
  succeeds exactly when every step does and then creates the four directories parents first (C27);
  touch scaling stays in range; the console shows each frame's address and the B output in order (C31);
  every normal return of the handler has saved the configuration. Across components: C34 runs
  the downloader from the first frame on a 10.x network, and C30 shows that every settings touch
  target is reachable from the raw touch screen through \<open>ScanInput\<close>'s scaling, read by
  the menu as \<open>touch_of\<close>.

  \<^bold>\<open>Bounds and fuel.\<close> Sizes are 32-bit words as on the ARM9. The downloader
  claims assume at most \<open>2^31\<close> bytes in all: beyond that \<open>Result_Size <<=
  1\<close> wraps to 0 and \<open>grow_size\<close> diverges, which C4 proves. The loops that may
  not end (\<open>grow_size\<close>, \<open>echo_loop\<close>, \<open>handler_loop\<close>) are
  \<open>partial_function (option)\<close>, so not returning is \<open>None\<close>, and each has
  a theorem saying when it returns and when it does not. Inputs to loops that read the environment
  are functions from the iteration number (the \<open>i\<close>-th \<open>recv\<close>, the
  \<open>i\<close>-th frame), so no fuel bound is needed.

  \<^bold>\<open>Not modelled.\<close> The libraries the code only calls: libcurl beyond its
  write-callback contract, the libc allocator beyond success or failure,
  libfat/NitroFS/lwIP/DSiWifi beyond their return values, the GUI drawing calls (only which
  items are drawn), \<open>ConfigData\<close> persistence (outside
  \<^verbatim>\<open>src/\<close>; its fields are a record), the overlays, and the 60 frame
  waits before \<open>fwrite\<close>, which have no effect on the result. The
  \<open>printf\<close> of the buffer is modelled only as the read of a C string
  (\<open>print_result_buf\<close>): the bytes after \<open>Result_Written\<close> are whatever
  the allocator left, so only claims that do not depend on them are made. Every line of the
  three source files outside licence headers, includes and comments is translated by some
  definition; what remains is the library behaviour above.
\<close>

subsection \<open>The touch position the menu reads\<close>

text \<open>
  The settings handlers read \<open>touch\<close>, the application's \<open>UU::App->T\<close> that
  \<open>UU::ScanInput\<close> wrote this frame (the alias is declared in a header outside
  \<^verbatim>\<open>src/\<close>); its \<open>u16\<close> coordinates are widened to \<open>int\<close> in the comparisons of
  \<open>touching\<close>.
\<close>

definition touch_of :: "uu_input \<Rightarrow> touchPosition" where
  "touch_of i = \<lparr>px = uint (tpx (T i)), py = uint (tpy (T i))\<rparr>"

text \<open>
  C34. On a network whose address starts with 10, the first frame of the NDS main loop runs
  \<open>downloadToFile\<close> on the built-in URL: a successful transfer writes the whole body to
  \<^verbatim>\<open>sd:/hi.txt\<close> and prints 0, a failed one leaves the files alone and prints -1; then the
  program idles for ever with the buffer released and the configuration not saved.
\<close>

theorem handler_downloads_on_lan:
  assumes "UU_Initialize ie a w = Inr w1" "f_client (fr 0) \<le> 0" "take_bit 8 (f_ip (fr 0)) = 10"
    "length (concat (body_chunks (dl_web denv hi_url))) \<le> 2 ^ 31" "dl_heap denv = unbounded_heap"
    "dl w = dl_reset"
  shows "\<exists>w'. UU_Handler ie denv a False fr w = Some (Halted w')
           \<and> fs w' = (if transfer_ok (dl_web denv hi_url) \<and> dl_can_open denv hi_path
                      then (fs w)(hi_path \<mapsto> concat (body_chunks (dl_web denv hi_url))) else fs w)
           \<and> last (console w') = PrintResult (if transfer_ok (dl_web denv hi_url) then 0 else -1)
           \<and> dl w' = dl_reset \<and> saved w' = saved w"
proof -
  have f: "fs w1 = fs w" "dl w1 = dl w" "saved w1 = saved w" using initialize_frame [OF assms(1)] by auto
  have t: "echoserver_tick (f_client (fr 0)) (f_peer (fr 0)) w1 = Some w1"
    using assms(2) by (simp add: echoserver_tick_def)
  have b: "le_bytes (f_ip (fr 0)) ! 0 = 10" using assms(3) first_byte_test by blast
  let ?w2 = "log_msg (CurIP (le_bytes (f_ip (fr 0)))) w1"
  have "UU_Handler ie denv a False fr w = download_and_halt denv ?w2"
    using assms(1) t b by (simp add: UU_Handler_def handler_loop_step Let_def)
  moreover have "dl_inv (dl ?w2)" using f assms(6) by simp
  moreover have "unat (Result_Written (dl ?w2)) + length (concat (body_chunks (dl_web denv hi_url))) \<le> 2 ^ 31"
    using f assms(4,6) by simp
  ultimately show ?thesis using download_and_halt_ok [of ?w2 denv] assms(5,6) f
    by (auto simp: dl_contents_def)
qed

text \<open>
  C30. Every touch target of every settings page can be hit from the 256 by 192 touch screen
  although \<open>UU::ScanInput\<close>'s 5/4 scaling skips every fifth coordinate: for each target
  some raw touch, after scaling, lies in it and in no other target of its page.
\<close>

theorem raw_touch_hits_target:
  assumes "p \<in> {0, 1, 2, 3, 4}" "b \<in> set (page_targets p)"
  shows "\<exists>t. unat (tpx t) < 256 \<and> unat (tpy t) < 192 \<and> touching (touch_of (ScanInput d r t)) b
           \<and> filter (touching (touch_of (ScanInput d r t))) (page_targets p) = [b]"
proof -
  note bd = page_targets_bounds [OF assms]
  obtain x :: u16 where x: "unat x < 256" "btn_x b \<le> uint (scale_touch x)" "uint (scale_touch x) \<le> btn_x b + btn_w b"
    using scale_touch_hits [of "btn_x b" 256 "btn_w b"] bd by auto
  obtain y :: u16 where y: "unat y < 192" "btn_y b \<le> uint (scale_touch y)" "uint (scale_touch y) \<le> btn_y b + btn_h b"
    using scale_touch_hits [of "btn_y b" 192 "btn_h b"] bd by auto
  let ?t = "\<lparr>tpx = x, tpy = y\<rparr>"
  have h: "touching (touch_of (ScanInput d r ?t)) b"
    using x y by (simp add: touching_def touch_of_def ScanInput_def)
  have "length (filter (touching (touch_of (ScanInput d r ?t))) (page_targets p)) \<le> 1"
    by (rule disjoint_rects_touch [OF page_targets_disjoint [OF assms(1)]])
  moreover have "b \<in> set (filter (touching (touch_of (ScanInput d r ?t))) (page_targets p))"
    using h assms(2) by simp
  ultimately have "filter (touching (touch_of (ScanInput d r ?t))) (page_targets p) = [b]"
    by (cases "filter (touching (touch_of (ScanInput d r ?t))) (page_targets p)") (auto simp: le_Suc_eq)
  with h x y show ?thesis by (intro exI [of _ ?t]) auto
qed

theorem handler_downloads_on_lan_witness:
  "\<exists>w'. UU_Handler init_ok_env (demo_env True unbounded_heap True) ''x'' False (\<lambda>_. quiet_frame 10 0) world0 = Some (Halted w')
     \<and> fs w' = (fs world0)(hi_path \<mapsto> [1, 2, 3]) \<and> last (console w') = PrintResult 0
     \<and> dl w' = dl_reset \<and> \<not> saved w'"
proof -
  have i: "UU_Initialize init_ok_env ''x'' world0 = Inr (world0\<lparr>dirs := uu_dirs, lSocket := Some 3\<rparr>)"
    by (simp add: UU_Initialize_def appwifi_echoserver_def init_ok_env_def nitro_paths_def world0_def Let_def)
  show ?thesis
    using handler_downloads_on_lan [OF i, of "\<lambda>_. quiet_frame 10 0" "demo_env True unbounded_heap True"]
    by (simp add: quiet_frame_def demo_env_def world0_def)
qed
theorem raw_touch_hits_target_witness:
  "\<exists>t. unat (tpx t) < 256 \<and> unat (tpy t) < 192 \<and> touching (touch_of (ScanInput 0 0 t)) (langButtons ! 6)
     \<and> filter (touching (touch_of (ScanInput 0 0 t))) (page_targets 4) = [langButtons ! 6]"
  using raw_touch_hits_target [of 4 "langButtons ! 6" 0 0] by (simp add: page_targets_def langButtons_def button_def)

end
